(* ===== verification/Prelude.thy ===== *)
theory Prelude
  imports Main "HOL-Library.AList" "HOL-Library.Char_ord" "HOL-Library.List_Lexorder"
begin

text \<open>
  The parts of JavaScript's standard library that the modelled TypeScript uses, and the
  generic lemmas every component shares: thrown errors as values of a sum type, strings,
  insertion-ordered maps and sets, stable sorting by a comparator.

  Strings are lists of code units (\<open>char list\<close>).  A JavaScript \<open>Map\<close>, and an object used
  as a dictionary, is an association list in insertion order: \<open>set\<close> is
  \<open>AList.update\<close> (an existing key keeps its position, a new one is appended), \<open>delete\<close> is
  \<open>AList.delete\<close>, \<open>get\<close> is \<open>map_of\<close>.
\<close>

named_theorems js_string \<open>evaluation of the string operations\<close>
named_theorems res_simps \<open>case analysis of results\<close>

section \<open>Thrown errors\<close>

text \<open>An \<open>Error\<close> with its message; \<open>SearchLimit\<close> is planner.ts's \<open>RequirementSearchLimit\<close>,
  the one error class the planner tells apart from the others; \<open>Coded\<close> is an error with an HTTP status and a code
  (store.ts's \<open>CustomerAuthorizationError\<close>).\<close>

datatype err = Err string | SearchLimit | Coded nat string string

type_synonym 'a res = "err + 'a"

definition rbind :: "'a res \<Rightarrow> ('a \<Rightarrow> 'b res) \<Rightarrow> 'b res" where
  "rbind m f = (case m of Inl e \<Rightarrow> Inl e | Inr x \<Rightarrow> f x)"

lemma rbind_simps [simp]: "rbind (Inl e) f = Inl e" "rbind (Inr x) f = f x"
  by (simp_all add: rbind_def)

lemma rbind_eq_Inr [simp]: "rbind m f = Inr y \<longleftrightarrow> (\<exists>x. m = Inr x \<and> f x = Inr y)"
  by (cases m) auto

lemma rbind_cong [fundef_cong]:
  "m = m' \<Longrightarrow> (\<And>x. m' = Inr x \<Longrightarrow> f x = f' x) \<Longrightarrow> rbind m f = rbind m' f'"
  by (cases m') auto

text \<open>\<open>if (bad) throw e\<close>.\<close>

definition throw_if :: "bool \<Rightarrow> err \<Rightarrow> unit res" where
  "throw_if bad e = (if bad then Inl e else Inr ())"

lemma throw_if_eq_Inr [simp]: "throw_if bad e = Inr u \<longleftrightarrow> \<not> bad"
  by (simp add: throw_if_def)

lemma throw_if_False [simp]: "throw_if False e = Inr ()"
  by (simp add: throw_if_def)

lemma throw_if_True [simp]: "throw_if True e = Inl e"
  by (simp add: throw_if_def)

text \<open>A \<open>map\<close> whose callback may throw, and a loop of checks that may throw.\<close>

fun traverse :: "('a \<Rightarrow> 'b res) \<Rightarrow> 'a list \<Rightarrow> 'b list res" where
  "traverse f [] = Inr []"
| "traverse f (x # xs) = rbind (f x) (\<lambda>y. rbind (traverse f xs) (\<lambda>ys. Inr (y # ys)))"

lemma traverse_cong [fundef_cong]:
  "xs = ys \<Longrightarrow> (\<And>x. x \<in> set ys \<Longrightarrow> f x = g x) \<Longrightarrow> traverse f xs = traverse g ys"
  by (induction ys arbitrary: xs) (auto intro!: rbind_cong)

lemma traverse_Inr_iff:
  "traverse f xs = Inr ys \<longleftrightarrow> list_all2 (\<lambda>x y. f x = Inr y) xs ys"
  by (induction xs arbitrary: ys) (auto simp: list_all2_Cons1)

lemma traverse_length: "traverse f xs = Inr ys \<Longrightarrow> length ys = length xs"
  by (auto simp: traverse_Inr_iff dest: list_all2_lengthD)

fun each :: "('a \<Rightarrow> unit res) \<Rightarrow> 'a list \<Rightarrow> unit res" where
  "each f [] = Inr ()"
| "each f (x # xs) = rbind (f x) (\<lambda>_. each f xs)"

lemma each_cong [fundef_cong]:
  "xs = ys \<Longrightarrow> (\<And>x. x \<in> set ys \<Longrightarrow> f x = g x) \<Longrightarrow> each f xs = each g ys"
  by (induction ys arbitrary: xs) (auto intro!: rbind_cong)

lemma each_Inr_iff: "each f xs = Inr u \<longleftrightarrow> (\<forall>x\<in>set xs. f x = Inr ())"
  by (induction xs) auto

section \<open>Strings\<close>

text \<open>Characters are compared through integers when a witness is evaluated.\<close>

lemma char_le_code [code]: "(c :: char) \<le> d \<longleftrightarrow> (of_char c :: int) \<le> of_char d"
  by (metis less_eq_char_def of_nat_of_char of_nat_le_iff)

lemma char_less_code [code]: "(c :: char) < d \<longleftrightarrow> (of_char c :: int) < of_char d"
  by (metis less_char_def of_nat_of_char of_nat_less_iff)


text \<open>The white space \<open>String.prototype.trim\<close> and the regular expression class \<open>\s\<close>
  remove, within the code units below 256: tab, line feed, vertical tab, form feed,
  carriage return, space and the no-break space.\<close>

definition js_space :: "char \<Rightarrow> bool" where
  "js_space c \<longleftrightarrow> of_char c \<in> {9::nat, 10, 11, 12, 13, 32, 160}"

lemma js_space_code [code]:
  "js_space c \<longleftrightarrow> c \<in> set [CHR 0x09, CHR 0x0A, CHR 0x0B, CHR 0x0C, CHR 0x0D, CHR '' '', CHR 0xA0]"
proof -
  have "of_char c = (of_char d :: nat) \<longleftrightarrow> c = d" for d by (rule of_char_eq_iff)
  from this [of "CHR 0x09"] this [of "CHR 0x0A"] this [of "CHR 0x0B"] this [of "CHR 0x0C"] this [of "CHR 0x0D"]
    this [of "CHR '' ''"] this [of "CHR 0xA0"]
  show ?thesis by (simp add: js_space_def)
qed

definition trim :: "string \<Rightarrow> string" where
  "trim s = rev (dropWhile js_space (rev (dropWhile js_space s)))"

text \<open>\<open>indexOf\<close> and \<open>lastIndexOf\<close> of one character, -1 when it is absent.\<close>

definition indexOf :: "char \<Rightarrow> string \<Rightarrow> int" where
  "indexOf c s = (if c \<in> set s then int (length (takeWhile (\<lambda>d. d \<noteq> c) s)) else -1)"

definition lastIndexOf :: "char \<Rightarrow> string \<Rightarrow> int" where
  "lastIndexOf c s =
     (if c \<in> set s then int (length s) - 1 - int (length (takeWhile (\<lambda>d. d \<noteq> c) (rev s)))
      else -1)"

text \<open>\<open>slice(start, end)\<close>: a negative position counts from the end, and both are clamped.\<close>

definition slice_pos :: "string \<Rightarrow> int \<Rightarrow> nat" where
  "slice_pos s i = nat (if i < 0 then max 0 (int (length s) + i) else min i (int (length s)))"

definition slice :: "string \<Rightarrow> int \<Rightarrow> int \<Rightarrow> string" where
  "slice s i j = take (slice_pos s j - slice_pos s i) (drop (slice_pos s i) s)"

text \<open>\<open>split\<close> on a single character and \<open>join\<close>.\<close>

fun split_on :: "char \<Rightarrow> string \<Rightarrow> string list" where
  "split_on c [] = [[]]"
| "split_on c (d # s) =
     (if d = c then [] # split_on c s
      else (case split_on c s of [] \<Rightarrow> [[d]] | w # ws \<Rightarrow> (d # w) # ws))"

fun join :: "string \<Rightarrow> string list \<Rightarrow> string" where
  "join sep [] = []"
| "join sep [s] = s"
| "join sep (s # t # ts) = s @ sep @ join sep (t # ts)"

definition startsWith :: "string \<Rightarrow> string \<Rightarrow> bool" where
  "startsWith p s \<longleftrightarrow> take (length p) s = p"

lemma split_on_ne [simp]: "split_on c s \<noteq> []"
  by (cases s) (auto split: list.splits)

lemma split_on_no: "c \<notin> set s \<Longrightarrow> split_on c s = [s]"
  by (induction s) auto

lemma split_on_append: "c \<notin> set s \<Longrightarrow> split_on c (s @ c # t) = s # split_on c t"
  by (induction s) auto

lemma split_on_prefix:
  "c \<notin> set u \<Longrightarrow> split_on c (u @ v) = (u @ hd (split_on c v)) # tl (split_on c v)"
proof (induction u)
  case Nil
  then show ?case by (cases "split_on c v") auto
qed (auto split: list.splits)

lemma split_on_join:
  assumes "ss \<noteq> []" "\<forall>s\<in>set ss. c \<notin> set s" "c \<notin> set sep"
  shows "split_on c (join (c # sep) ss) = hd ss # map (\<lambda>s. sep @ s) (tl ss)"
  using assms
proof (induction ss)
  case (Cons s ss)
  show ?case
  proof (cases ss)
    case Nil
    with Cons show ?thesis by (simp add: split_on_no)
  next
    case (Cons t ts)
    with Cons.IH Cons.prems have "split_on c (join (c # sep) (t # ts)) = t # map ((@) sep) ts"
      by simp
    with Cons Cons.prems show ?thesis by (simp add: split_on_append split_on_prefix)
  qed
qed simp

lemma dropWhile_hd: "s = [] \<or> \<not> P (hd s) \<Longrightarrow> dropWhile P s = s"
  by (cases s) auto

lemma trim_id: "s = [] \<or> (\<not> js_space (hd s) \<and> \<not> js_space (last s)) \<Longrightarrow> trim s = s"
  unfolding trim_def by (subst (1 2) dropWhile_hd) (auto simp: hd_rev dropWhile_hd)

lemma trim_Cons_space: "js_space c \<Longrightarrow> trim (c # s) = trim s"
  by (simp add: trim_def)

text \<open>Decimal notation of a number interpolated into a template string.\<close>

fun string_of_nat :: "nat \<Rightarrow> string" where
  "string_of_nat n =
     (if n < 10 then [char_of (48 + n)]
      else string_of_nat (n div 10) @ [char_of (48 + n mod 10)])"

declare string_of_nat.simps [simp del]

lemma digit_char: "k < 10 \<Longrightarrow> char_of (48 + k) = ''0123456789'' ! k" for k :: nat
proof -
  assume "k < 10"
  then have "k = 0 \<or> k = 1 \<or> k = 2 \<or> k = 3 \<or> k = 4 \<or> k = 5 \<or> k = 6 \<or> k = 7 \<or> k = 8 \<or> k = 9"
    by auto
  then have "(of_char (char_of (48 + k)) :: nat) = of_char (''0123456789'' ! k)"
    unfolding of_char_of by (elim disjE) simp_all
  then show ?thesis by (simp only: of_char_eq_iff)
qed

lemma string_of_nat_code [code]:
  "string_of_nat n = (if n < 10 then [''0123456789'' ! n] else string_of_nat (n div 10) @ [''0123456789'' ! (n mod 10)])"
proof -
  have d: "n < 10 \<Longrightarrow> char_of (48 + n) = ''0123456789'' ! n" "char_of (48 + n mod 10) = ''0123456789'' ! (n mod 10)"
    by (rule digit_char, assumption) (rule digit_char, simp)
  show ?thesis
    by (cases "n < 10"; subst string_of_nat.simps) (simp_all only: d if_True if_False)
qed
fun nat_of_digits :: "string \<Rightarrow> nat" where
  "nat_of_digits s = foldl (\<lambda>n c. 10 * n + (of_char c - 48)) 0 s"

lemma nat_of_digits_string_of_nat: "nat_of_digits (string_of_nat n) = n"
proof (induction n rule: string_of_nat.induct)
  case (1 n)
  show ?case
  proof (cases "n < 10")
    case True
    then show ?thesis by (subst string_of_nat.simps) (simp add: of_char_of take_bit_eq_mod)
  next
    case False
    with 1 have "nat_of_digits (string_of_nat (n div 10)) = n div 10" by simp
    moreover have "n mod 10 < 10" by simp
    ultimately show ?thesis using False
      by (subst string_of_nat.simps) (simp add: of_char_of take_bit_eq_mod)
  qed
qed

lemma string_of_nat_inj [simp]: "string_of_nat m = string_of_nat n \<longleftrightarrow> m = n"
  by (metis nat_of_digits_string_of_nat)

lemma string_of_nat_digits: "c \<in> set (string_of_nat n) \<Longrightarrow> 48 \<le> (of_char c :: nat) \<and> of_char c < (58 :: nat)"
proof (induction n rule: string_of_nat.induct)
  case (1 n)
  have "n mod 10 < 10" by simp
  with 1 show ?case
    by (subst (asm) string_of_nat.simps [of n])
      (auto split: if_splits simp: of_char_of take_bit_eq_mod)
qed

definition string_of_int :: "int \<Rightarrow> string" where
  "string_of_int i = (if i < 0 then CHR ''-'' # string_of_nat (nat (- i)) else string_of_nat (nat i))"

section \<open>Integers that are exact as numbers\<close>

definition MAX_SAFE_INTEGER :: int where
  "MAX_SAFE_INTEGER = 9007199254740991"

definition safe_integer :: "int \<Rightarrow> bool" where
  "safe_integer n \<longleftrightarrow> - MAX_SAFE_INTEGER \<le> n \<and> n \<le> MAX_SAFE_INTEGER"

section \<open>Sets and maps in insertion order\<close>

text \<open>\<open>[...new Set(xs)]\<close>: the first occurrence of each element, in order.\<close>

definition uniq :: "'a list \<Rightarrow> 'a list" where
  "uniq xs = foldl (\<lambda>acc x. if x \<in> set acc then acc else acc @ [x]) [] xs"

lemma uniq_acc:
  "set (foldl (\<lambda>acc x. if x \<in> set acc then acc else acc @ [x]) acc xs) = set acc \<union> set xs"
  by (induction xs arbitrary: acc) auto

lemma set_uniq [simp]: "set (uniq xs) = set xs"
  by (simp add: uniq_def uniq_acc)

lemma distinct_uniq [simp]: "distinct (uniq xs)"
proof -
  have "distinct acc \<Longrightarrow>
    distinct (foldl (\<lambda>acc x. if x \<in> set acc then acc else acc @ [x]) acc xs)" for acc
    by (induction xs arbitrary: acc) auto
  then show ?thesis by (simp add: uniq_def)
qed

lemma set_map_filter: "set (List.map_filter f xs) = {y. \<exists>x\<in>set xs. f x = Some y}"
  by (force simp: List.map_filter_def)

type_synonym ('k, 'v) jsmap = "('k \<times> 'v) list"

abbreviation map_values :: "('k, 'v) jsmap \<Rightarrow> 'v list" where
  "map_values m \<equiv> map snd m"

abbreviation has :: "('k, 'v) jsmap \<Rightarrow> 'k \<Rightarrow> bool" where
  "has m k \<equiv> k \<in> fst ` set m"

lemma map_of_update [simp]: "map_of (AList.update k v m) = (map_of m)(k \<mapsto> v)"
  by (rule update_conv')

lemma map_of_delete [simp]: "map_of (AList.delete k m) = (map_of m)(k := None)"
  by (rule delete_conv')

lemma has_map_of: "has m k \<longleftrightarrow> map_of m k \<noteq> None"
  by (simp add: map_of_eq_None_iff)

lemma set_update_subset: "set (AList.update k v m) \<subseteq> insert (k, v) (set m)"
  by (induction m) auto

lemma update_new: "\<not> has m k \<Longrightarrow> AList.update k v m = m @ [(k, v)]"
  by (induction m) auto

lemma set_updateD: "(k', v') \<in> set (AList.update k v m) \<Longrightarrow> (k', v') = (k, v) \<or> (k', v') \<in> set m"
  using set_update_subset by fast

lemma set_delete_subset: "set (AList.delete k m) \<subseteq> set m"
  by (auto simp: AList.delete_eq)

lemma has_update [simp]: "has (AList.update k v m) k' \<longleftrightarrow> k' = k \<or> has m k'"
  by (simp add: dom_update)

text \<open>A map that indexes its values by one of their members, all of them satisfying a predicate.\<close>

definition keyed :: "('v \<Rightarrow> 'k) \<Rightarrow> ('v \<Rightarrow> bool) \<Rightarrow> ('k, 'v) jsmap \<Rightarrow> bool" where
  "keyed f P m \<longleftrightarrow> distinct (map fst m) \<and> (\<forall>k v. (k, v) \<in> set m \<longrightarrow> f v = k \<and> P v)"

lemma keyed_Nil [simp]: "keyed f P []"
  by (simp add: keyed_def)

lemma keyed_update: "keyed f P m \<Longrightarrow> f v = k \<Longrightarrow> P v \<Longrightarrow> keyed f P (AList.update k v m)"
  unfolding keyed_def by (auto simp: distinct_update dest!: set_updateD)

lemma keyed_delete: "keyed f P m \<Longrightarrow> keyed f P (AList.delete k m)"
  unfolding keyed_def by (auto simp: distinct_delete dest: subsetD [OF set_delete_subset])

lemma keyed_mono: "keyed f P m \<Longrightarrow> (\<And>v. P v \<Longrightarrow> Q v) \<Longrightarrow> keyed f Q m"
  unfolding keyed_def by blast

lemma keyed_map_of: "keyed f P m \<Longrightarrow> map_of m k = Some v \<Longrightarrow> f v = k \<and> P v"
  unfolding keyed_def by (meson map_of_SomeD)

lemma keyed_values: "keyed f P m \<Longrightarrow> v \<in> set (map_values m) \<longleftrightarrow> map_of m (f v) = Some v"
  unfolding keyed_def by (force dest: map_of_SomeD)

text \<open>The values of a map are smaller than the map, for recursion over trees of maps.\<close>

lemma size_in_entries: "(k, t) \<in> set entries \<Longrightarrow> f t < Suc (size_list (size_prod (\<lambda>_. 0) f) entries)"
  using size_list_estimation' [of "(k, t)" entries "size_prod (\<lambda>_. 0) f (k, t)" "size_prod (\<lambda>_. 0) f"] by simp

text \<open>Building a map from pairs: \<open>new Map(pairs)\<close>.\<close>

text \<open>Removing the entry of a key from a list with distinct keys.\<close>

lemma remove1_key:
  "distinct (map fst xs) \<Longrightarrow> (k, v) \<in> set xs \<Longrightarrow> remove1 (k, v) xs = filter (\<lambda>p. fst p \<noteq> k) xs"
proof (induction xs)
  case (Cons p xs)
  show ?case
  proof (cases "p = (k, v)")
    case True
    then have "\<forall>q\<in>set xs. fst q \<noteq> k" using Cons.prems(1) by (auto simp: image_iff)
    with True show ?thesis by (simp add: filter_id_conv)
  next
    case False
    then have kv: "(k, v) \<in> set xs" using Cons.prems(2) by auto
    then have "k \<in> fst ` set xs" by (rule image_eqI [rotated]) simp
    then have "fst p \<noteq> k" using Cons.prems(1) by auto
    with kv show ?thesis using Cons False by simp
  qed
qed simp

lemma remove1_keys:
  "distinct (map fst xs) \<Longrightarrow> (k, v) \<in> set xs \<Longrightarrow> remove1 k (map fst xs) = map fst (remove1 (k, v) xs)"
  by (simp add: remove1_key distinct_remove1_removeAll removeAll_filter_not_eq filter_map comp_def eq_commute)

definition map_from :: "('k \<times> 'v) list \<Rightarrow> ('k, 'v) jsmap" where
  "map_from ps = foldl (\<lambda>m (k, v). AList.update k v m) [] ps"

lemma distinct_map_from: "distinct (map fst (map_from ps))"
proof -
  have "distinct (map fst m) \<Longrightarrow>
    distinct (map fst (foldl (\<lambda>m (k, v). AList.update k v m) m ps))" for m :: "('a \<times> 'b) list"
    by (induction ps arbitrary: m) (auto intro: distinct_update)
  then show ?thesis by (simp add: map_from_def)
qed

lemma map_of_map_from: "map_of (map_from ps) k = map_of (rev ps) k"
proof -
  have "map_of (foldl (\<lambda>m (k, v). AList.update k v m) m ps) k =
    (case map_of (rev ps) k of None \<Rightarrow> map_of m k | Some v \<Rightarrow> Some v)" for m
    by (induction ps arbitrary: m)
      (auto simp: map_add_def split: option.splits prod.splits)
  then show ?thesis by (simp add: map_from_def split: option.splits)
qed

lemma has_map_from [simp]: "fst ` set (map_from ps) = fst ` set ps"
proof -
  have "fst ` set (foldl (\<lambda>m (k, v). AList.update k v m) m ps) = fst ` set m \<union> fst ` set ps" for m
  proof (induction ps arbitrary: m)
    case (Cons p ps)
    then show ?case by (cases p) (simp add: dom_update)
  qed simp
  then show ?thesis by (simp add: map_from_def)
qed

lemma length_map_from_iff: "length (map_from ps) = length ps \<longleftrightarrow> distinct (map fst ps)"
proof
  assume "length (map_from ps) = length ps"
  then have "card (fst ` set ps) = length ps"
    by (metis distinct_card distinct_map_from has_map_from length_map set_map)
  then show "distinct (map fst ps)" by (simp add: card_distinct)
next
  assume "distinct (map fst ps)"
  then show "length (map_from ps) = length ps"
    by (metis distinct_card distinct_map_from has_map_from length_map set_map)
qed

lemma map_from_distinct: "distinct (map fst ps) \<Longrightarrow> map_from ps = ps"
proof -
  have "distinct (map fst (m @ ps)) \<Longrightarrow> foldl (\<lambda>m (k, v). AList.update k v m) m ps = m @ ps" for m
  proof (induction ps arbitrary: m)
    case (Cons p ps)
    then show ?case
      by (cases p) (simp add: update_new)
  qed simp
  then show "distinct (map fst ps) \<Longrightarrow> map_from ps = ps" by (simp add: map_from_def)
qed

section \<open>Sorting\<close>

text \<open>\<open>Array.prototype.sort(cmp)\<close> is stable, so for a comparator that is a total preorder the
  result is the insertion sort's.\<close>

fun insort_by :: "('a \<Rightarrow> 'a \<Rightarrow> int) \<Rightarrow> 'a \<Rightarrow> 'a list \<Rightarrow> 'a list" where
  "insort_by cmp x [] = [x]"
| "insort_by cmp x (y # ys) = (if cmp x y \<le> 0 then x # y # ys else y # insort_by cmp x ys)"

definition sort_by :: "('a \<Rightarrow> 'a \<Rightarrow> int) \<Rightarrow> 'a list \<Rightarrow> 'a list" where
  "sort_by cmp xs = foldr (insort_by cmp) xs []"

lemma sort_by_simps [simp]:
  "sort_by cmp [] = []"
  "sort_by cmp (x # xs) = insort_by cmp x (sort_by cmp xs)"
  by (simp_all add: sort_by_def)

lemma set_insort_by [simp]: "set (insort_by cmp x xs) = insert x (set xs)"
  by (induction xs) auto

lemma set_sort_by [simp]: "set (sort_by cmp xs) = set xs"
  by (induction xs) auto

lemma length_insort_by [simp]: "length (insort_by cmp x xs) = Suc (length xs)"
  by (induction xs) auto

lemma length_sort_by [simp]: "length (sort_by cmp xs) = length xs"
  by (induction xs) auto

lemma sort_by_eq_Nil [simp]: "sort_by cmp xs = [] \<longleftrightarrow> xs = []"
  by (metis length_0_conv length_sort_by)

lemma distinct_sort_by [simp]: "distinct (sort_by cmp xs) = distinct xs"
proof -
  have "distinct (insort_by cmp x ys) \<longleftrightarrow> x \<notin> set ys \<and> distinct ys" for x ys
    by (induction ys) auto
  then show ?thesis by (induction xs) auto
qed

text \<open>The contract of a comparator, under which the sorted list is ordered.\<close>

locale comparator =
  fixes cmp :: "'a \<Rightarrow> 'a \<Rightarrow> int"
  assumes cmp_flip: "cmp x y \<le> 0 \<or> cmp y x \<le> 0"
    and cmp_trans: "cmp x y \<le> 0 \<Longrightarrow> cmp y z \<le> 0 \<Longrightarrow> cmp x z \<le> 0"
begin

abbreviation le :: "'a \<Rightarrow> 'a \<Rightarrow> bool" where
  "le x y \<equiv> cmp x y \<le> 0"

lemma sorted_insort: "sorted_wrt le xs \<Longrightarrow> sorted_wrt le (insort_by cmp x xs)"
proof (induction xs)
  case (Cons y ys)
  then show ?case using cmp_flip [of x y] by (auto intro: cmp_trans)
qed simp

lemma sorted_sort: "sorted_wrt le (sort_by cmp xs)"
  by (induction xs) (auto intro: sorted_insort)

lemma hd_sort_least: "sort_by cmp xs = y # ys \<Longrightarrow> x \<in> set xs \<Longrightarrow> le y x"
  using sorted_sort [of xs] set_sort_by [of cmp xs] cmp_flip [of y y]
  by (metis set_ConsD sorted_wrt.simps(2))

end

text \<open>\<open>String.prototype.localeCompare\<close> compares the collation keys of the two strings (UTS 10);
  the key function depends on the host's locale and is a parameter \<open>ck\<close> of the model.\<close>

type_synonym collation = "string \<Rightarrow> nat list"

definition localeCompare :: "collation \<Rightarrow> string \<Rightarrow> string \<Rightarrow> int" where
  "localeCompare ck a b = (if ck a < ck b then -1 else if ck a = ck b then 0 else 1)"

lemma localeCompare_le: "localeCompare ck a b \<le> 0 \<longleftrightarrow> ck a \<le> ck b"
  by (auto simp: localeCompare_def)

text \<open>\<open>a \<parallel> b\<close> on numbers, as comparators chain it: the second when the first is 0.\<close>

definition or_else :: "int \<Rightarrow> int \<Rightarrow> int" where
  "or_else a b = (if a = 0 then b else a)"

text \<open>The order of strings by their code units, as a comparator.\<close>

definition string_order :: "string \<Rightarrow> string \<Rightarrow> int" where
  "string_order a b = (if a < b then -1 else if a = b then 0 else 1)"

end
