(* ===== verification/Terms.thy ===== *)
theory Terms
  imports Prelude
begin

text \<open>
  libs/aven-actors/src/term.ts: predicates parsed as flat terms, bindings, and unification.
  The second half proves that \<open>unify\<close> decides solvability of the pairwise equations of the
  two argument lists and that its result is a most general solution.

  Boundary: argument names that an object literal inherits from \<open>Object.prototype\<close> and
  that count as variables (\<open>__proto__\<close>, \<open>__defineGetter__\<close> and their kin) are outside the model,
  in which a bindings object has its own keys only.
\<close>

section \<open>Terms\<close>

record Term =
  term_functor :: string
  term_args :: "string list"

definition parseTerm :: "string \<Rightarrow> Term" where
  "parseTerm predicate =
     (let trimmed = trim predicate;
          opn = indexOf CHR ''('' trimmed
      in if opn = -1 then \<lparr>term_functor = trimmed, term_args = []\<rparr>
         else
           let fn = trim (slice trimmed 0 opn);
               inner = trim (slice trimmed (opn + 1) (lastIndexOf CHR '')'' trimmed));
               as = (if inner = [] then [] else map trim (split_on CHR '','' inner))
           in \<lparr>term_functor = fn, term_args = as\<rparr>)"

definition isVariable :: "string \<Rightarrow> bool" where
  "isVariable arg =
     (case arg of [] \<Rightarrow> False
      | c # _ \<Rightarrow> (CHR ''A'' \<le> c \<and> c \<le> CHR ''Z'') \<or> c = CHR ''_'')"

type_synonym bindings = "(string, string) jsmap"

text \<open>Follow a chain of bindings to its end; \<open>seen\<close> stops the loop on a cycle.\<close>

function resolve_loop :: "string \<Rightarrow> bindings \<Rightarrow> string set \<Rightarrow> string" where
  "resolve_loop current b seen =
     (if isVariable current \<and> current \<notin> seen
      then (case map_of b current of
              None \<Rightarrow> current
            | Some v \<Rightarrow> resolve_loop v b (insert current seen))
      else current)"
  by pat_completeness auto
termination
proof (relation "measure (\<lambda>(_, b, seen). card (fst ` set b - seen))", goal_cases)
  case (2 current b seen v)
  then have "current \<in> fst ` set b" by (force dest: map_of_SomeD)
  with 2 have "fst ` set b - insert current seen \<subset> fst ` set b - seen" by blast
  then show ?case by (simp add: psubset_card_mono)
qed simp

declare resolve_loop.simps [simp del]

definition resolve :: "string \<Rightarrow> bindings \<Rightarrow> string" where
  "resolve value b = resolve_loop value b {}"

text \<open>The loop of \<open>unify\<close> over the two argument lists.\<close>

fun unify_args :: "string list \<Rightarrow> string list \<Rightarrow> bindings \<Rightarrow> bindings option" where
  "unify_args (x # xs) (y # ys) b =
     (if x = ''_'' \<or> y = ''_'' then unify_args xs ys b
      else
        let left = resolve x b; right = resolve y b
        in if left = right then unify_args xs ys b
           else if isVariable left then unify_args xs ys (AList.update left right b)
           else if isVariable right then unify_args xs ys (AList.update right left b)
           else None)"
| "unify_args _ _ b = Some b"

definition unify :: "string \<Rightarrow> string \<Rightarrow> bindings \<Rightarrow> bindings option" where
  "unify a c b =
     (let ta = parseTerm a; tb = parseTerm c
      in if term_functor ta \<noteq> term_functor tb \<or> length (term_args ta) \<noteq> length (term_args tb)
         then None
         else unify_args (term_args ta) (term_args tb) b)"

definition unifiable :: "string \<Rightarrow> string \<Rightarrow> bool" where
  "unifiable a b = (unify a b [] \<noteq> None)"

section \<open>Resolution under acyclic bindings\<close>

text \<open>A bindings object maps variables only and has no cycle; \<open>unify\<close> keeps it so.\<close>

definition var_edges :: "bindings \<Rightarrow> (string \<times> string) set" where
  "var_edges b = {(v, k). map_of b k = Some v}"

definition wf_bindings :: "bindings \<Rightarrow> bool" where
  "wf_bindings b \<longleftrightarrow> (\<forall>k. map_of b k \<noteq> None \<longrightarrow> isVariable k) \<and> acyclic (var_edges b)"

lemma finite_var_edges: "finite (var_edges b)"
proof -
  have "var_edges b \<subseteq> (\<lambda>(k, v). (v, k)) ` set b"
    by (auto simp: var_edges_def dest: map_of_SomeD)
  then show ?thesis by (rule finite_subset) simp
qed

lemma wf_edges: "wf_bindings b \<Longrightarrow> wf (var_edges b)"
  by (simp add: wf_bindings_def finite_var_edges finite_acyclic_wf)

lemma wf_bindings_Nil [simp, intro]: "wf_bindings []"
  by (simp add: wf_bindings_def var_edges_def acyclic_def)

lemma resolve_loop_seen:
  assumes "wf_bindings b"
  shows "(\<forall>s\<in>seen. (current, s) \<in> (var_edges b)\<^sup>+) \<Longrightarrow>
         resolve_loop current b seen = resolve_loop current b {}"
proof (induction current arbitrary: seen rule: wf_induct_rule [OF wf_edges [OF assms]])
  case (1 x)
  have fresh: "x \<notin> seen"
    using 1(2) assms by (auto simp: wf_bindings_def acyclic_def)
  show ?case
  proof (cases "map_of b x")
    case (Some v)
    then have e: "(v, x) \<in> var_edges b" by (simp add: var_edges_def)
    with 1(2) have "\<forall>s\<in>insert x seen. (v, s) \<in> (var_edges b)\<^sup>+"
      by (auto intro: trancl_into_trancl2)
    moreover from e have "\<forall>s\<in>{x}. (v, s) \<in> (var_edges b)\<^sup>+" by auto
    ultimately show ?thesis
      using Some fresh 1(1) [OF e, of "insert x seen"] 1(1) [OF e, of "{x}"]
      by (simp add: resolve_loop.simps [of x b])
  qed (simp add: fresh resolve_loop.simps [of x b])
qed

lemma resolve_unfold:
  assumes "wf_bindings b"
  shows "resolve x b = (case map_of b x of None \<Rightarrow> x | Some v \<Rightarrow> resolve v b)"
proof (cases "map_of b x")
  case None
  then show ?thesis by (simp add: resolve_def resolve_loop.simps)
next
  case (Some v)
  then have "(v, x) \<in> (var_edges b)\<^sup>+" "isVariable x"
    using assms by (auto simp: var_edges_def wf_bindings_def)
  with Some resolve_loop_seen [OF assms, of "{x}" v] show ?thesis
    by (simp add: resolve_def resolve_loop.simps [of x])
qed

lemma resolve_const: "\<not> isVariable x \<Longrightarrow> resolve x b = x"
  by (simp add: resolve_def resolve_loop.simps)

lemma resolve_Nil [simp]: "resolve x [] = x"
  by (simp add: resolve_def resolve_loop.simps)

lemma resolve_end:
  assumes "wf_bindings b"
  shows "map_of b (resolve x b) = None"
proof (induction x rule: wf_induct_rule [OF wf_edges [OF assms]])
  case (1 x)
  then show ?case
    by (cases "map_of b x") (auto simp: resolve_unfold [OF assms, of x] var_edges_def)
qed

lemma resolve_idem [simp]: "wf_bindings b \<Longrightarrow> resolve (resolve x b) b = resolve x b"
  using resolve_end [of b x] by (simp add: resolve_unfold [of b "resolve x b"])

text \<open>Binding an unbound variable to a resolved term that differs from it.\<close>

lemma edges_update: "map_of b l = None \<Longrightarrow> var_edges (AList.update l r b) = insert (r, l) (var_edges b)"
  by (auto simp: var_edges_def split: if_splits)

lemma wf_bindings_update:
  assumes "wf_bindings b" "map_of b l = None" "map_of b r = None" "l \<noteq> r" "isVariable l"
  shows "wf_bindings (AList.update l r b)"
proof -
  have "(l, r) \<notin> (var_edges b)\<^sup>*"
  proof
    assume "(l, r) \<in> (var_edges b)\<^sup>*"
    with assms(4) obtain z where "(z, r) \<in> var_edges b" by (meson rtranclE)
    with assms(3) show False by (simp add: var_edges_def)
  qed
  with assms show ?thesis
    by (auto simp: wf_bindings_def edges_update)
qed

lemma resolve_update:
  assumes "wf_bindings b" "map_of b l = None" "map_of b r = None" "l \<noteq> r" "isVariable l"
  shows "resolve z (AList.update l r b) = (if resolve z b = l then r else resolve z b)"
proof (induction z rule: wf_induct_rule [OF wf_edges [OF assms(1)]])
  case (1 z)
  note wf' = wf_bindings_update [OF assms]
  have r: "resolve r (AList.update l r b) = r"
    using assms by (simp add: resolve_unfold [OF wf', of r])
  show ?case
  proof (cases "map_of b z")
    case None
    then have z: "resolve z b = z" by (simp add: resolve_unfold [OF assms(1), of z])
    then show ?thesis using None r
      by (simp add: resolve_unfold [OF wf', of z])
  next
    case (Some v)
    with assms(2) have "z \<noteq> l" by auto
    with Some 1 [of v] show ?thesis
      by (simp add: resolve_unfold [OF wf', of z] resolve_unfold [OF assms(1), of z] var_edges_def)
  qed
qed

section \<open>Correctness of unification\<close>

text \<open>
  A valuation gives every variable a value and leaves constants alone.  It solves bindings
  when it respects each of them, and it solves two argument lists when it makes the two
  arguments of each position equal, the anonymous variable excepted.
\<close>

definition valuation :: "(string \<Rightarrow> string) \<Rightarrow> bool" where
  "valuation \<theta> \<longleftrightarrow> (\<forall>c. \<not> isVariable c \<longrightarrow> \<theta> c = c)"

definition solves :: "(string \<Rightarrow> string) \<Rightarrow> bindings \<Rightarrow> bool" where
  "solves \<theta> b \<longleftrightarrow> (\<forall>k v. map_of b k = Some v \<longrightarrow> \<theta> k = \<theta> v)"

definition equates :: "(string \<Rightarrow> string) \<Rightarrow> string list \<Rightarrow> string list \<Rightarrow> bool" where
  "equates \<theta> xs ys \<longleftrightarrow> list_all2 (\<lambda>x y. x = ''_'' \<or> y = ''_'' \<or> \<theta> x = \<theta> y) xs ys"

lemma solves_Nil [simp]: "solves \<theta> []"
  by (simp add: solves_def)

lemma solves_resolve:
  assumes "wf_bindings b" "solves \<theta> b"
  shows "\<theta> (resolve x b) = \<theta> x"
proof (induction x rule: wf_induct_rule [OF wf_edges [OF assms(1)]])
  case (1 x)
  with assms(2) show ?case
    by (cases "map_of b x") (auto simp: resolve_unfold [OF assms(1), of x] var_edges_def solves_def)
qed

lemma solves_update:
  "map_of b l = None \<Longrightarrow> solves \<theta> (AList.update l r b) \<longleftrightarrow> solves \<theta> b \<and> \<theta> l = \<theta> r"
  by (auto simp: solves_def)

lemma resolution_valuation: "valuation (\<lambda>x. resolve x b)"
  by (simp add: valuation_def resolve_const)

lemma resolution_solves: "wf_bindings b \<Longrightarrow> solves (\<lambda>x. resolve x b) b"
  by (simp add: solves_def resolve_unfold)

text \<open>One binding made by \<open>unify\<close>: the two resolved arguments differ and one is a variable.\<close>

lemmas bind_step = wf_bindings_update solves_update resolve_end

lemma unify_args_correct:
  assumes "wf_bindings b" "length xs = length ys"
  shows "case unify_args xs ys b of
     None \<Rightarrow> \<not> (\<exists>\<theta>. valuation \<theta> \<and> solves \<theta> b \<and> equates \<theta> xs ys)
   | Some b' \<Rightarrow> wf_bindings b' \<and>
       (\<forall>\<theta>. valuation \<theta> \<longrightarrow> (solves \<theta> b' \<longleftrightarrow> solves \<theta> b \<and> equates \<theta> xs ys))"
  using assms
proof (induction xs ys b rule: unify_args.induct)
  case (1 x xs y ys b)
  let ?l = "resolve x b" and ?r = "resolve y b"
  note wf = \<open>wf_bindings b\<close>
  have len: "length xs = length ys" using 1 by simp
  have head: "solves \<theta> b \<Longrightarrow> \<theta> ?l = \<theta> x \<and> \<theta> ?r = \<theta> y" for \<theta>
    by (simp add: solves_resolve wf)
  have ends: "map_of b ?l = None" "map_of b ?r = None"
    by (simp_all add: resolve_end wf)
  consider "x = ''_'' \<or> y = ''_''"
    | "x \<noteq> ''_''" "y \<noteq> ''_''" "?l = ?r"
    | "x \<noteq> ''_''" "y \<noteq> ''_''" "?l \<noteq> ?r" "isVariable ?l"
    | "x \<noteq> ''_''" "y \<noteq> ''_''" "?l \<noteq> ?r" "\<not> isVariable ?l" "isVariable ?r"
    | "x \<noteq> ''_''" "y \<noteq> ''_''" "?l \<noteq> ?r" "\<not> isVariable ?l" "\<not> isVariable ?r"
    by blast
  then show ?case
  proof cases
    case 1
    with "1.IH"(1) [OF _ wf len] show ?thesis by (auto simp: equates_def split: option.splits)
  next
    case 2
    then have "solves \<theta> b \<Longrightarrow> \<theta> x = \<theta> y" for \<theta> using head [of \<theta>] by metis
    with 2 "1.IH"(2) [OF _ refl refl _ wf len] show ?thesis
      by (simp add: equates_def split: option.splits) blast
  next
    case 3
    have wf': "wf_bindings (AList.update ?l ?r b)"
      by (rule wf_bindings_update) (use wf ends 3 in auto)
    have s: "solves \<theta> (AList.update ?l ?r b) \<longleftrightarrow> solves \<theta> b \<and> \<theta> x = \<theta> y" for \<theta>
      using head [of \<theta>] by (auto simp: solves_update ends)
    from "1.IH"(3) [OF _ refl refl _ _ wf' len] 3 show ?thesis
      unfolding s by (simp add: equates_def split: option.splits)
  next
    case 4
    have wf': "wf_bindings (AList.update ?r ?l b)"
      by (rule wf_bindings_update) (use wf ends 4 in auto)
    have s: "solves \<theta> (AList.update ?r ?l b) \<longleftrightarrow> solves \<theta> b \<and> \<theta> x = \<theta> y" for \<theta>
      using head [of \<theta>] by (auto simp: solves_update ends)
    from "1.IH"(4) [OF _ refl refl _ _ _ wf' len] 4 show ?thesis
      unfolding s by (simp add: equates_def split: option.splits)
  next
    case 5
    have "\<not> (valuation \<theta> \<and> solves \<theta> b \<and> \<theta> x = \<theta> y)" for \<theta>
      using head [of \<theta>] 5 by (metis valuation_def)
    with 5 show ?thesis by (auto simp: equates_def)
  qed
qed (auto simp: equates_def)

lemma unify_args_Some:
  "unify_args xs ys b = Some b' \<Longrightarrow> wf_bindings b \<Longrightarrow> length xs = length ys \<Longrightarrow>
   wf_bindings b' \<and> (\<forall>\<theta>. valuation \<theta> \<longrightarrow> (solves \<theta> b' \<longleftrightarrow> solves \<theta> b \<and> equates \<theta> xs ys))"
  using unify_args_correct [of b xs ys] by simp

text \<open>The two argument lists of a pair of predicates can be equated at all.\<close>

definition same_shape :: "string \<Rightarrow> string \<Rightarrow> bool" where
  "same_shape a c \<longleftrightarrow> term_functor (parseTerm a) = term_functor (parseTerm c) \<and>
     length (term_args (parseTerm a)) = length (term_args (parseTerm c))"

abbreviation solution :: "(string \<Rightarrow> string) \<Rightarrow> bindings \<Rightarrow> string \<Rightarrow> string \<Rightarrow> bool" where
  "solution \<theta> b a c \<equiv> valuation \<theta> \<and> solves \<theta> b \<and>
     equates \<theta> (term_args (parseTerm a)) (term_args (parseTerm c))"

lemma unify_SomeD:
  "unify a c b = Some b' \<Longrightarrow> wf_bindings b \<Longrightarrow>
   same_shape a c \<and> wf_bindings b' \<and> (\<forall>\<theta>. valuation \<theta> \<longrightarrow> (solves \<theta> b' \<longleftrightarrow> solution \<theta> b a c))"
  by (auto simp: unify_def Let_def same_shape_def split: if_splits dest: unify_args_Some)

lemma unify_wf: "unify a c b = Some b' \<Longrightarrow> wf_bindings b \<Longrightarrow> wf_bindings b'"
  by (simp add: unify_SomeD)

lemma unify_iff:
  assumes "wf_bindings b"
  shows "unify a c b \<noteq> None \<longleftrightarrow> same_shape a c \<and> (\<exists>\<theta>. solution \<theta> b a c)"
proof
  assume "unify a c b \<noteq> None"
  then obtain b' where "unify a c b = Some b'" by auto
  with unify_SomeD [OF this assms] resolution_solves resolution_valuation
  show "same_shape a c \<and> (\<exists>\<theta>. solution \<theta> b a c)" by blast
next
  assume "same_shape a c \<and> (\<exists>\<theta>. solution \<theta> b a c)"
  with unify_args_correct [OF assms, of "term_args (parseTerm a)" "term_args (parseTerm c)"]
  show "unify a c b \<noteq> None"
    by (auto simp: unify_def same_shape_def Let_def split: option.splits)
qed

lemma equates_sym: "equates \<theta> xs ys = equates \<theta> ys xs"
  by (auto simp: equates_def list_all2_conv_all_nth)

lemma equates_refl: "equates \<theta> xs xs"
  by (simp add: equates_def list_all2_refl)


declare unify_args.simps [simp del]

section \<open>Printing and parsing\<close>

text \<open>The notation \<open>substitute\<close> of planner.ts writes: the arguments joined by a comma and a space.\<close>

definition print_term :: "string \<Rightarrow> string list \<Rightarrow> string" where
  "print_term fn as = fn @ ''('' @ join '', '' as @ '')''"

text \<open>A name that survives the parser: not empty, and without white space, comma and parentheses.\<close>

definition plain :: "string \<Rightarrow> bool" where
  "plain s \<longleftrightarrow> s \<noteq> [] \<and> (\<forall>c\<in>set s. \<not> js_space c \<and> c \<noteq> CHR ''('' \<and> c \<noteq> CHR '')'' \<and> c \<noteq> CHR '','')"

lemma plain_trim [simp]: "plain s \<Longrightarrow> trim s = s"
  by (rule trim_id) (auto simp: plain_def)

lemma plain_chars: "plain s \<Longrightarrow> CHR ''('' \<notin> set s \<and> CHR '')'' \<notin> set s \<and> CHR '','' \<notin> set s"
  unfolding plain_def by blast

lemma indexOf_first:
  assumes "c \<notin> set s"
  shows "indexOf c (s @ c # t) = int (length s)"
proof -
  have "takeWhile (\<lambda>d. d \<noteq> c) (s @ c # t) = s"
    using assms by (induction s) auto
  then show ?thesis by (simp add: indexOf_def)
qed

lemma lastIndexOf_last: "lastIndexOf c (s @ [c]) = int (length s)"
  by (simp add: lastIndexOf_def)

lemma slice_prefix: "slice (s @ t) 0 (int (length s)) = s"
  by (simp add: slice_def slice_pos_def)

lemma slice_mid: "slice (s @ m @ t) (int (length s)) (int (length s + length m)) = m"
  by (simp add: slice_def slice_pos_def)

lemma js_space_blank [simp]: "js_space CHR '' ''"
  by (simp add: js_space_def)

lemma join_plain_chars:
  "\<forall>a\<in>set as. plain a \<Longrightarrow> c \<in> set (join '', '' as) \<Longrightarrow>
   c = CHR '','' \<or> c = CHR '' '' \<or> (\<exists>a\<in>set as. c \<in> set a)"
  by (induction "'', ''" as rule: join.induct) auto

lemma join_plain_ends:
  "as \<noteq> [] \<Longrightarrow> \<forall>a\<in>set as. a \<noteq> [] \<Longrightarrow>
   join sep as \<noteq> [] \<and> hd (join sep as) = hd (hd as) \<and> last (join sep as) = last (last as)"
  by (induction sep as rule: join.induct) (simp_all add: hd_append last_append)

lemma join_plain_trim: "\<forall>a\<in>set as. plain a \<Longrightarrow> trim (join '', '' as) = join '', '' as"
proof (rule trim_id, cases "as = []")
  case False
  assume p: "\<forall>a\<in>set as. plain a"
  have "join '', '' as \<noteq> [] \<and> hd (join '', '' as) = hd (hd as) \<and>
        last (join '', '' as) = last (last as)"
    using False p by (intro join_plain_ends) (auto simp: plain_def)
  moreover have "plain (hd as)" "plain (last as)" using False p by auto
  ultimately show "join '', '' as = [] \<or>
     \<not> js_space (hd (join '', '' as)) \<and> \<not> js_space (last (join '', '' as))"
    by (auto simp: plain_def)
qed simp

lemma split_join_plain:
  assumes "as \<noteq> []" "\<forall>a\<in>set as. plain a"
  shows "map trim (split_on CHR '','' (join '', '' as)) = as"
proof -
  have "split_on CHR '','' (join (CHR '','' # '' '') as) = hd as # map (\<lambda>s. '' '' @ s) (tl as)"
    using assms by (intro split_on_join) (auto dest: plain_chars)
  moreover have "map (\<lambda>s. trim (CHR '' '' # s)) (tl as) = tl as"
    using assms by (cases as) (auto intro!: map_idI simp: trim_Cons_space)
  ultimately show ?thesis using assms by (cases as) (auto simp: comp_def)
qed

lemma parse_print_lemma:
  assumes fn: "plain fn" and as: "\<forall>a\<in>set as. plain a"
  shows "parseTerm (print_term fn as) = \<lparr>term_functor = fn, term_args = as\<rparr>"
proof -
  let ?j = "join '', '' as"
  have nonspace: "\<not> js_space CHR '')''" by (simp add: js_space_def)
  have t: "trim (print_term fn as) = fn @ ''('' @ ?j @ '')''"
    unfolding print_term_def by (rule trim_id) (use fn nonspace in \<open>auto simp: plain_def\<close>)
  have i: "indexOf CHR ''('' (fn @ ''('' @ ?j @ '')'') = int (length fn)"
    using indexOf_first [of "CHR ''(''" fn "?j @ '')''"] plain_chars [OF fn] by simp
  have l: "lastIndexOf CHR '')'' (fn @ ''('' @ ?j @ '')'') = int (length (fn @ ''('' @ ?j))"
    using lastIndexOf_last [of "CHR '')''" "fn @ ''('' @ ?j"] by simp
  have fn': "slice (fn @ ''('' @ ?j @ '')'') 0 (int (length fn)) = fn"
    by (rule slice_prefix)
  have inner: "slice (fn @ ''('' @ ?j @ '')'') (int (length fn) + 1) (int (length (fn @ ''('' @ ?j))) = ?j"
    using slice_mid [of "fn @ ''(''" ?j "'')''"] by (simp add: algebra_simps)
  have args: "(if ?j = [] then [] else map trim (split_on CHR '','' ?j)) = as"
  proof (cases "as = []")
    case False
    then have "?j \<noteq> []" using as by (cases "('', '', as)" rule: join.cases) (auto simp: plain_def)
    with False as split_join_plain show ?thesis by simp
  qed simp
  show ?thesis
    unfolding parseTerm_def Let_def t i l fn' inner join_plain_trim [OF as] args
    using fn by simp
qed

section \<open>Properties\<close>

text \<open>C1. Unification is sound and most general: under acyclic bindings, a successful \<open>unify\<close>
  returns acyclic bindings whose solutions are exactly the valuations that solve the given
  bindings and make the two predicates equal (anonymous positions apart).\<close>

theorem unify_most_general:
  "wf_bindings b \<Longrightarrow> unify a c b = Some b' \<Longrightarrow>
   same_shape a c \<and> wf_bindings b' \<and>
   (\<forall>\<theta>. valuation \<theta> \<longrightarrow>
     (solves \<theta> b' \<longleftrightarrow> solves \<theta> b \<and> equates \<theta> (term_args (parseTerm a)) (term_args (parseTerm c))))"
  using unify_SomeD by blast

lemma parse_intent_X: "parseTerm ''intent(X, hoch)'' = \<lparr>term_functor = ''intent'', term_args = [''X'', ''hoch'']\<rparr>"
  by code_simp

lemma parse_intent_M: "parseTerm ''intent(m1, Y)'' = \<lparr>term_functor = ''intent'', term_args = [''m1'', ''Y'']\<rparr>"
  by code_simp

lemma unify_intent:
  "unify ''intent(X, hoch)'' ''intent(m1, Y)'' [] = Some [(''X'', ''m1''), (''Y'', ''hoch'')]"
  by code_simp

theorem unify_most_general_witness:
  "wf_bindings [(''X'', ''m1''), (''Y'', ''hoch'')]"
  using unify_most_general [OF wf_bindings_Nil unify_intent] by blast

text \<open>Unification is complete: it fails only when no valuation whatever solves the bindings
  and equates the two predicates, so a null result is never a missed match.\<close>

theorem unify_decides:
  "wf_bindings b \<Longrightarrow>
   (unify a c b = None) = (\<not> (same_shape a c \<and> (\<exists>\<theta>. valuation \<theta> \<and> solves \<theta> b \<and>
      equates \<theta> (term_args (parseTerm a)) (term_args (parseTerm c)))))"
  using unify_iff [of b a c] by blast

theorem unify_decides_witness:
  "unify ''intent(X, hoch)'' ''intent(m1, niedrig)'' [] = None \<and>
   \<not> (\<exists>\<theta>. valuation \<theta> \<and> solves \<theta> [] \<and>
      equates \<theta> (term_args (parseTerm ''intent(X, hoch)'')) (term_args (parseTerm ''intent(m1, niedrig)'')))"
proof -
  have n: "unify ''intent(X, hoch)'' ''intent(m1, niedrig)'' [] = None" by code_simp
  have s: "same_shape ''intent(X, hoch)'' ''intent(m1, niedrig)''"
    unfolding same_shape_def by code_simp
  show ?thesis
    using unify_decides [of "[]" "''intent(X, hoch)''" "''intent(m1, niedrig)''"] n s by simp
qed

text \<open>The routing relation is symmetric: prover and router may ask it in either direction.\<close>

theorem unifiable_sym: "unifiable a b = unifiable b a"
proof -
  have "same_shape a b = same_shape b a" by (auto simp: same_shape_def)
  then show ?thesis
    unfolding unifiable_def unify_iff [OF wf_bindings_Nil] equates_sym [of _ "term_args (parseTerm a)"]
    by simp
qed

text \<open>Printing then parsing a term is the identity, for a functor and arguments without
  white space, commas and parentheses.\<close>

theorem parse_print:
  "plain fn \<Longrightarrow> \<forall>a\<in>set as. plain a \<Longrightarrow>
   parseTerm (fn @ ''('' @ join '', '' as @ '')'') = \<lparr>term_functor = fn, term_args = as\<rparr>"
  using parse_print_lemma by (simp add: print_term_def)

theorem parse_print_witness:
  "parseTerm (''mail'' @ ''('' @ join '', '' [''M'', ''x1''] @ '')'') =
   \<lparr>term_functor = ''mail'', term_args = [''M'', ''x1'']\<rparr>"
  by (rule parse_print) (simp_all add: plain_def js_space_def)

end
