(* ===== verification/Ids.thy ===== *)
theory Ids
  imports Prelude
begin

text \<open>
  libs/aven-actors/src/ids.ts: globally qualified catalog identities
  \<open>authority:kind:namespace:name@version\<close>, their construction and their parser.
\<close>

datatype ActorResourceKind =
    Kactor | Kcapability | Kfactory | Koffer | Kschema | Kskill | Kpolicy | Kprotocol
  | Kassurance | Kaction | Kentitlement

fun kind_name :: "ActorResourceKind \<Rightarrow> string" where
  "kind_name Kactor = ''actor''"
| "kind_name Kcapability = ''capability''"
| "kind_name Kfactory = ''factory''"
| "kind_name Koffer = ''offer''"
| "kind_name Kschema = ''schema''"
| "kind_name Kskill = ''skill''"
| "kind_name Kpolicy = ''policy''"
| "kind_name Kprotocol = ''protocol''"
| "kind_name Kassurance = ''assurance''"
| "kind_name Kaction = ''action''"
| "kind_name Kentitlement = ''entitlement''"

definition AVEN_ID_AUTHORITY :: string where "AVEN_ID_AUTHORITY = ''id.aven''"
definition AVEN_RUNTIME_AUTHORITY :: string where "AVEN_RUNTIME_AUTHORITY = ''os.aven''"
definition AVEN_CEO_AUTHORITY :: string where "AVEN_CEO_AUTHORITY = ''ceo.aven''"

text \<open>The parts of an identity.  \<open>parseResourceId\<close> casts the kind it reads, so it is a string here.\<close>

record ResourceName =
  authority :: string
  rn_kind :: string
  rn_namespace :: string
  rn_name :: string
  rn_version :: string

definition lower_alnum :: "char \<Rightarrow> bool" where
  "lower_alnum c \<longleftrightarrow> (CHR ''a'' \<le> c \<and> c \<le> CHR ''z'') \<or> (CHR ''0'' \<le> c \<and> c \<le> CHR ''9'')"

definition alnum :: "char \<Rightarrow> bool" where
  "alnum c \<longleftrightarrow> lower_alnum c \<or> (CHR ''A'' \<le> c \<and> c \<le> CHR ''Z'')"

text \<open>The two regular expressions \<open>SEGMENT\<close> and \<open>VERSION\<close>.\<close>

definition is_segment :: "string \<Rightarrow> bool" where
  "is_segment s = (case s of [] \<Rightarrow> False
     | c # cs \<Rightarrow> lower_alnum c \<and> list_all (\<lambda>d. lower_alnum d \<or> d \<in> set ''._-'') cs)"

definition is_version :: "string \<Rightarrow> bool" where
  "is_version s = (case s of [] \<Rightarrow> False
     | c # cs \<Rightarrow> alnum c \<and> list_all (\<lambda>d. alnum d \<or> d \<in> set ''._+-'') cs)"

text \<open>The loop checks the three segments in order and throws at the first bad one.\<close>

definition check_segment :: "string \<times> string \<Rightarrow> unit res" where
  "check_segment lv = throw_if (\<not> is_segment (snd lv))
     (Err (''invalid resource '' @ fst lv @ '': '' @ snd lv))"

definition resourceId :: "ResourceName \<Rightarrow> string res" where
  "resourceId n =
     rbind (each check_segment
        [(''authority'', authority n), (''namespace'', rn_namespace n), (''name'', rn_name n)]) (\<lambda>_.
     rbind (throw_if (\<not> is_version (rn_version n)) (Err (''invalid resource version: '' @ rn_version n))) (\<lambda>_.
     Inr (authority n @ '':'' @ rn_kind n @ '':'' @ rn_namespace n @ '':'' @ rn_name n
          @ ''@'' @ rn_version n)))"

text \<open>One group of the parser's expression: \<open>([^c]+)c\<close>, which can only match up to the first
  separator, so the match needs no backtracking.\<close>

definition until_sep :: "char \<Rightarrow> string \<Rightarrow> (string \<times> string) option" where
  "until_sep c s =
     (let w = takeWhile (\<lambda>d. d \<noteq> c) s
      in if w = [] then None
         else case dropWhile (\<lambda>d. d \<noteq> c) s of [] \<Rightarrow> None | _ # rest \<Rightarrow> Some (w, rest))"

text \<open>\<open>(.+)$\<close>: at least one character, none of them a line terminator.\<close>

definition dot_plus :: "string \<Rightarrow> bool" where
  "dot_plus s \<longleftrightarrow> s \<noteq> [] \<and> list_all (\<lambda>c. of_char c \<notin> {10::nat, 13}) s"

definition parseResourceId :: "string \<Rightarrow> ResourceName res" where
  "parseResourceId i =
     (let bad = Inl (Err (''invalid resource id: '' @ i)) in
      case until_sep CHR '':'' i of None \<Rightarrow> bad
      | Some (a, r1) \<Rightarrow> (case until_sep CHR '':'' r1 of None \<Rightarrow> bad
      | Some (k, r2) \<Rightarrow> (case until_sep CHR '':'' r2 of None \<Rightarrow> bad
      | Some (ns, r3) \<Rightarrow> (case until_sep CHR ''@'' r3 of None \<Rightarrow> bad
      | Some (n, v) \<Rightarrow> if dot_plus v
          then Inr \<lparr>authority = a, rn_kind = k, rn_namespace = ns, rn_name = n, rn_version = v\<rparr>
          else bad))))"

section \<open>Lemmas\<close>

lemma until_sep_append:
  assumes "w \<noteq> []" "c \<notin> set w"
  shows "until_sep c (w @ c # rest) = Some (w, rest)"
proof -
  have "takeWhile (\<lambda>d. d \<noteq> c) (w @ c # rest) = w" "dropWhile (\<lambda>d. d \<noteq> c) (w @ c # rest) = c # rest"
    using assms(2) by (induction w) auto
  with assms(1) show ?thesis by (simp add: until_sep_def)
qed

lemma segment_no_sep: "is_segment s \<Longrightarrow> s \<noteq> [] \<and> CHR '':'' \<notin> set s \<and> CHR ''@'' \<notin> set s"
  by (auto simp: is_segment_def list_all_iff lower_alnum_def split: list.splits)

lemma kind_no_sep: "kind_name k \<noteq> [] \<and> CHR '':'' \<notin> set (kind_name k)"
  by (cases k) auto

lemma version_dot_plus: "is_version s \<Longrightarrow> dot_plus s"
  by (auto simp: is_version_def dot_plus_def alnum_def lower_alnum_def list_all_iff
      less_eq_char_def split: list.splits)

lemma resourceId_Inr: "resourceId n = Inr i \<longleftrightarrow>
  is_segment (authority n) \<and> is_segment (rn_namespace n) \<and> is_segment (rn_name n) \<and>
  is_version (rn_version n) \<and>
  i = authority n @ '':'' @ rn_kind n @ '':'' @ rn_namespace n @ '':'' @ rn_name n @ ''@'' @ rn_version n"
  by (auto simp: resourceId_def check_segment_def)

lemma parse_resourceId:
  assumes "resourceId n = Inr i" "rn_kind n = kind_name k"
  shows "parseResourceId i = Inr n"
proof -
  from assms(1) have n: "is_segment (authority n)" "is_segment (rn_namespace n)" "is_segment (rn_name n)"
      "is_version (rn_version n)"
    and i: "i = authority n @ CHR '':'' # kind_name k @ CHR '':'' # rn_namespace n @ CHR '':'' #
          rn_name n @ CHR ''@'' # rn_version n"
    by (auto simp: resourceId_Inr assms(2))
  show ?thesis
    unfolding parseResourceId_def i
    using n(4) [THEN version_dot_plus] kind_no_sep [of k] assms(2)
      segment_no_sep [OF n(1)] segment_no_sep [OF n(2)] segment_no_sep [OF n(3)]
    by (simp add: until_sep_append)
qed

text \<open>C5. Round trip of catalog identities: whatever \<open>resourceId\<close> constructs, \<open>parseResourceId\<close> reads
  back, for every resource kind.\<close>

theorem resourceId_roundtrip:
  "resourceId n = Inr i \<Longrightarrow> rn_kind n = kind_name k \<Longrightarrow> parseResourceId i = Inr n"
  by (rule parse_resourceId)

definition ocr_name :: ResourceName where
  "ocr_name = \<lparr>authority = ''ceo.aven'', rn_kind = ''capability'', rn_namespace = ''docs.ocr'',
     rn_name = ''extract'', rn_version = ''2''\<rparr>"

lemma ocr_id: "resourceId ocr_name = Inr ''ceo.aven:capability:docs.ocr:extract@2''"
  by (simp add: resourceId_def check_segment_def ocr_name_def is_segment_def is_version_def
      lower_alnum_def alnum_def)

theorem resourceId_roundtrip_witness:
  "parseResourceId ''ceo.aven:capability:docs.ocr:extract@2'' = Inr ocr_name"
  by (rule resourceId_roundtrip [OF ocr_id, of Kcapability]) (simp add: ocr_name_def)

text \<open>Distinct names of one kind have distinct identities, so a catalog keyed by identity never
  merges two resources.\<close>

theorem resourceId_injective:
  "resourceId m = Inr i \<Longrightarrow> resourceId n = Inr j \<Longrightarrow> rn_kind m = kind_name k \<Longrightarrow> rn_kind n = kind_name l \<Longrightarrow>
   m \<noteq> n \<Longrightarrow> i \<noteq> j"
  using parse_resourceId by (metis sum.inject(2))

lemma ocr_id_3: "resourceId (ocr_name\<lparr>rn_version := ''3''\<rparr>) = Inr ''ceo.aven:capability:docs.ocr:extract@3''"
  by (simp add: resourceId_def check_segment_def ocr_name_def is_segment_def is_version_def
      lower_alnum_def alnum_def)

theorem resourceId_injective_witness:
  "''ceo.aven:capability:docs.ocr:extract@2'' \<noteq> ''ceo.aven:capability:docs.ocr:extract@3''"
  by (rule resourceId_injective [OF ocr_id ocr_id_3, of Kcapability Kcapability])
    (simp_all add: ocr_name_def)

end
