(* ===== verification/Contracts.thy ===== *)
theory Contracts
  imports Terms Ids JsValue
begin

text \<open>
  libs/aven-actors/src/actor.ts, the declarative half: predicates, method specifications and
  manifests, and the merge law that derives a composite's interface from its members.
\<close>

type_synonym Predicate = string

text \<open>\<open>mail(M)\<close> becomes \<open>mail\<close>.\<close>

definition functor_of :: "Predicate \<Rightarrow> string" where
  "functor_of p = (let at = indexOf CHR ''('' p in trim (if at = -1 then p else slice p 0 at))"

record iface =
  if_requires :: "Predicate list"
  if_produces :: "Predicate list"

definition compositeInterface :: "iface list \<Rightarrow> iface" where
  "compositeInterface members =
     (let produced = concat (map if_produces members);
          required = concat (map if_requires members)
      in \<lparr>if_requires = uniq (filter (\<lambda>r. \<not> list_ex (\<lambda>p. unifiable p r) produced) required),
          if_produces = uniq produced\<rparr>)"

datatype method_mode = Transform | Observe | Effect | Stream | View
datatype idempotency = Pure | Idempotent | Reconcilable | NotIdempotent
datatype cardinality = One | Optional | Many

record CapabilitySlot =
  slot_name :: string
  slot_predicate :: Predicate
  slot_schema :: "string option"
  slot_role :: "string option"
  slot_cardinality :: cardinality
  slot_sensitive :: "bool option"

record MethodSpec =
  ms_name :: string
  ms_description :: string
  ms_parameters :: json_record
  ms_mode :: "method_mode option"
  ms_idempotency :: "idempotency option"
  ms_cost :: "int option"
  ms_requires :: "Predicate list option"
  ms_produces :: "Predicate list option"
  ms_inputSlots :: "CapabilitySlot list option"
  ms_outputSlots :: "CapabilitySlot list option"
  ms_event :: "string option"  \<comment> \<open>the \<open>send\<close> of the declared event\<close>
  ms_hitl :: "string option"

record LlmSettings =
  llm_model :: "string option"
  llm_temperature :: "int option"

text \<open>The \<open>llm\<close> member of a manifest: absent, a flag, or settings.\<close>

datatype llm_decl = NoLlm | LlmFlag bool | LlmWith LlmSettings

record Manifest =
  m_id :: string
  m_authority :: string
  m_namespace :: string
  m_version :: string
  m_name :: string
  m_description :: string
  m_tags :: "string list"
  m_methods :: "MethodSpec list"
  m_requires :: "Predicate list option"
  m_produces :: "Predicate list option"
  m_llm :: llm_decl
  m_capabilities :: "string list option"
  m_machine :: "string option"
  m_logic :: "string option"
  m_source :: "json_record option"

definition llmSettings :: "Manifest \<Rightarrow> LlmSettings option" where
  "llmSettings m =
     (case m_llm m of
        LlmFlag True \<Rightarrow> Some \<lparr>llm_model = None, llm_temperature = None\<rparr>
      | LlmWith s \<Rightarrow> Some s
      | _ \<Rightarrow> None)"

text \<open>The values of \<open>a ?? b\<close> and \<open>a ?? []\<close>.\<close>

fun orelse :: "'a option \<Rightarrow> 'a \<Rightarrow> 'a" where
  "orelse (Some x) _ = x"
| "orelse None d = d"

text \<open>What a handler gives back: a record and prose.\<close>

record HandlerResult =
  hr_record :: string
  hr_wire :: string

section \<open>The merge law\<close>

definition uniq_step :: "'a list \<Rightarrow> 'a \<Rightarrow> 'a list" where
  "uniq_step acc x = (if x \<in> set acc then acc else acc @ [x])"

lemma uniq_fold: "uniq xs = foldl uniq_step [] xs"
  by (simp add: uniq_def uniq_step_def [abs_def])

lemma fold_uniq_filter:
  "foldl uniq_step (filter P acc) (filter P xs) = filter P (foldl uniq_step acc xs)"
proof (induction xs arbitrary: acc)
  case (Cons x xs)
  have "foldl uniq_step (filter P acc) (filter P (x # xs)) =
        foldl uniq_step (filter P (uniq_step acc x)) (filter P xs)"
    by (simp add: uniq_step_def)
  with Cons show ?case by simp
qed simp

lemma uniq_filter: "uniq (filter P xs) = filter P (uniq xs)"
  using fold_uniq_filter [of P "[]" xs] by (simp add: uniq_fold)

lemma fold_uniq_distinct: "distinct (acc @ xs) \<Longrightarrow> foldl uniq_step acc xs = acc @ xs"
  by (induction xs arbitrary: acc) (auto simp: uniq_step_def)

lemma uniq_append_uniq: "uniq (uniq xs @ ys) = uniq (xs @ ys)"
  using fold_uniq_distinct [of "[]" "uniq xs"] distinct_uniq [of xs] by (simp add: uniq_fold)

lemma composite_requires_iff:
  "r \<in> set (if_requires (compositeInterface ms)) \<longleftrightarrow>
   (\<exists>m\<in>set ms. r \<in> set (if_requires m)) \<and>
   \<not> (\<exists>m\<in>set ms. \<exists>p\<in>set (if_produces m). unifiable p r)"
  by (auto simp: compositeInterface_def Let_def list_ex_iff)

text \<open>Composites nest: replacing some leading members by the composite they form leaves the derived
  interface unchanged, so an interface can be computed group by group.\<close>

theorem composite_nests:
  "compositeInterface (compositeInterface ms # ns) = compositeInterface (ms @ ns)"
proof -
  let ?P1 = "concat (map if_produces ms)" and ?P2 = "concat (map if_produces ns)"
  let ?R1 = "concat (map if_requires ms)" and ?R2 = "concat (map if_requires ns)"
  let ?free = "\<lambda>P r. \<not> list_ex (\<lambda>p. unifiable p r) P"
  have eq: "?free (uniq ?P1 @ ?P2) = ?free (?P1 @ ?P2)"
    by (simp add: fun_eq_iff list_ex_iff)
  have sub: "filter (?free (?P1 @ ?P2)) (filter (?free ?P1) ?R1) = filter (?free (?P1 @ ?P2)) ?R1"
    unfolding filter_filter by (rule filter_cong) auto
  have "uniq (filter (?free (uniq ?P1 @ ?P2)) (uniq (filter (?free ?P1) ?R1) @ ?R2)) =
      uniq (filter (?free (?P1 @ ?P2)) (?R1 @ ?R2))"
    unfolding eq filter_append uniq_filter [symmetric] uniq_append_uniq sub ..
  then show ?thesis
    by (simp add: compositeInterface_def Let_def uniq_append_uniq)
qed

end
