(* ===== verification/Planner.thy ===== *)
theory Planner
  imports Contracts
begin

text \<open>
  libs/aven-actors/src/planner.ts, the definitions: capabilities compiled from manifests, the
  requirement matcher, the uniform-cost search \<open>solve\<close>, and the saturating \<open>planEnrichment\<close>.
  Costs are integers, as every declared cost of the repository is; limits are natural numbers.
  \<open>ck\<close> is the collation of \<open>localeCompare\<close>.
\<close>

section \<open>Data\<close>

record Ingredient =
  in_predicate :: Predicate
  in_artifactId :: "string option"

record Capability =
  c_id :: string
  c_actor :: string
  c_method :: string
  c_requires :: "Predicate list"
  c_produces :: "Predicate list"
  c_cost :: "int option"
  c_available :: "bool option"
  c_mode :: "method_mode option"
  c_idempotency :: "idempotency option"
  c_parametersSchema :: "json_record option"
  c_inputSlots :: "CapabilitySlot list option"
  c_outputSlots :: "CapabilitySlot list option"

text \<open>\<open>flatMap\<close> over methods and manifests; building an identity may throw.\<close>

definition method_capability ::
  "string \<Rightarrow> string \<Rightarrow> string \<Rightarrow> string \<Rightarrow> Predicate list \<Rightarrow> Predicate list \<Rightarrow> MethodSpec \<Rightarrow> Capability list res" where
  "method_capability auth ns aid version actorRequires actorProduces method =
     (let requires = orelse (ms_requires method) actorRequires;
          produces = orelse (ms_produces method) actorProduces
      in if produces = [] then Inr []
         else
           rbind (resourceId \<lparr>authority = auth, rn_kind = ''capability'', rn_namespace = ns @ ''.'' @ aid,
                    rn_name = ms_name method, rn_version = version\<rparr>) (\<lambda>cid.
           rbind (resourceId \<lparr>authority = auth, rn_kind = ''actor'', rn_namespace = ns,
                    rn_name = aid, rn_version = version\<rparr>) (\<lambda>actor.
           Inr [\<lparr>c_id = cid, c_actor = actor, c_method = ms_name method,
                 c_requires = requires, c_produces = produces,
                 c_cost = ms_cost method, c_available = None,
                 c_mode = Some (orelse (ms_mode method) Transform),
                 c_idempotency = Some (orelse (ms_idempotency method) NotIdempotent),
                 c_parametersSchema = Some (ms_parameters method),
                 c_inputSlots = ms_inputSlots method, c_outputSlots = ms_outputSlots method\<rparr>])))"

definition manifest_capabilities :: "Manifest \<Rightarrow> Capability list res" where
  "manifest_capabilities m =
     rbind (traverse (method_capability (m_authority m) (m_namespace m) (m_id m) (m_version m)
              (orelse (m_requires m) []) (orelse (m_produces m) [])) (m_methods m)) (\<lambda>css. Inr (concat css))"

definition capabilitiesFromManifests :: "Manifest list \<Rightarrow> Capability list res" where
  "capabilitiesFromManifests manifests =
     rbind (traverse manifest_capabilities manifests) (\<lambda>css. Inr (concat css))"

datatype plan_source =
    FromIngredient "string option"
  | FromStep string nat

record PlanValue =
  pv_predicate :: Predicate
  pv_source :: plan_source

record PlanStep =
  ps_id :: string
  ps_capability :: string
  ps_actor :: string
  ps_method :: string
  ps_inputs :: "PlanValue list"
  ps_outputs :: "PlanValue list"
  ps_dependsOn :: "string list"
  ps_cost :: int

record AdHocProgram =
  ap_goals :: "Predicate list"
  ap_steps :: "PlanStep list"
  ap_totalCost :: int
  ap_results :: "PlanValue list"

datatype SolveResult =
    SolveOk AdHocProgram nat
  | SolveFail "Predicate list" nat string

record SolveOptions =
  maxSteps :: "nat option"
  maxStates :: "nat option"

record EnrichmentOptions =
  factFamilies :: "string list"
  enr_maxSteps :: "nat option"

datatype EnrichmentPlanResult =
    EnrichOk AdHocProgram nat
  | EnrichFail string nat

datatype GoalThenEnrichmentPlanResult =
    GoalEnrichOk AdHocProgram nat nat
  | GoalEnrichFail string nat nat

record SearchState =
  st_facts :: "PlanValue list"
  st_steps :: "PlanStep list"
  st_cost :: int

record RequirementMatch =
  rm_bindings :: bindings
  rm_inputs :: "PlanValue list"

definition DEFAULT_MAX_STEPS :: nat where "DEFAULT_MAX_STEPS = 24"
definition DEFAULT_MAX_STATES :: nat where "DEFAULT_MAX_STATES = 2000"
definition DEFAULT_MAX_ENRICHMENT_STEPS :: nat where "DEFAULT_MAX_ENRICHMENT_STEPS = 512"

section \<open>Matching requirements\<close>

record match_limits =
  maxAttempts :: "nat option"
  maxMatches :: "nat option"

definition no_limits :: match_limits where
  "no_limits = \<lparr>maxAttempts = None, maxMatches = None\<rparr>"

text \<open>The variables the inner function \<open>visit\<close> closes over.\<close>

record match_state =
  matches :: "RequirementMatch list"
  attempts :: nat

definition enough_matches :: "match_limits \<Rightarrow> match_state \<Rightarrow> bool" where
  "enough_matches L s = (case maxMatches L of None \<Rightarrow> False | Some n \<Rightarrow> n \<le> length (matches s))"

definition too_many_attempts :: "match_limits \<Rightarrow> nat \<Rightarrow> bool" where
  "too_many_attempts L n = (case maxAttempts L of None \<Rightarrow> False | Some k \<Rightarrow> k < n)"

text \<open>\<open>visit\<close> on the remaining requirements, each with its candidates; \<open>try_facts\<close> is its loop.\<close>

function visit :: "match_limits \<Rightarrow> (Predicate \<times> PlanValue list) list \<Rightarrow> bindings \<Rightarrow> PlanValue list \<Rightarrow>
    match_state \<Rightarrow> match_state res"
  and try_facts :: "match_limits \<Rightarrow> Predicate \<Rightarrow> (Predicate \<times> PlanValue list) list \<Rightarrow> bindings \<Rightarrow>
    PlanValue list \<Rightarrow> PlanValue list \<Rightarrow> match_state \<Rightarrow> match_state res" where
  "visit L rest b ins s =
     (if enough_matches L s then Inr s
      else case rest of
        [] \<Rightarrow> Inr (s\<lparr>matches := matches s @ [\<lparr>rm_bindings = b, rm_inputs = ins\<rparr>]\<rparr>)
      | (requirement, candidates) # rest' \<Rightarrow> try_facts L requirement rest' b ins candidates s)"
| "try_facts L requirement rest b ins [] s = Inr s"
| "try_facts L requirement rest b ins (candidate # facts) s =
     (if enough_matches L s then Inr s
      else
        let s1 = s\<lparr>attempts := attempts s + 1\<rparr>
        in if too_many_attempts L (attempts s1) then Inl SearchLimit
           else rbind (case unify requirement (pv_predicate candidate) b of
                   None \<Rightarrow> Inr s1
                 | Some nxt \<Rightarrow> visit L rest nxt (ins @ [candidate]) s1)
               (\<lambda>s2. try_facts L requirement rest b ins facts s2))"
  by pat_completeness auto
termination
  by (relation "measures [\<lambda>x. case x of Inl (_, rest, _) \<Rightarrow> 2 * length rest
                               | Inr (_, _, rest, _) \<Rightarrow> 2 * length rest + 1,
                          \<lambda>x. case x of Inl _ \<Rightarrow> 0 | Inr (_, _, _, _, _, facts, _) \<Rightarrow> length facts]")
    auto

declare visit.simps [simp del]

definition candidates_for :: "PlanValue list \<Rightarrow> Predicate \<Rightarrow> PlanValue list" where
  "candidates_for facts requirement =
     (let t = parseTerm requirement in
      filter (\<lambda>v. let other = parseTerm (pv_predicate v) in
        term_functor other = term_functor t \<and> length (term_args other) = length (term_args t)) facts)"

definition matchRequirements ::
  "match_limits \<Rightarrow> Predicate list \<Rightarrow> PlanValue list \<Rightarrow> RequirementMatch list res" where
  "matchRequirements L requirements facts =
     (if requirements = [] then Inr [\<lparr>rm_bindings = [], rm_inputs = []\<rparr>]
      else rbind (visit L (map (\<lambda>r. (r, candidates_for facts r)) requirements) [] []
                    \<lparr>matches = [], attempts = 0\<rparr>) (\<lambda>s. Inr (matches s)))"

text \<open>The call without options, which cannot throw (\<open>matchRequirements_unlimited\<close>).\<close>

definition matches_of :: "Predicate list \<Rightarrow> PlanValue list \<Rightarrow> RequirementMatch list" where
  "matches_of requirements facts =
     (case matchRequirements no_limits requirements facts of Inr ms \<Rightarrow> ms | Inl _ \<Rightarrow> [])"

definition substitute :: "Predicate \<Rightarrow> bindings \<Rightarrow> Predicate" where
  "substitute predicate b =
     (let t = parseTerm predicate in
      if CHR ''('' \<notin> set predicate then term_functor t
      else print_term (term_functor t) (map (\<lambda>arg. resolve arg b) (term_args t)))"

definition resolveGoals :: "Predicate list \<Rightarrow> PlanValue list \<Rightarrow> PlanValue list option" where
  "resolveGoals goals facts =
     (case matches_of goals facts of [] \<Rightarrow> None | m # _ \<Rightarrow> Some (rm_inputs m))"

section \<open>Search\<close>

definition stateKey :: "SearchState \<Rightarrow> string" where
  "stateKey s = join ''|'' (sort (map pv_predicate (st_facts s)))"

definition compareStates :: "collation \<Rightarrow> SearchState \<Rightarrow> SearchState \<Rightarrow> int" where
  "compareStates ck a b =
     or_else (st_cost a - st_cost b)
       (or_else (int (length (st_steps a)) - int (length (st_steps b)))
         (localeCompare ck (stateKey a) (stateKey b)))"

definition by_id :: "collation \<Rightarrow> Capability \<Rightarrow> Capability \<Rightarrow> int" where
  "by_id ck a b = localeCompare ck (c_id a) (c_id b)"

text \<open>\<open>artifactId && \{ artifactId \}\<close>: the empty string is dropped.\<close>

definition truthy :: "string option \<Rightarrow> string option" where
  "truthy s = (case s of Some t \<Rightarrow> if t = [] then None else Some t | None \<Rightarrow> None)"

definition ingredient_value :: "Ingredient \<Rightarrow> PlanValue" where
  "ingredient_value i =
     \<lparr>pv_predicate = in_predicate i, pv_source = FromIngredient (truthy (in_artifactId i))\<rparr>"

definition step_name :: "nat \<Rightarrow> string" where
  "step_name n = ''step-'' @ string_of_nat n"

definition step_outputs :: "string \<Rightarrow> Predicate list \<Rightarrow> PlanValue list" where
  "step_outputs sid ps =
     map (\<lambda>(i, p). \<lparr>pv_predicate = p, pv_source = FromStep sid i\<rparr>) (enumerate 0 ps)"

definition depends_on :: "PlanValue list \<Rightarrow> string list" where
  "depends_on ins =
     uniq (concat (map (\<lambda>i. case pv_source i of FromStep sid _ \<Rightarrow> [sid] | FromIngredient _ \<Rightarrow> []) ins))"

definition plan_step :: "Capability \<Rightarrow> string \<Rightarrow> RequirementMatch \<Rightarrow> PlanStep" where
  "plan_step cap sid m =
     \<lparr>ps_id = sid, ps_capability = c_id cap, ps_actor = c_actor cap, ps_method = c_method cap,
      ps_inputs = rm_inputs m,
      ps_outputs = step_outputs sid (map (\<lambda>p. substitute p (rm_bindings m)) (c_produces cap)),
      ps_dependsOn = depends_on (rm_inputs m),
      ps_cost = orelse (c_cost cap) 1\<rparr>"

text \<open>The body of the two inner loops: the states one match of one capability pushes.\<close>

definition push_match :: "SearchState \<Rightarrow> Capability \<Rightarrow> RequirementMatch \<Rightarrow> SearchState list" where
  "push_match s cap m =
     (let outputPredicates = map (\<lambda>p. substitute p (rm_bindings m)) (c_produces cap) in
      if list_all (\<lambda>p. list_ex (\<lambda>f. unifiable (pv_predicate f) p) (st_facts s)) outputPredicates
      then []
      else
        let sid = step_name (length (st_steps s) + 1);
            step = plan_step cap sid m
        in [\<lparr>st_facts = st_facts s @ ps_outputs step, st_steps = st_steps s @ [step],
             st_cost = st_cost s + ps_cost step\<rparr>])"

definition successors :: "collation \<Rightarrow> Capability list \<Rightarrow> SearchState \<Rightarrow> SearchState list" where
  "successors ck capabilities s =
     concat (map (\<lambda>cap. if c_available cap = Some False then []
                        else concat (map (push_match s cap) (matches_of (c_requires cap) (st_facts s))))
       (sort_by (by_id ck) capabilities))"

datatype search_outcome =
    Found SearchState "PlanValue list" nat
  | Exhausted nat

function solve_loop :: "collation \<Rightarrow> Capability list \<Rightarrow> Predicate list \<Rightarrow> nat \<Rightarrow> nat \<Rightarrow>
    SearchState list \<Rightarrow> (string, int) jsmap \<Rightarrow> nat \<Rightarrow> search_outcome" where
  "solve_loop ck capabilities goals maxSt maxQ queue best explored =
     (if queue = [] \<or> maxQ \<le> explored then Exhausted explored
      else case sort_by (compareStates ck) queue of
        [] \<Rightarrow> Exhausted explored
      | state # rest \<Rightarrow>
          (let key = stateKey state in
           if (case map_of best key of None \<Rightarrow> False | Some c \<Rightarrow> c \<le> st_cost state)
           then solve_loop ck capabilities goals maxSt maxQ rest best explored
           else
             let best' = AList.update key (st_cost state) best; explored' = explored + 1 in
             (case resolveGoals goals (st_facts state) of
                Some results \<Rightarrow> Found state results explored'
              | None \<Rightarrow>
                  if maxSt \<le> length (st_steps state)
                  then solve_loop ck capabilities goals maxSt maxQ rest best' explored'
                  else solve_loop ck capabilities goals maxSt maxQ
                         (rest @ successors ck capabilities state) best' explored')))"
  by pat_completeness auto
termination
proof (relation "measures [\<lambda>(_, _, _, _, maxQ, _, _, explored). maxQ - explored,
                           \<lambda>(_, _, _, _, _, queue, _, _). length queue]", goal_cases)
  case (2 ck capabilities goals maxSt maxQ queue best explored state rest)
  then have "length queue = Suc (length rest)" by (metis length_Cons length_sort_by)
  then show ?case by simp
qed auto

declare solve_loop.simps [simp del]

text \<open>The reachability pass that names the unmet goals of a failed search.\<close>

definition closure_add :: "string \<Rightarrow> PlanValue list \<times> bool \<Rightarrow> Predicate \<Rightarrow> PlanValue list \<times> bool" where
  "closure_add cid acc p =
     (if list_ex (\<lambda>f. unifiable (pv_predicate f) p) (fst acc) then acc
      else (fst acc @ [\<lparr>pv_predicate = p, pv_source = FromStep (''closure-'' @ cid) 0\<rparr>], True))"

definition closure_capability :: "PlanValue list \<times> bool \<Rightarrow> Capability \<Rightarrow> PlanValue list \<times> bool" where
  "closure_capability acc cap =
     (if c_available cap = Some False then acc
      else case matches_of (c_requires cap) (fst acc) of
        [] \<Rightarrow> acc
      | m # _ \<Rightarrow> foldl (closure_add (c_id cap)) acc
                   (map (\<lambda>p. substitute p (rm_bindings m)) (c_produces cap)))"

fun closure_passes :: "Capability list \<Rightarrow> nat \<Rightarrow> PlanValue list \<Rightarrow> PlanValue list" where
  "closure_passes capabilities 0 facts = facts"
| "closure_passes capabilities (Suc n) facts =
     (let (facts', changed) = foldl closure_capability (facts, False) capabilities
      in if changed then closure_passes capabilities n facts' else facts')"

definition solve :: "collation \<Rightarrow> Capability list \<Rightarrow> Ingredient list \<Rightarrow> Predicate list \<Rightarrow> SolveOptions \<Rightarrow> SolveResult" where
  "solve ck capabilities ingredients goals options =
     (let maxSt = orelse (maxSteps options) DEFAULT_MAX_STEPS;
          maxQ = orelse (maxStates options) DEFAULT_MAX_STATES;
          start = \<lparr>st_facts = map ingredient_value ingredients, st_steps = [], st_cost = 0\<rparr>
      in case solve_loop ck capabilities goals maxSt maxQ [start] [] 0 of
           Found state results exploredStates \<Rightarrow>
             SolveOk \<lparr>ap_goals = goals, ap_steps = st_steps state, ap_totalCost = st_cost state,
                      ap_results = results\<rparr> exploredStates
         | Exhausted exploredStates \<Rightarrow>
             (let reachable = closure_passes capabilities maxSt (st_facts start);
                  unmetGoals = filter (\<lambda>goal. \<not> list_ex (\<lambda>f. unifiable goal (pv_predicate f)) reachable) goals
              in SolveFail unmetGoals exploredStates
                   (if maxQ \<le> exploredStates
                    then ''search limit reached after '' @ string_of_nat maxQ @ '' states''
                    else ''no program produces: '' @ join '', '' unmetGoals)))"

section \<open>Enrichment\<close>

definition belongsToFactFamilies :: "Predicate \<Rightarrow> string list \<Rightarrow> bool" where
  "belongsToFactFamilies predicate families =
     (let name = functor_of predicate in
      list_ex (\<lambda>family. name = family \<or> startsWith (family @ ''.'') name) families)"

definition NUL :: string where "NUL = [char_of (0 :: nat)]"

definition planValueKey :: "PlanValue \<Rightarrow> string" where
  "planValueKey v =
     (case pv_source v of
        FromStep sid output \<Rightarrow> pv_predicate v @ NUL @ ''step:'' @ sid @ '':'' @ string_of_nat output
      | FromIngredient a \<Rightarrow> pv_predicate v @ NUL @ ''ingredient:'' @ orelse a [])"

definition invocation_key :: "string \<Rightarrow> PlanValue list \<Rightarrow> string" where
  "invocation_key cid ins = cid @ NUL @ join NUL (map planValueKey ins)"

text \<open>
  \<open>hasCapabilityInAncestry\<close> is a depth-first search whose \<open>visited\<close> set is shared by all branches and
  whose \<open>some\<close> stops at the first success; here the pending siblings are an explicit stack.
\<close>

function ancestry_search :: "string \<Rightarrow> PlanStep list \<Rightarrow> PlanValue list \<Rightarrow> string set \<Rightarrow> bool" where
  "ancestry_search capabilityId steps [] visited = False"
| "ancestry_search capabilityId steps (value # stack) visited =
     (case pv_source value of
        FromIngredient _ \<Rightarrow> ancestry_search capabilityId steps stack visited
      | FromStep sid _ \<Rightarrow>
          if sid \<in> visited then ancestry_search capabilityId steps stack visited
          else (case find (\<lambda>candidate. ps_id candidate = sid) steps of
                  None \<Rightarrow> ancestry_search capabilityId steps stack (insert sid visited)
                | Some step \<Rightarrow>
                    if ps_capability step = capabilityId then True
                    else ancestry_search capabilityId steps (ps_inputs step @ stack) (insert sid visited)))"
  by pat_completeness auto
termination
proof (relation "measures [\<lambda>(_, steps, _, visited). card (ps_id ` set steps - visited),
                           \<lambda>(_, _, stack, _). length stack]", goal_cases)
  case (4 capabilityId steps "value" stack visited sid n)
  have "card (ps_id ` set steps - insert sid visited) \<le> card (ps_id ` set steps - visited)"
    by (rule card_mono) auto
  then show ?case by auto
next
  case (5 capabilityId steps "value" stack visited sid n step)
  then have "ps_id ` set steps - insert sid visited \<subset> ps_id ` set steps - visited"
    by (auto simp: find_Some_iff)
  then show ?case by (simp add: psubset_card_mono)
qed auto

definition hasCapabilityInAncestry :: "PlanValue \<Rightarrow> string \<Rightarrow> PlanStep list \<Rightarrow> bool" where
  "hasCapabilityInAncestry value capabilityId steps = ancestry_search capabilityId steps [value] {}"

record enrich_state =
  e_steps :: "PlanStep list"
  e_facts :: "PlanValue list"
  e_invoked :: "string list"
  e_changed :: bool

text \<open>A failed run returns its reason and the number of invocations.\<close>

fun enrich_matches :: "nat \<Rightarrow> Capability \<Rightarrow> RequirementMatch list \<Rightarrow> enrich_state \<Rightarrow> (string \<times> nat) + enrich_state" where
  "enrich_matches maxSt cap [] s = Inr s"
| "enrich_matches maxSt cap (m # ms) s =
     (if list_ex (\<lambda>input. hasCapabilityInAncestry input (c_id cap) (e_steps s)) (rm_inputs m)
      then enrich_matches maxSt cap ms s
      else
        let invocation = invocation_key (c_id cap) (rm_inputs m) in
        if invocation \<in> set (e_invoked s) then enrich_matches maxSt cap ms s
        else if maxSt \<le> length (e_steps s)
        then Inl (''enrichment safety limit reached after '' @ string_of_nat maxSt @ '' steps'', length (e_invoked s))
        else
          let step = plan_step cap (step_name (length (e_steps s) + 1)) m in
          enrich_matches maxSt cap ms
            \<lparr>e_steps = e_steps s @ [step], e_facts = e_facts s @ ps_outputs step,
             e_invoked = e_invoked s @ [invocation], e_changed = True\<rparr>)"

fun enrich_pass :: "nat \<Rightarrow> Capability list \<Rightarrow> enrich_state \<Rightarrow> (string \<times> nat) + enrich_state" where
  "enrich_pass maxSt [] s = Inr s"
| "enrich_pass maxSt (cap # caps) s =
     (case enrich_matches maxSt cap (matches_of (c_requires cap) (e_facts s)) s of
        Inl e \<Rightarrow> Inl e
      | Inr s' \<Rightarrow> enrich_pass maxSt caps s')"

lemma enrich_matches_grows:
  "enrich_matches maxSt cap ms s = Inr s' \<Longrightarrow>
   (s' = s \<or> e_changed s' \<and> length (e_steps s) < length (e_steps s') \<and> length (e_steps s') \<le> maxSt)"
proof (induction maxSt cap ms s rule: enrich_matches.induct)
  case (2 maxSt cap m ms s)
  then show ?case by (fastforce simp: Let_def split: if_splits)
qed simp

lemma enrich_pass_grows:
  "enrich_pass maxSt caps s = Inr s' \<Longrightarrow>
   (s' = s \<or> e_changed s' \<and> length (e_steps s) < length (e_steps s') \<and> length (e_steps s') \<le> maxSt)"
proof (induction maxSt caps s rule: enrich_pass.induct)
  case (2 maxSt cap caps s)
  then show ?case by (fastforce split: sum.splits dest: enrich_matches_grows)
qed simp

text \<open>\<open>for (;;)\<close>: every pass that changes something adds a step, up to the limit.\<close>

function enrich_loop :: "nat \<Rightarrow> Capability list \<Rightarrow> enrich_state \<Rightarrow> (string \<times> nat) + enrich_state" where
  "enrich_loop maxSt eligible s =
     (case enrich_pass maxSt eligible (s\<lparr>e_changed := False\<rparr>) of
        Inl e \<Rightarrow> Inl e
      | Inr s' \<Rightarrow> if e_changed s' then enrich_loop maxSt eligible s' else Inr s')"
  by pat_completeness auto
termination
  by (relation "measure (\<lambda>(maxSt, _, s). maxSt - length (e_steps s))")
    (auto dest!: enrich_pass_grows)

declare enrich_loop.simps [simp del]

definition eligible_for_enrichment :: "string list \<Rightarrow> Capability \<Rightarrow> bool" where
  "eligible_for_enrichment families cap \<longleftrightarrow>
     c_available cap \<noteq> Some False \<and>
     c_mode cap \<in> {None, Some Observe, Some Transform} \<and>
     list_ex (\<lambda>p. belongsToFactFamilies p families) (c_produces cap)"

definition expandEnrichment :: "collation \<Rightarrow> Capability list \<Rightarrow> PlanValue list \<Rightarrow> PlanStep list \<Rightarrow>
    EnrichmentOptions \<Rightarrow> Predicate list \<Rightarrow> EnrichmentPlanResult" where
  "expandEnrichment ck capabilities facts initialSteps options goals =
     (let maxSt = orelse (enr_maxSteps options) DEFAULT_MAX_ENRICHMENT_STEPS;
          invoked = uniq (map (\<lambda>step. invocation_key (ps_capability step) (ps_inputs step)) initialSteps);
          eligible = sort_by (by_id ck) (filter (eligible_for_enrichment (factFamilies options)) capabilities)
      in case enrich_loop maxSt eligible
             \<lparr>e_steps = initialSteps, e_facts = facts, e_invoked = invoked, e_changed = False\<rparr> of
           Inl (reason, n) \<Rightarrow> EnrichFail reason n
         | Inr s \<Rightarrow> EnrichOk
             \<lparr>ap_goals = goals, ap_steps = e_steps s,
              ap_totalCost = foldl (\<lambda>total step. total + ps_cost step) 0 (e_steps s),
              ap_results = e_facts s\<rparr> (length (e_invoked s)))"

definition planEnrichment :: "collation \<Rightarrow> Capability list \<Rightarrow> Ingredient list \<Rightarrow> EnrichmentOptions \<Rightarrow> EnrichmentPlanResult" where
  "planEnrichment ck capabilities ingredients options =
     expandEnrichment ck capabilities (map ingredient_value ingredients) [] options []"

text \<open>One options object carries the fact families and the step limit of both phases.\<close>

definition planGoalThenEnrichment :: "collation \<Rightarrow> Capability list \<Rightarrow> Ingredient list \<Rightarrow> Predicate list \<Rightarrow>
    string list \<Rightarrow> SolveOptions \<Rightarrow> GoalThenEnrichmentPlanResult" where
  "planGoalThenEnrichment ck capabilities ingredients goals families options =
     (case solve ck capabilities ingredients goals options of
        SolveFail _ exploredStates reason \<Rightarrow> GoalEnrichFail reason 0 exploredStates
      | SolveOk exact exploredStates \<Rightarrow>
          (let facts = map ingredient_value ingredients @ concat (map ps_outputs (ap_steps exact)) in
           case expandEnrichment ck capabilities facts (ap_steps exact)
                  \<lparr>factFamilies = families, enr_maxSteps = maxSteps options\<rparr> goals of
             EnrichOk program n \<Rightarrow> GoalEnrichOk program n exploredStates
           | EnrichFail reason n \<Rightarrow> GoalEnrichFail reason n exploredStates))"

section \<open>The comparators\<close>

text \<open>Both comparators meet the contract of the sort, so the search pops a cheapest state.\<close>

definition state_rank :: "collation \<Rightarrow> SearchState \<Rightarrow> int list \<times> nat list" where
  "state_rank ck s = ([st_cost s, int (length (st_steps s))], ck (stateKey s))"

lemma compareStates_le:
  "compareStates ck a b \<le> 0 \<longleftrightarrow>
     fst (state_rank ck a) < fst (state_rank ck b) \<or>
     fst (state_rank ck a) = fst (state_rank ck b) \<and> snd (state_rank ck a) \<le> snd (state_rank ck b)"
  by (auto simp: compareStates_def state_rank_def or_else_def localeCompare_le)

interpretation state_order: comparator "compareStates ck" for ck
proof
  show "compareStates ck x y \<le> 0 \<or> compareStates ck y x \<le> 0" for x y
    unfolding compareStates_le by (meson linear linorder_less_linear)
  show "compareStates ck x y \<le> 0 \<Longrightarrow> compareStates ck y z \<le> 0 \<Longrightarrow> compareStates ck x z \<le> 0" for x y z
    using less_trans [of "fst (state_rank ck x)" "fst (state_rank ck y)" "fst (state_rank ck z)"]
      order_trans [of "snd (state_rank ck x)" "snd (state_rank ck y)" "snd (state_rank ck z)"]
    unfolding compareStates_le by (elim disjE conjE) simp_all
qed

interpretation id_order: comparator "by_id ck" for ck
proof
  show "by_id ck x y \<le> 0 \<or> by_id ck y x \<le> 0" for x y
    unfolding by_id_def localeCompare_le by (rule linear)
  show "by_id ck x y \<le> 0 \<Longrightarrow> by_id ck y z \<le> 0 \<Longrightarrow> by_id ck x z \<le> 0" for x y z
    unfolding by_id_def localeCompare_le by (rule order_trans)
qed

lemma popped_is_cheapest:
  assumes "sort_by (compareStates ck) queue = s # rest" "t \<in> set queue"
  shows "st_cost s \<le> st_cost t"
  using state_order.hd_sort_least [OF assms] by (auto simp: compareStates_le state_rank_def)

end
