(* ===== verification/Effects.thy ===== *)
theory Effects
  imports Prelude
begin

text \<open>
  Asynchronous code that calls the outside: a computation maps the world to a result, which may be a
  thrown error, and the world it leaves.  \<open>await\<close> sequences computations; a call of a port is recorded in
  the trace, so that statements about the order of calls are statements about the trace.  The triples
  \<open>triple P m Q E\<close> (if \<open>P\<close> holds before, then \<open>Q\<close> after a normal end and \<open>E\<close> after a thrown error) and
  their rules carry the proofs about such code.
\<close>

type_synonym ('w, 'a) io = "'w \<Rightarrow> 'a res \<times> 'w"

definition return :: "'a \<Rightarrow> ('w, 'a) io" where
  "return x = (\<lambda>w. (Inr x, w))"

definition throw :: "err \<Rightarrow> ('w, 'a) io" where
  "throw e = (\<lambda>w. (Inl e, w))"

definition bind_io :: "('w, 'a) io \<Rightarrow> ('a \<Rightarrow> ('w, 'b) io) \<Rightarrow> ('w, 'b) io" where
  "bind_io m f = (\<lambda>w. case m w of (Inl e, w') \<Rightarrow> (Inl e, w') | (Inr x, w') \<Rightarrow> f x w')"

text \<open>A synchronous computation that may throw.\<close>

definition lift :: "'a res \<Rightarrow> ('w, 'a) io" where
  "lift r = (\<lambda>w. (r, w))"

text \<open>\<open>try { m } catch (error) { h error }\<close>.\<close>

definition catch :: "('w, 'a) io \<Rightarrow> (err \<Rightarrow> ('w, 'a) io) \<Rightarrow> ('w, 'a) io" where
  "catch m h = (\<lambda>w. case m w of (Inl e, w') \<Rightarrow> h e w' | (Inr x, w') \<Rightarrow> (Inr x, w'))"

text \<open>\<open>try { m } finally { f }\<close>: an error of \<open>f\<close> replaces the outcome of \<open>m\<close>.\<close>

definition try_finally :: "('w, 'a) io \<Rightarrow> ('w, unit) io \<Rightarrow> ('w, 'a) io" where
  "try_finally m f = (\<lambda>w. case m w of (r, w') \<Rightarrow>
     (case f w' of (Inl e, w'') \<Rightarrow> (Inl e, w'') | (Inr _, w'') \<Rightarrow> (r, w'')))"

text \<open>\<open>for (const x of xs)\<close> with the loop's variables threaded through.\<close>

fun for_io :: "('a \<Rightarrow> 's \<Rightarrow> ('w, 's) io) \<Rightarrow> 'a list \<Rightarrow> 's \<Rightarrow> ('w, 's) io" where
  "for_io body [] s = return s"
| "for_io body (x # xs) s = bind_io (body x s) (\<lambda>s'. for_io body xs s')"

text \<open>\<open>Promise.all\<close> over computations started in order: all of them run, and the first failure is the result.
  (Which of several failures JavaScript reports depends on their timing; here it is the first of the list.)\<close>

fun all_io :: "('w, 'a) io list \<Rightarrow> ('w, 'a list) io" where
  "all_io [] = return []"
| "all_io (m # ms) = (\<lambda>w. case m w of (r, w1) \<Rightarrow> (case all_io ms w1 of (rs, w2) \<Rightarrow>
     (rbind r (\<lambda>x. rbind rs (\<lambda>xs. Inr (x # xs))), w2)))"

text \<open>A call of a port, recorded with its outcome.\<close>

definition call :: "('w, 'a) io \<Rightarrow> ('a res \<Rightarrow> 'e) \<Rightarrow> ('e list \<times> 'w, 'a) io" where
  "call f ev = (\<lambda>(tr, w). case f w of (r, w') \<Rightarrow> (r, (tr @ [ev r], w')))"

section \<open>Triples\<close>

definition triple :: "('w \<Rightarrow> bool) \<Rightarrow> ('w, 'a) io \<Rightarrow> ('a \<Rightarrow> 'w \<Rightarrow> bool) \<Rightarrow> (err \<Rightarrow> 'w \<Rightarrow> bool) \<Rightarrow> bool" where
  "triple P m Q E \<longleftrightarrow>
     (\<forall>w. P w \<longrightarrow> (case m w of (Inr x, w') \<Rightarrow> Q x w' | (Inl e, w') \<Rightarrow> E e w'))"

lemma tripleI:
  assumes "\<And>w x w'. P w \<Longrightarrow> m w = (Inr x, w') \<Longrightarrow> Q x w'"
    and "\<And>w e w'. P w \<Longrightarrow> m w = (Inl e, w') \<Longrightarrow> E e w'"
  shows "triple P m Q E"
  using assms by (auto simp: triple_def split: sum.splits)

lemma triple_Inr: "triple P m Q E \<Longrightarrow> P w \<Longrightarrow> m w = (Inr x, w') \<Longrightarrow> Q x w'"
  by (auto simp: triple_def dest!: spec [of _ w])

lemma triple_Inl: "triple P m Q E \<Longrightarrow> P w \<Longrightarrow> m w = (Inl e, w') \<Longrightarrow> E e w'"
  by (auto simp: triple_def dest!: spec [of _ w])

lemma triple_weaken:
  assumes "triple P' m Q' E'" "\<And>w. P w \<Longrightarrow> P' w" "\<And>x w. Q' x w \<Longrightarrow> Q x w" "\<And>e w. E' e w \<Longrightarrow> E e w"
  shows "triple P m Q E"
  using assms(1) by (intro tripleI) (blast dest: assms(2) intro: assms(3,4) triple_Inr triple_Inl)+

lemma triple_return: "(\<And>w. P w \<Longrightarrow> Q x w) \<Longrightarrow> triple P (return x) Q E"
  by (auto simp: triple_def return_def)

lemma triple_throw: "(\<And>w. P w \<Longrightarrow> E e w) \<Longrightarrow> triple P (throw e) Q E"
  by (auto simp: triple_def throw_def)

lemma triple_lift:
  "(\<And>x w. r = Inr x \<Longrightarrow> P w \<Longrightarrow> Q x w) \<Longrightarrow> (\<And>e w. r = Inl e \<Longrightarrow> P w \<Longrightarrow> E e w) \<Longrightarrow> triple P (lift r) Q E"
  by (auto simp: triple_def lift_def split: sum.splits)

lemma triple_bind:
  "triple P m R E \<Longrightarrow> (\<And>x. triple (R x) (f x) Q E) \<Longrightarrow> triple P (bind_io m f) Q E"
  unfolding triple_def bind_io_def by (fastforce split: prod.splits sum.splits)

lemma triple_catch:
  "triple P m Q R \<Longrightarrow> (\<And>e. triple (R e) (h e) Q E) \<Longrightarrow> triple P (catch m h) Q E"
  unfolding triple_def catch_def by (fastforce split: prod.splits sum.splits)

lemma triple_finally:
  assumes m: "triple P m R S" and f: "\<And>x. triple (R x) f (\<lambda>_. Q x) E" "\<And>e. triple (S e) f (\<lambda>_. E e) E"
  shows "triple P (try_finally m f) Q E"
proof -
  have "case try_finally m f w of (Inr x, w') \<Rightarrow> Q x w' | (Inl e, w') \<Rightarrow> E e w'" if "P w" for w
  proof -
    obtain r w' where r: "m w = (r, w')" by (cases "m w")
    obtain u w'' where u: "f w' = (u, w'')" by (cases "f w'")
    show ?thesis
    proof (cases r)
      case (Inl e)
      with r triple_Inl [OF m that] have "S e w'" by simp
      with u triple_Inl [OF f(2), of e w'] triple_Inr [OF f(2), of e w'] show ?thesis
        using r Inl by (cases u) (auto simp: try_finally_def)
    next
      case (Inr x)
      with r triple_Inr [OF m that] have "R x w'" by simp
      with u triple_Inl [OF f(1), of x w'] triple_Inr [OF f(1), of x w'] show ?thesis
        using r Inr by (cases u) (auto simp: try_finally_def)
    qed
  qed
  then show ?thesis by (simp add: triple_def)
qed

lemma triple_for:
  assumes "\<And>x s. x \<in> set xs \<Longrightarrow> triple (I s) (body x s) I E"
  shows "triple (I s) (for_io body xs s) I E"
  using assms
proof (induction xs arbitrary: s)
  case (Cons x xs)
  then show ?case by (auto intro!: triple_bind [of _ _ I])
qed (simp add: triple_return)

lemma triple_all:
  assumes "\<And>m. m \<in> set ms \<Longrightarrow> triple P m (\<lambda>x w. P w \<and> R x) (\<lambda>_. P)"
  shows "triple P (all_io ms) (\<lambda>xs w. P w \<and> length xs = length ms \<and> (\<forall>x\<in>set xs. R x)) (\<lambda>_. P)"
  using assms
proof (induction ms)
  case (Cons m ms)
  have tail: "triple P (all_io ms) (\<lambda>xs w. P w \<and> length xs = length ms \<and> (\<forall>x\<in>set xs. R x)) (\<lambda>_. P)"
    by (rule Cons.IH) (use Cons.prems in simp)
  have head: "triple P m (\<lambda>x w. P w \<and> R x) (\<lambda>_. P)" using Cons.prems by simp
  show ?case
  proof (rule tripleI)
    fix w xs w' assume P: "P w" and run: "all_io (m # ms) w = (Inr xs, w')"
    then obtain x w1 ys where "m w = (Inr x, w1)" "all_io ms w1 = (Inr ys, w')" "xs = x # ys"
      by (auto simp: rbind_def split: prod.splits sum.splits)
    note parts = this
    have "P w1 \<and> R x" by (rule triple_Inr [OF head P parts(1)])
    moreover from this have "P w' \<and> length ys = length ms \<and> (\<forall>y\<in>set ys. R y)"
      using triple_Inr [OF tail _ parts(2)] by blast
    ultimately show "P w' \<and> length xs = length (m # ms) \<and> (\<forall>x\<in>set xs. R x)"
      using parts(3) by simp
  next
    fix w e w' assume P: "P w" and run: "all_io (m # ms) w = (Inl e, w')"
    then obtain r w1 rs where r: "m w = (r, w1)" "all_io ms w1 = (rs, w')"
      by (auto split: prod.splits)
    have P1: "P w1"
    proof (cases r)
      case (Inl e1)
      with r(1) have "m w = (Inl e1, w1)" by simp
      then show ?thesis by (rule triple_Inl [OF head P])
    next
      case (Inr x)
      with r(1) have "m w = (Inr x, w1)" by simp
      then have "P w1 \<and> R x" by (rule triple_Inr [OF head P])
      then show ?thesis ..
    qed
    show "P w'"
    proof (cases rs)
      case (Inl e1)
      with r(2) have "all_io ms w1 = (Inl e1, w')" by simp
      then show ?thesis by (rule triple_Inl [OF tail P1])
    next
      case (Inr xs)
      with r(2) have "all_io ms w1 = (Inr xs, w')" by simp
      then have "P w' \<and> length xs = length ms \<and> (\<forall>x\<in>set xs. R x)" by (rule triple_Inr [OF tail P1])
      then show ?thesis ..
    qed
  qed
qed (simp add: triple_return)

lemma triple_if:
  "(b \<Longrightarrow> triple P m Q E) \<Longrightarrow> (\<not> b \<Longrightarrow> triple P n Q E) \<Longrightarrow> triple P (if b then m else n) Q E"
  by simp

lemma triple_call:
  assumes "\<And>tr w r w'. P (tr, w) \<Longrightarrow> f w = (r, w') \<Longrightarrow>
     (case r of Inr x \<Rightarrow> Q x (tr @ [ev r], w') | Inl e \<Rightarrow> E e (tr @ [ev r], w'))"
  shows "triple P (call f ev) Q E"
proof -
  have "case call f ev (tr, w) of (Inr x, w') \<Rightarrow> Q x w' | (Inl e, w') \<Rightarrow> E e w'" if "P (tr, w)" for tr w
    using assms [OF that, of "fst (f w)" "snd (f w)"] by (cases "f w") (auto simp: call_def split: sum.splits)
  then show ?thesis by (simp add: triple_def)
qed

lemma triple_conj:
  "triple P m Q E \<Longrightarrow> triple P m Q' E' \<Longrightarrow> triple P m (\<lambda>x w. Q x w \<and> Q' x w) (\<lambda>e w. E e w \<and> E' e w)"
  by (auto simp: triple_def split: sum.splits prod.splits)

text \<open>Assertions on the trace alone.\<close>

definition on_trace :: "('e list \<Rightarrow> bool) \<Rightarrow> 'e list \<times> 'w \<Rightarrow> bool" where
  "on_trace p = (\<lambda>(tr, _). p tr)"

lemma on_trace_simps [simp]: "on_trace p (tr, w) = p tr"
  by (simp add: on_trace_def)

definition stable :: "('e list \<Rightarrow> bool) \<Rightarrow> bool" where
  "stable p \<longleftrightarrow> (\<forall>tr e. p tr \<longrightarrow> p (tr @ [e]))"

lemma stable_member [intro]: "stable (\<lambda>tr. e \<in> set tr)"
  by (simp add: stable_def)

lemma triple_call_stable:
  assumes "stable p"
  shows "triple (on_trace p) (call f ev) (\<lambda>x. on_trace (\<lambda>tr. p tr \<and> ev (Inr x) \<in> set tr)) (\<lambda>_. on_trace p)"
  using assms by (intro triple_call) (auto simp: stable_def split: sum.splits)

lemma triple_bind_call:
  assumes "stable p" "\<And>e w. on_trace p w \<Longrightarrow> E e w"
    and "\<And>x. triple (on_trace (\<lambda>tr. p tr \<and> ev (Inr x) \<in> set tr)) (f x) Q E"
  shows "triple (on_trace p) (bind_io (call g ev) f) Q E"
  by (rule triple_bind [OF triple_weaken [OF triple_call_stable [OF assms(1)]] assms(3)]) (simp_all add: assms(2))

text \<open>A call whose event changes what is known of the trace.\<close>

lemma triple_bind_call_trace:
  assumes "\<And>tr x. p tr \<Longrightarrow> q x (tr @ [ev (Inr x)])" "\<And>tr e w. p tr \<Longrightarrow> E e (tr @ [ev (Inl e)], w)"
    and "\<And>x. triple (on_trace (q x)) (f x) Q E"
  shows "triple (on_trace p) (bind_io (call g ev) f) Q E"
  by (rule triple_bind [OF triple_call assms(3)]) (auto simp: assms(1,2) split: sum.splits)

lemma triple_bind_lift:
  assumes "\<And>x. r = Inr x \<Longrightarrow> triple P (f x) Q E" "\<And>e w. r = Inl e \<Longrightarrow> P w \<Longrightarrow> E e w"
  shows "triple P (bind_io (lift r) f) Q E"
proof (cases r)
  case (Inl e)
  then show ?thesis using assms(2) by (auto simp: triple_def bind_io_def lift_def)
next
  case (Inr x)
  then show ?thesis using assms(1) by (auto simp: triple_def bind_io_def lift_def)
qed

text \<open>The rules for assertions on the trace, with one assertion for all errors.\<close>

lemma trace_throw: "(\<And>tr. p tr \<Longrightarrow> q tr) \<Longrightarrow> triple (on_trace p) (throw e) Q (\<lambda>_. on_trace q)"
  by (auto simp: on_trace_def intro!: triple_throw)

lemma trace_return: "(\<And>tr. p tr \<Longrightarrow> q x tr) \<Longrightarrow> triple (on_trace p) (return x) (\<lambda>x. on_trace (q x)) E"
  by (auto simp: on_trace_def intro!: triple_return)

lemma trace_lift:
  "(\<And>x. r = Inr x \<Longrightarrow> triple (on_trace p) (f x) Q (\<lambda>_. on_trace q)) \<Longrightarrow> (\<And>tr. p tr \<Longrightarrow> q tr) \<Longrightarrow>
   triple (on_trace p) (bind_io (lift r) f) Q (\<lambda>_. on_trace q)"
  by (rule triple_bind_lift) (auto simp: on_trace_def)

lemma trace_call:
  assumes "\<And>tr x. p tr \<Longrightarrow> p' x (tr @ [ev (Inr x)])" "\<And>tr e. p tr \<Longrightarrow> q (tr @ [ev (Inl e)])"
    and "\<And>x. triple (on_trace (p' x)) (f x) Q (\<lambda>_. on_trace q)"
  shows "triple (on_trace p) (bind_io (call g ev) f) Q (\<lambda>_. on_trace q)"
  by (rule triple_bind_call_trace [where p = p and q = p']) (simp_all add: assms)

lemma trace_call_last:
  "(\<And>tr x. p tr \<Longrightarrow> p' x (tr @ [ev (Inr x)])) \<Longrightarrow> (\<And>tr e. p tr \<Longrightarrow> q e (tr @ [ev (Inl e)])) \<Longrightarrow>
   triple (on_trace p) (call g ev) (\<lambda>x. on_trace (p' x)) (\<lambda>e. on_trace (q e))"
  by (rule triple_call) (auto split: sum.splits)

lemma trace_pre: "triple (on_trace p') m Q E \<Longrightarrow> (\<And>tr. p tr \<Longrightarrow> p' tr) \<Longrightarrow> triple (on_trace p) m Q E"
  by (erule triple_weaken) (auto simp: on_trace_def)

text \<open>A loop whose invariant mentions the elements it has processed.\<close>

lemma triple_for_processed:
  assumes "\<And>front x rest s. xs = front @ x # rest \<Longrightarrow> triple (I front s) (body x s) (I (front @ [x])) E"
  shows "triple (I [] s) (for_io body xs s) (I xs) E"
proof -
  have "xs = front @ rest \<Longrightarrow> triple (I front s) (for_io body rest s) (I xs) E" for front rest s
  proof (induction rest arbitrary: front s)
    case (Cons x rest)
    have "triple (I (front @ [x]) s') (for_io body rest s') (I xs) E" for s'
      by (rule Cons.IH) (simp add: Cons.prems)
    then show ?case
      unfolding for_io.simps by (rule triple_bind [OF assms [OF Cons.prems]])
  qed (simp add: triple_return)
  from this [of "[]" xs s] show ?thesis by simp
qed

text \<open>A loop whose body appends to its result and only grows the trace.\<close>

lemma for_io_appends:
  assumes "\<And>x s tr. x \<in> set xs \<Longrightarrow> \<exists>tr'. body x s (tr, w) = (Inr (s @ g x), (tr', w))"
  shows "\<exists>tr'. for_io body xs s (tr, w) = (Inr (s @ concat (map g xs)), (tr', w))"
  using assms
proof (induction xs arbitrary: s tr)
  case (Cons x xs)
  from Cons.prems [of x s tr] obtain tr1 where 1: "body x s (tr, w) = (Inr (s @ g x), (tr1, w))" by auto
  have "\<exists>tr'. for_io body xs (s @ g x) (tr1, w) = (Inr ((s @ g x) @ concat (map g xs)), (tr', w))"
    by (rule Cons.IH) (use Cons.prems in auto)
  with 1 show ?case by (simp add: bind_io_def)
qed (simp add: return_def)

end
