(* ===== verification/Systems.thy ===== *)
theory Systems
  imports Prelude
begin

text \<open>
  Components as systems of operations: a state after a list of operations, invariants every operation keeps,
  and the simulation of an abstract system by a function on states.
\<close>

section \<open>Invariants\<close>

locale invariant_system =
  fixes init :: 's and step :: "'s \<Rightarrow> 'op \<Rightarrow> 's" and inv :: "'s \<Rightarrow> bool"
  assumes init: "inv init"
    and preserved: "inv s \<Longrightarrow> inv (step s op)"
begin

lemma kept: "inv s \<Longrightarrow> inv (foldl step s ops)"
  by (induction ops arbitrary: s) (simp_all add: preserved)

lemma always: "inv (foldl step init ops)"
  by (rule kept) (rule init)

end

section \<open>Protocols\<close>

text \<open>A protocol is a partial step function on events; a list of events follows it when no step refuses.\<close>

fun follow :: "('s \<Rightarrow> 'e \<Rightarrow> 's option) \<Rightarrow> 's \<Rightarrow> 'e list \<Rightarrow> 's option" where
  "follow step s [] = Some s"
| "follow step s (e # es) = (case step s e of None \<Rightarrow> None | Some s' \<Rightarrow> follow step s' es)"

lemma follow_append:
  "follow step s (es @ fs) = (case follow step s es of None \<Rightarrow> None | Some s' \<Rightarrow> follow step s' fs)"
  by (induction es arbitrary: s) (auto split: option.split)

section \<open>Simulation\<close>

text \<open>Every concrete operation is a list of abstract ones, possibly none, on the abstracted state.\<close>

locale simulation =
  fixes step :: "'s \<Rightarrow> 'op \<Rightarrow> 's" and astep :: "'a \<Rightarrow> 'b \<Rightarrow> 'a" and abs :: "'s \<Rightarrow> 'a"
    and aops :: "'s \<Rightarrow> 'op \<Rightarrow> 'b list"
  assumes simulated: "abs (step s op) = foldl astep (abs s) (aops s op)"
begin

lemma run_simulated: "\<exists>bs. abs (foldl step s ops) = foldl astep (abs s) bs"
proof (induction ops arbitrary: s)
  case Nil
  have "abs (foldl step s []) = foldl astep (abs s) []" by simp
  then show ?case ..
next
  case (Cons op ops)
  from Cons [of "step s op"] obtain bs where "abs (foldl step (step s op) ops) = foldl astep (abs (step s op)) bs" ..
  then have "abs (foldl step s (op # ops)) = foldl astep (abs s) (aops s op @ bs)" by (simp add: simulated)
  then show ?case ..
qed

end

text \<open>What holds of every abstract run holds of the abstraction of every concrete run.\<close>

locale refinement = simulation step astep abs aops + abstract: invariant_system "abs init" astep ainv
  for step :: "'s \<Rightarrow> 'op \<Rightarrow> 's" and astep :: "'a \<Rightarrow> 'b \<Rightarrow> 'a" and abs aops init ainv

sublocale refinement \<subseteq> invariant_system init step "\<lambda>s. ainv (abs s)"
proof
  show "ainv (abs init)" by (rule abstract.init)
  show "ainv (abs (step s op))" if "ainv (abs s)" for s op
    using abstract.kept [OF that] by (simp add: simulated)
qed

end
