(* ===== verification/Registry.thy ===== *)
theory Registry
  imports Planner Effects Systems
begin

text \<open>
  libs/aven-actors/src/registry.ts: actor definitions compiled from manifests, and the discovery
  catalog of definitions, live instances and factory offers.  A method of the registry is a computation
  on the registry's state; \<open>immutableCopy\<close> is the identity, since values here cannot be shared.
\<close>

section \<open>Data\<close>

datatype ExecutionEnvironment = Local | Server

record ActorDefinition =
  ad_ref :: string
  ad_id :: string
  ad_version :: string
  ad_label :: string
  ad_description :: string
  ad_tags :: "string list"
  ad_manifest :: Manifest
  ad_capabilities :: "Capability list"

datatype ActorAddress = LocalAddress string | HttpAddress string | WorkerAddress string | OpaqueAddress string

datatype instance_status = Available | Draining | Unavailable

record ActorInstanceAdvertisement =
  ai_instanceId :: string
  ai_definitionRef :: string
  ai_label :: string
  ai_address :: ActorAddress
  ai_capabilityIds :: "string list"
  ai_status :: instance_status
  ai_executionEnvironment :: ExecutionEnvironment
  ai_locality :: "string option"
  ai_trustDomain :: "string option"
  ai_cost :: "int option"
  ai_latencyMs :: "int option"
  ai_expiresAt :: "string option"
  ai_metadata :: "json_record option"

datatype offer_lifetime = SharedLifetime | SessionLifetime | RunLifetime | StepLifetime

record ActorFactoryOffer =
  ao_offerId :: string
  ao_factoryId :: string
  ao_definitionRef :: string
  ao_label :: string
  ao_capabilityIds :: "string list"
  ao_executionEnvironment :: ExecutionEnvironment
  ao_configurationSchema :: "json_record option"
  ao_defaultConfiguration :: "json_record option"
  ao_locality :: "string option"
  ao_trustDomain :: "string option"
  ao_cost :: "int option"
  ao_latencyMs :: "int option"
  ao_lifetime :: "offer_lifetime option"
  ao_metadata :: "json_record option"

record ActorRegistrySnapshot =
  sn_revision :: nat
  sn_capturedAt :: string
  sn_definitions :: "ActorDefinition list"
  sn_instances :: "ActorInstanceAdvertisement list"
  sn_offers :: "ActorFactoryOffer list"

record RegisterActorOptions =
  ro_version :: "string option"
  ro_label :: "string option"
  ro_status :: "instance_status option"
  ro_executionEnvironment :: "ExecutionEnvironment option"
  ro_locality :: "string option"
  ro_trustDomain :: "string option"
  ro_cost :: "int option"
  ro_latencyMs :: "int option"
  ro_expiresAt :: "string option"
  ro_metadata :: "json_record option"

text \<open>The members of a live \<open>Actor\<close> the registry reads.\<close>

record registrable =
  ra_manifest :: Manifest
  ra_requires :: "Predicate list"
  ra_produces :: "Predicate list"
  ra_uuid :: string
  ra_instanceName :: string

section \<open>Definitions from manifests\<close>

definition definitionRef :: "string \<Rightarrow> string \<Rightarrow> string \<Rightarrow> string \<Rightarrow> string res" where
  "definitionRef i version auth ns =
     resourceId \<lparr>authority = auth, rn_kind = ''actor'', rn_namespace = ns, rn_name = i, rn_version = version\<rparr>"

definition registered_method :: "Manifest \<Rightarrow> string \<Rightarrow> Predicate list \<Rightarrow> Predicate list \<Rightarrow> string \<Rightarrow> MethodSpec \<Rightarrow> Capability list res" where
  "registered_method manifest version actorRequires actorProduces ref method =
     (let requires = orelse (ms_requires method) actorRequires;
          produces = orelse (ms_produces method) actorProduces
      in if produces = [] then Inr []
         else rbind (resourceId \<lparr>authority = m_authority manifest, rn_kind = ''capability'',
                       rn_namespace = m_namespace manifest @ ''.'' @ m_id manifest,
                       rn_name = ms_name method, rn_version = version\<rparr>) (\<lambda>cid.
           Inr [\<lparr>c_id = cid, c_actor = ref, c_method = ms_name method,
                 c_requires = requires, c_produces = produces, c_cost = ms_cost method, c_available = None,
                 c_mode = Some (orelse (ms_mode method) Transform),
                 c_idempotency = Some (orelse (ms_idempotency method) NotIdempotent),
                 c_parametersSchema = Some (ms_parameters method),
                 c_inputSlots = ms_inputSlots method, c_outputSlots = ms_outputSlots method\<rparr>]))"

definition methodCapabilities :: "Manifest \<Rightarrow> string \<Rightarrow> Predicate list \<Rightarrow> Predicate list \<Rightarrow> Capability list res" where
  "methodCapabilities manifest version actorRequires actorProduces =
     rbind (definitionRef (m_id manifest) version (m_authority manifest) (m_namespace manifest)) (\<lambda>ref.
     rbind (traverse (registered_method manifest version actorRequires actorProduces ref) (m_methods manifest)) (\<lambda>css.
     Inr (concat css)))"

definition definitionFromManifest :: "Manifest \<Rightarrow> string option \<Rightarrow> ActorDefinition res" where
  "definitionFromManifest manifest given =
     (let version = orelse given (m_version manifest) in
      rbind (definitionRef (m_id manifest) version (m_authority manifest) (m_namespace manifest)) (\<lambda>ref.
      rbind (methodCapabilities manifest version (orelse (m_requires manifest) []) (orelse (m_produces manifest) [])) (\<lambda>cs.
      Inr \<lparr>ad_ref = ref, ad_id = m_id manifest, ad_version = version, ad_label = m_name manifest,
           ad_description = m_description manifest, ad_tags = m_tags manifest, ad_manifest = manifest,
           ad_capabilities = cs\<rparr>)))"

definition definitionFromActor :: "registrable \<Rightarrow> string option \<Rightarrow> ActorDefinition res" where
  "definitionFromActor a given =
     (let manifest = ra_manifest a; version = orelse given (m_version manifest) in
      rbind (definitionFromManifest manifest (Some version)) (\<lambda>d.
      rbind (methodCapabilities manifest version (ra_requires a) (ra_produces a)) (\<lambda>cs.
      Inr (d\<lparr>ad_capabilities := cs\<rparr>))))"

section \<open>The registry\<close>

record ActorRegistry =
  revision :: nat
  r_definitions :: "(string, ActorDefinition) jsmap"
  r_instances :: "(string, ActorInstanceAdvertisement) jsmap"
  r_offers :: "(string, ActorFactoryOffer) jsmap"
  r_notified :: "nat list"  \<comment> \<open>the arguments of \<open>onChange\<close>, when it is set\<close>

definition newRegistry :: ActorRegistry where
  "newRegistry = \<lparr>revision = 0, r_definitions = [], r_instances = [], r_offers = [], r_notified = []\<rparr>"

definition changed :: "(ActorRegistry, unit) io" where
  "changed r = (Inr (), r\<lparr>revision := revision r + 1, r_notified := r_notified r @ [revision r + 1]\<rparr>)"

text \<open>An empty identity is falsy, so it passes the check.\<close>

definition assertCapabilities :: "string \<Rightarrow> string list \<Rightarrow> (ActorRegistry, unit) io" where
  "assertCapabilities ref capabilityIds r =
     ((case map_of (r_definitions r) ref of
         None \<Rightarrow> Inl (Err (''unknown actor definition '' @ ref))
       | Some d \<Rightarrow>
           (let known = map c_id (ad_capabilities d) in
            case find (\<lambda>c. c \<notin> set known) capabilityIds of
              None \<Rightarrow> Inr ()
            | Some unknown \<Rightarrow>
                if unknown = [] then Inr ()
                else Inl (Err (unknown @ '' is not a capability of '' @ ref)))), r)"

definition registerDefinition :: "ActorDefinition \<Rightarrow> (ActorRegistry, unit) io" where
  "registerDefinition d r = changed (r\<lparr>r_definitions := AList.update (ad_ref d) d (r_definitions r)\<rparr>)"

definition registerManifest :: "Manifest \<Rightarrow> string option \<Rightarrow> (ActorRegistry, ActorDefinition) io" where
  "registerManifest manifest version =
     bind_io (lift (definitionFromManifest manifest version)) (\<lambda>d.
     bind_io (registerDefinition d) (\<lambda>_. return d))"

definition advertiseInstance :: "ActorInstanceAdvertisement \<Rightarrow> (ActorRegistry, unit) io" where
  "advertiseInstance a =
     bind_io (assertCapabilities (ai_definitionRef a) (ai_capabilityIds a)) (\<lambda>_ r.
     changed (r\<lparr>r_instances := AList.update (ai_instanceId a) a (r_instances r)\<rparr>))"

definition advertisement_of :: "registrable \<Rightarrow> RegisterActorOptions \<Rightarrow> ActorDefinition \<Rightarrow> ActorInstanceAdvertisement" where
  "advertisement_of a opt d =
     \<lparr>ai_instanceId = ra_uuid a, ai_definitionRef = ad_ref d,
      ai_label = orelse (ro_label opt) (ra_instanceName a),
      ai_address = LocalAddress (ra_uuid a), ai_capabilityIds = map c_id (ad_capabilities d),
      ai_status = orelse (ro_status opt) Available,
      ai_executionEnvironment = orelse (ro_executionEnvironment opt) Local,
      ai_locality = truthy (ro_locality opt), ai_trustDomain = truthy (ro_trustDomain opt),
      ai_cost = ro_cost opt, ai_latencyMs = ro_latencyMs opt, ai_expiresAt = truthy (ro_expiresAt opt),
      ai_metadata = ro_metadata opt\<rparr>"

definition registerActor :: "registrable \<Rightarrow> RegisterActorOptions \<Rightarrow> (ActorRegistry, ActorInstanceAdvertisement) io" where
  "registerActor a opt =
     bind_io (lift (definitionFromActor a (ro_version opt))) (\<lambda>d.
     bind_io (registerDefinition d) (\<lambda>_.
     bind_io (advertiseInstance (advertisement_of a opt d)) (\<lambda>_.
     return (advertisement_of a opt d))))"

definition withdrawInstance :: "string \<Rightarrow> (ActorRegistry, unit) io" where
  "withdrawInstance i r =
     (if has (r_instances r) i then changed (r\<lparr>r_instances := AList.delete i (r_instances r)\<rparr>) else (Inr (), r))"

definition publishOffer :: "ActorFactoryOffer \<Rightarrow> (ActorRegistry, unit) io" where
  "publishOffer off =
     bind_io (assertCapabilities (ao_definitionRef off) (ao_capabilityIds off)) (\<lambda>_ r.
     changed (r\<lparr>r_offers := AList.update (ao_offerId off) off (r_offers r)\<rparr>))"

definition withdrawOffer :: "string \<Rightarrow> (ActorRegistry, unit) io" where
  "withdrawOffer i r =
     (if has (r_offers r) i then changed (r\<lparr>r_offers := AList.delete i (r_offers r)\<rparr>) else (Inr (), r))"

text \<open>The methods \<open>definition\<close>, \<open>instance\<close> and \<open>offer\<close>.\<close>

definition definition_at :: "ActorRegistry \<Rightarrow> string \<Rightarrow> ActorDefinition option" where
  "definition_at r ref = map_of (r_definitions r) ref"

definition instance_at :: "ActorRegistry \<Rightarrow> string \<Rightarrow> ActorInstanceAdvertisement option" where
  "instance_at r i = map_of (r_instances r) i"

definition offer_at :: "ActorRegistry \<Rightarrow> string \<Rightarrow> ActorFactoryOffer option" where
  "offer_at r i = map_of (r_offers r) i"

definition snapshot :: "string \<Rightarrow> ActorRegistry \<Rightarrow> ActorRegistrySnapshot" where
  "snapshot now r =
     \<lparr>sn_revision = revision r, sn_capturedAt = now, sn_definitions = map_values (r_definitions r),
      sn_instances = map_values (r_instances r), sn_offers = map_values (r_offers r)\<rparr>"

text \<open>The calls a client can make.\<close>

datatype registry_op =
    RegisterDefinition ActorDefinition
  | RegisterManifest Manifest "string option"
  | RegisterActor registrable RegisterActorOptions
  | AdvertiseInstance ActorInstanceAdvertisement
  | WithdrawInstance string
  | PublishOffer ActorFactoryOffer
  | WithdrawOffer string

fun registry_step :: "ActorRegistry \<Rightarrow> registry_op \<Rightarrow> ActorRegistry" where
  "registry_step r (RegisterDefinition d) = snd (registerDefinition d r)"
| "registry_step r (RegisterManifest m v) = snd (registerManifest m v r)"
| "registry_step r (RegisterActor a opt) = snd (registerActor a opt r)"
| "registry_step r (AdvertiseInstance a) = snd (advertiseInstance a r)"
| "registry_step r (WithdrawInstance i) = snd (withdrawInstance i r)"
| "registry_step r (PublishOffer off) = snd (publishOffer off r)"
| "registry_step r (WithdrawOffer i) = snd (withdrawOffer i r)"

definition registry_after :: "registry_op list \<Rightarrow> ActorRegistry" where
  "registry_after ops = foldl registry_step newRegistry ops"

section \<open>The invariant\<close>

definition registry_ok :: "ActorRegistry \<Rightarrow> bool" where
  "registry_ok r \<longleftrightarrow>
     keyed ad_ref (\<lambda>_. True) (r_definitions r) \<and>
     keyed ai_instanceId (\<lambda>a. has (r_definitions r) (ai_definitionRef a)) (r_instances r) \<and>
     keyed ao_offerId (\<lambda>off. has (r_definitions r) (ao_definitionRef off)) (r_offers r) \<and>
     r_notified r = map Suc [0..<revision r]"

named_theorems registry_defs \<open>the operations of the registry\<close>

lemmas [registry_defs] = registerDefinition_def registerManifest_def advertiseInstance_def registerActor_def
  withdrawInstance_def publishOffer_def withdrawOffer_def

lemma registry_ok_new: "registry_ok newRegistry"
  by (simp add: registry_ok_def newRegistry_def)

lemma ok_definition: "registry_ok r \<Longrightarrow> registry_ok (snd (registerDefinition d r))"
  unfolding registry_ok_def registerDefinition_def changed_def
  by (auto intro: keyed_update elim: keyed_mono)

lemma ok_instance:
  "registry_ok r \<Longrightarrow> has (r_definitions r) (ai_definitionRef a) \<Longrightarrow>
   registry_ok (snd (changed (r\<lparr>r_instances := AList.update (ai_instanceId a) a (r_instances r)\<rparr>)))"
  unfolding registry_ok_def changed_def by (auto intro: keyed_update)

lemma ok_offer:
  "registry_ok r \<Longrightarrow> has (r_definitions r) (ao_definitionRef off) \<Longrightarrow>
   registry_ok (snd (changed (r\<lparr>r_offers := AList.update (ao_offerId off) off (r_offers r)\<rparr>)))"
  unfolding registry_ok_def changed_def by (auto intro: keyed_update)

lemma ok_withdraw:
  "registry_ok r \<Longrightarrow> registry_ok (snd (withdrawInstance i r))"
  "registry_ok r \<Longrightarrow> registry_ok (snd (withdrawOffer i r))"
  by (simp_all add: registry_ok_def withdrawInstance_def withdrawOffer_def changed_def keyed_delete)

text \<open>The check fails without effect, and what it accepts names a definition and its capabilities.\<close>

definition advertised_by :: "ActorRegistry \<Rightarrow> string \<Rightarrow> string list \<Rightarrow> bool" where
  "advertised_by r ref cids \<longleftrightarrow>
     (case definition_at r ref of None \<Rightarrow> False
      | Some d \<Rightarrow> (let rest = filter (\<lambda>c. c \<notin> c_id ` set (ad_capabilities d)) cids in rest = [] \<or> hd rest = []))"

lemma find_filter: "find P xs = (case filter P xs of [] \<Rightarrow> None | x # _ \<Rightarrow> Some x)"
  by (induction xs) auto

lemma assertCapabilities_iff: "fst (assertCapabilities ref cids r) = Inr () \<longleftrightarrow> advertised_by r ref cids"
  by (auto simp: assertCapabilities_def advertised_by_def definition_at_def find_filter Let_def
      split: option.splits list.splits)

lemma assertCapabilities_snd [simp]: "snd (assertCapabilities ref cids r) = r"
  by (simp add: assertCapabilities_def)

lemma advertised_has: "advertised_by r ref cids \<Longrightarrow> has (r_definitions r) ref"
  by (auto simp: advertised_by_def definition_at_def has_map_of split: option.splits)

lemma advertiseInstance_eq:
  "snd (advertiseInstance a r) =
     (if advertised_by r (ai_definitionRef a) (ai_capabilityIds a)
      then snd (changed (r\<lparr>r_instances := AList.update (ai_instanceId a) a (r_instances r)\<rparr>)) else r)"
  "isl (fst (advertiseInstance a r)) = (\<not> advertised_by r (ai_definitionRef a) (ai_capabilityIds a))"
  using assertCapabilities_iff [of "ai_definitionRef a" "ai_capabilityIds a" r]
    assertCapabilities_snd [of "ai_definitionRef a" "ai_capabilityIds a" r]
  by (cases "assertCapabilities (ai_definitionRef a) (ai_capabilityIds a) r";
      auto simp: advertiseInstance_def bind_io_def changed_def split: sum.splits)+

lemma publishOffer_eq:
  "snd (publishOffer off r) =
     (if advertised_by r (ao_definitionRef off) (ao_capabilityIds off)
      then snd (changed (r\<lparr>r_offers := AList.update (ao_offerId off) off (r_offers r)\<rparr>)) else r)"
  "isl (fst (publishOffer off r)) = (\<not> advertised_by r (ao_definitionRef off) (ao_capabilityIds off))"
  using assertCapabilities_iff [of "ao_definitionRef off" "ao_capabilityIds off" r]
    assertCapabilities_snd [of "ao_definitionRef off" "ao_capabilityIds off" r]
  by (cases "assertCapabilities (ao_definitionRef off) (ao_capabilityIds off) r";
      auto simp: publishOffer_def bind_io_def changed_def split: sum.splits)+

lemma registerManifest_eq:
  "snd (registerManifest m v r) =
     (case definitionFromManifest m v of Inl _ \<Rightarrow> r | Inr d \<Rightarrow> snd (registerDefinition d r))"
  by (auto simp: registerManifest_def bind_io_def lift_def return_def registerDefinition_def changed_def split: sum.splits)

text \<open>The advertisement of a registered actor always passes the check, since it lists the capabilities of the
  definition just registered.\<close>

lemma own_capabilities:
  "advertised_by (snd (registerDefinition d r)) (ai_definitionRef (advertisement_of a opt d)) (ai_capabilityIds (advertisement_of a opt d))"
  by (simp add: advertised_by_def definition_at_def registerDefinition_def changed_def advertisement_of_def Let_def)

lemma registerActor_eq:
  "registerActor a opt r =
     (case definitionFromActor a (ro_version opt) of
        Inl e \<Rightarrow> (Inl e, r)
      | Inr d \<Rightarrow> (Inr (advertisement_of a opt d),
          snd (advertiseInstance (advertisement_of a opt d) (snd (registerDefinition d r)))))"
proof (cases "definitionFromActor a (ro_version opt)")
  case (Inr d)
  have "\<not> isl (fst (advertiseInstance (advertisement_of a opt d) (snd (registerDefinition d r))))"
    using own_capabilities unfolding advertiseInstance_eq(2) by blast
  then show ?thesis
    by (cases "advertiseInstance (advertisement_of a opt d) (snd (registerDefinition d r))")
      (auto simp: registerActor_def bind_io_def lift_def return_def Inr registerDefinition_def changed_def split: sum.splits)
qed (simp add: registerActor_def bind_io_def lift_def)

lemma ok_advertise: "registry_ok r \<Longrightarrow> registry_ok (snd (advertiseInstance a r))"
  by (simp add: advertiseInstance_eq ok_instance advertised_has)

lemma ok_step: "registry_ok r \<Longrightarrow> registry_ok (registry_step r op)"
proof (cases op)
  case (PublishOffer off)
  then show "registry_ok r \<Longrightarrow> ?thesis" by (simp add: publishOffer_eq ok_offer advertised_has)
qed (auto simp: ok_definition ok_withdraw registerManifest_eq registerActor_eq ok_advertise split: sum.splits)

interpretation registry_runs: invariant_system newRegistry registry_step registry_ok
  by unfold_locales (rule registry_ok_new, rule ok_step)

section \<open>Properties\<close>

text \<open>C11. After any calls, whether they succeeded or threw: every entry is filed under its own identity, every
  advertised instance and offer refers to a registered definition, and the listener has seen each revision once,
  in order.\<close>

theorem registry_invariant: "registry_ok (registry_after ops)"
  unfolding registry_after_def by (rule registry_runs.always)

text \<open>Registering a live actor succeeds whenever its identities are well formed, and its definition and
  its advertisement can then be looked up and are in the next snapshot.\<close>

theorem registerActor_discoverable:
  "registry_ok r \<Longrightarrow> definitionFromActor a (ro_version opt) = Inr d \<Longrightarrow>
   (let r' = snd (registerActor a opt r); ad = advertisement_of a opt d in
    fst (registerActor a opt r) = Inr ad \<and> definition_at r' (ad_ref d) = Some d \<and> instance_at r' (ra_uuid a) = Some ad \<and>
    d \<in> set (sn_definitions (snapshot now r')) \<and> ad \<in> set (sn_instances (snapshot now r')) \<and>
    revision r' = revision r + 2)"
proof -
  assume ok: "registry_ok r" and d: "definitionFromActor a (ro_version opt) = Inr d"
  let ?ad = "advertisement_of a opt d" and ?r1 = "snd (registerDefinition d r)"
  let ?r' = "snd (changed (?r1\<lparr>r_instances := AList.update (ai_instanceId ?ad) ?ad (r_instances ?r1)\<rparr>))"
  have eq: "registerActor a opt r = (Inr ?ad, ?r')"
    unfolding registerActor_eq d advertiseInstance_eq using own_capabilities by simp
  have ok': "registry_ok ?r'"
    using ok_advertise [OF ok_definition [OF ok], of ?ad d] own_capabilities by (simp add: advertiseInstance_eq)
  have defs: "map_of (r_definitions ?r') (ad_ref d) = Some d" "map_of (r_instances ?r') (ra_uuid a) = Some ?ad"
    by (simp_all add: registerDefinition_def changed_def advertisement_of_def)
  moreover have "d \<in> set (map_values (r_definitions ?r'))"
    using ok' defs(1) keyed_values [of ad_ref _ "r_definitions ?r'" d] unfolding registry_ok_def by blast
  moreover have "?ad \<in> set (map_values (r_instances ?r'))"
  proof -
    have "ai_instanceId ?ad = ra_uuid a" by (simp add: advertisement_of_def)
    with defs(2) have "map_of (r_instances ?r') (ai_instanceId ?ad) = Some ?ad" by simp
    with ok' keyed_values [of ai_instanceId _ "r_instances ?r'" ?ad] show ?thesis
      unfolding registry_ok_def by blast
  qed
  moreover have "revision ?r' = revision r + 2"
    by (simp add: registerDefinition_def changed_def)
  ultimately show ?thesis
    unfolding eq fst_conv snd_conv Let_def definition_at_def instance_at_def snapshot_def ActorRegistrySnapshot.simps by blast
qed

definition demo_method :: "string \<Rightarrow> Predicate list \<Rightarrow> Predicate list \<Rightarrow> MethodSpec" where
  "demo_method name rs ps =
     \<lparr>ms_name = name, ms_description = [], ms_parameters = [], ms_mode = None, ms_idempotency = None, ms_cost = None,
      ms_requires = Some rs, ms_produces = Some ps, ms_inputSlots = None, ms_outputSlots = None,
      ms_event = None, ms_hitl = None\<rparr>"

definition demo_manifest :: Manifest where
  "demo_manifest =
     \<lparr>m_id = ''ocr'', m_authority = ''aven'', m_namespace = ''docs'', m_version = ''1'', m_name = ''OCR'',
      m_description = [], m_tags = [], m_methods = [demo_method ''read'' [''file(D)''] [''text(D, T)'']],
      m_requires = None, m_produces = None, m_llm = NoLlm, m_capabilities = None, m_machine = None,
      m_logic = None, m_source = None\<rparr>"

definition demo_registrable :: registrable where
  "demo_registrable =
     \<lparr>ra_manifest = demo_manifest, ra_requires = [], ra_produces = [], ra_uuid = ''u1'', ra_instanceName = ''OCR''\<rparr>"

definition plain_register :: RegisterActorOptions where
  "plain_register =
     \<lparr>ro_version = None, ro_label = None, ro_status = None, ro_executionEnvironment = None, ro_locality = None,
      ro_trustDomain = None, ro_cost = None, ro_latencyMs = None, ro_expiresAt = None, ro_metadata = None\<rparr>"

definition demo_definition :: ActorDefinition where
  "demo_definition = projr (definitionFromActor demo_registrable None)"

lemma demo_definition_Inr: "definitionFromActor demo_registrable (ro_version plain_register) = Inr demo_definition"
proof -
  have "\<not> isl (definitionFromActor demo_registrable None)" by code_simp
  then show ?thesis
    by (cases "definitionFromActor demo_registrable None") (simp_all add: demo_definition_def plain_register_def)
qed

theorem registerActor_discoverable_witness:
  "instance_at (snd (registerActor demo_registrable plain_register newRegistry)) ''u1'' =
   Some (advertisement_of demo_registrable plain_register demo_definition)"
  using registerActor_discoverable [OF registry_ok_new demo_definition_Inr]
  unfolding Let_def by (simp add: demo_registrable_def)

end
