(* ===== verification/Authorization.thy ===== *)
theory Authorization
  imports Registry
begin

text \<open>
  libs/aven-actors/src/authorization.ts: the projection of a registry snapshot that one principal may plan
  with.  The authorizer is an outside service; it is a parameter, a stateful computation that may also
  throw, and every question it is asked is recorded with its answer.
\<close>

datatype principal_kind = Anonymous | User | Service

record ActorPrincipal =
  subjectId :: string
  principal_kind :: principal_kind
  assurance :: "string list"
  sessionId :: "string option"

record ActorAccessContext =
  tenantId :: "string option"
  entitlements :: "string list option"
  artifactGrantIds :: "string list option"

datatype ActorAuthorizationAction = Discover | Plan | Spawn | Invoke

record ActorAuthorizationInput =
  az_slot :: string
  az_role :: string
  az_artifactId :: string
  az_predicate :: Predicate
  az_schema :: string
  az_typeKey :: string
  az_schemaVersion :: int
  az_contentDigest :: string

datatype request_target = InstanceTarget string | FactoryTarget string string

record ActorAuthorizationRequest =
  rq_action :: ActorAuthorizationAction
  rq_principal :: ActorPrincipal
  rq_access :: ActorAccessContext
  rq_definitionRef :: string
  rq_capabilityId :: "string option"
  rq_method :: "string option"
  rq_target :: "request_target option"
  rq_configuration :: "json_record option"
  rq_inputs :: "ActorAuthorizationInput list option"
  rq_runId :: "string option"
  rq_resource :: "json_record option"

record AuthorizationConstraints =
  configurationSchema :: "json_record option"
  forcedConfiguration :: "json_record option"
  maxUses :: "nat option"

record Grant =
  gr_decisionId :: string
  gr_expiresAt :: "string option"
  gr_constraints :: "AuthorizationConstraints option"
  gr_obligations :: "string list option"

datatype ActorAuthorizationDecision = Allow Grant | Deny string string

type_synonym 'w authorizer = "ActorAuthorizationRequest \<Rightarrow> ('w, ActorAuthorizationDecision) io"

record InstanceChoice =
  ic_instanceId :: string
  ic_definitionRef :: string
  ic_address :: ActorAddress
  ic_executionEnvironment :: ExecutionEnvironment
  ic_cost :: int
  ic_latencyMs :: "int option"
  ic_authorization :: Grant

record FactoryChoice =
  fc_offerId :: string
  fc_factoryId :: string
  fc_definitionRef :: string
  fc_configuration :: json_record
  fc_executionEnvironment :: ExecutionEnvironment
  fc_cost :: int
  fc_latencyMs :: "int option"
  fc_authorization :: Grant

datatype AuthorizedActorTarget = OnInstance InstanceChoice | FromFactory FactoryChoice

fun target_cost :: "AuthorizedActorTarget \<Rightarrow> int" where
  "target_cost (OnInstance i) = ic_cost i"
| "target_cost (FromFactory f) = fc_cost f"

fun target_environment :: "AuthorizedActorTarget \<Rightarrow> ExecutionEnvironment" where
  "target_environment (OnInstance i) = ic_executionEnvironment i"
| "target_environment (FromFactory f) = fc_executionEnvironment f"

fun target_definition :: "AuthorizedActorTarget \<Rightarrow> string" where
  "target_definition (OnInstance i) = ic_definitionRef i"
| "target_definition (FromFactory f) = fc_definitionRef f"

record AuthorizedCapability =
  ac_capability :: Capability
  ac_targets :: "AuthorizedActorTarget list"

record AuthorizedRegistryView =
  v_registryRevision :: nat
  v_capturedAt :: string
  v_principal :: ActorPrincipal
  v_access :: ActorAccessContext
  v_capabilities :: "AuthorizedCapability list"

record PlanningAuthorizationOptions =
  po_access :: "ActorAccessContext option"
  po_configurationByOffer :: "(string, json_record) jsmap"
  po_resource :: "json_record option"

definition no_access :: ActorAccessContext where
  "no_access = \<lparr>tenantId = None, entitlements = None, artifactGrantIds = None\<rparr>"

text \<open>Times are ISO strings, compared by code unit.\<close>

definition usableInstance :: "ActorInstanceAdvertisement \<Rightarrow> string \<Rightarrow> bool" where
  "usableInstance i capturedAt \<longleftrightarrow>
     ai_status i = Available \<and> (case truthy (ai_expiresAt i) of None \<Rightarrow> True | Some t \<Rightarrow> capturedAt < t)"

definition factoryTarget :: "ActorFactoryOffer \<Rightarrow> json_record \<Rightarrow> Grant \<Rightarrow> AuthorizedActorTarget" where
  "factoryTarget off configuration grant =
     FromFactory \<lparr>fc_offerId = ao_offerId off, fc_factoryId = ao_factoryId off, fc_definitionRef = ao_definitionRef off,
       fc_configuration = spread configuration
         (case gr_constraints grant of None \<Rightarrow> [] | Some c \<Rightarrow> orelse (forcedConfiguration c) []),
       fc_executionEnvironment = ao_executionEnvironment off, fc_cost = orelse (ao_cost off) 0,
       fc_latencyMs = ao_latencyMs off, fc_authorization = grant\<rparr>"

definition instanceTarget :: "string \<Rightarrow> ActorInstanceAdvertisement \<Rightarrow> Grant \<Rightarrow> AuthorizedActorTarget" where
  "instanceTarget ref i grant =
     OnInstance \<lparr>ic_instanceId = ai_instanceId i, ic_definitionRef = ref, ic_address = ai_address i,
       ic_executionEnvironment = ai_executionEnvironment i, ic_cost = orelse (ai_cost i) 0,
       ic_latencyMs = ai_latencyMs i, ic_authorization = grant\<rparr>"

fun targetId :: "AuthorizedActorTarget \<Rightarrow> string" where
  "targetId (OnInstance i) = ic_instanceId i"
| "targetId (FromFactory f) = fc_offerId f"

definition compareTargets :: "collation \<Rightarrow> AuthorizedActorTarget \<Rightarrow> AuthorizedActorTarget \<Rightarrow> int" where
  "compareTargets ck l r = or_else (target_cost l - target_cost r) (localeCompare ck (targetId l) (targetId r))"

interpretation target_order: comparator "compareTargets ck" for ck
proof
  have le: "compareTargets ck x y \<le> 0 \<longleftrightarrow> target_cost x < target_cost y \<or>
      target_cost x = target_cost y \<and> ck (targetId x) \<le> ck (targetId y)" for x y
    by (auto simp: compareTargets_def or_else_def localeCompare_le)
  show "compareTargets ck x y \<le> 0 \<or> compareTargets ck y x \<le> 0" for x y
    unfolding le using linear [of "ck (targetId x)" "ck (targetId y)"] by linarith
  show "compareTargets ck x y \<le> 0 \<Longrightarrow> compareTargets ck y z \<le> 0 \<Longrightarrow> compareTargets ck x z \<le> 0" for x y z
    unfolding le using order_trans [of "ck (targetId x)" "ck (targetId y)" "ck (targetId z)"] by linarith
qed

lemma targets_sorted: "sorted_wrt (\<lambda>l r. target_cost l \<le> target_cost r) (sort_by (compareTargets ck) ts)"
  by (rule sorted_wrt_mono_rel [OF _ target_order.sorted_sort [of ck]])
    (auto simp: compareTargets_def or_else_def split: if_splits)

section \<open>The questions asked\<close>

definition planning_request :: "ActorAuthorizationAction \<Rightarrow> ActorPrincipal \<Rightarrow> PlanningAuthorizationOptions \<Rightarrow>
    string \<Rightarrow> Capability \<Rightarrow> request_target option \<Rightarrow> json_record option \<Rightarrow> ActorAuthorizationRequest" where
  "planning_request action who options ref cap target configuration =
     \<lparr>rq_action = action, rq_principal = who, rq_access = orelse (po_access options) no_access,
      rq_definitionRef = ref, rq_capabilityId = Some (c_id cap), rq_method = Some (c_method cap),
      rq_target = target, rq_configuration = configuration, rq_inputs = None, rq_runId = None,
      rq_resource = po_resource options\<rparr>"

datatype answer = Answered ActorAuthorizationRequest "ActorAuthorizationDecision res"

type_synonym ('w, 'a) asking = "(answer list \<times> 'w, 'a) io"

definition ask :: "'w authorizer \<Rightarrow> ActorAuthorizationRequest \<Rightarrow> ('w, ActorAuthorizationDecision) asking" where
  "ask decide rq = call (decide rq) (Answered rq)"

definition offer_configuration :: "PlanningAuthorizationOptions \<Rightarrow> ActorFactoryOffer \<Rightarrow> json_record" where
  "offer_configuration options off =
     orelse (map_of (po_configurationByOffer options) (ao_offerId off)) (orelse (ao_defaultConfiguration off) [])"

definition instance_body :: "'w authorizer \<Rightarrow> ActorPrincipal \<Rightarrow> PlanningAuthorizationOptions \<Rightarrow> string \<Rightarrow> Capability \<Rightarrow>
    ActorInstanceAdvertisement \<Rightarrow> AuthorizedActorTarget list \<Rightarrow> ('w, AuthorizedActorTarget list) asking" where
  "instance_body decide who options ref cap i targets =
     bind_io (ask decide (planning_request Plan who options ref cap (Some (InstanceTarget (ai_instanceId i))) None))
       (\<lambda>decision. case decision of
          Deny _ _ \<Rightarrow> return targets
        | Allow grant \<Rightarrow> return (targets @ [instanceTarget ref i grant]))"

definition offer_body :: "'w authorizer \<Rightarrow> ActorPrincipal \<Rightarrow> PlanningAuthorizationOptions \<Rightarrow> string \<Rightarrow> Capability \<Rightarrow>
    ActorFactoryOffer \<Rightarrow> AuthorizedActorTarget list \<Rightarrow> ('w, AuthorizedActorTarget list) asking" where
  "offer_body decide who options ref cap off targets =
     (let configuration = offer_configuration options off in
      bind_io (ask decide (planning_request Plan who options ref cap
                 (Some (FactoryTarget (ao_offerId off) (ao_factoryId off))) (Some configuration)))
       (\<lambda>decision. case decision of
          Deny _ _ \<Rightarrow> return targets
        | Allow grant \<Rightarrow> return (targets @ [factoryTarget off configuration grant])))"

definition capability_body :: "collation \<Rightarrow> ActorRegistrySnapshot \<Rightarrow> 'w authorizer \<Rightarrow> ActorPrincipal \<Rightarrow>
    PlanningAuthorizationOptions \<Rightarrow> string \<Rightarrow> Capability \<Rightarrow> AuthorizedCapability list \<Rightarrow>
    ('w, AuthorizedCapability list) asking" where
  "capability_body ck sn decide who options ref cap capabilities =
     bind_io (ask decide (planning_request Discover who options ref cap None None)) (\<lambda>visible.
     case visible of
       Deny _ _ \<Rightarrow> return capabilities
     | Allow _ \<Rightarrow>
         bind_io (for_io (instance_body decide who options ref cap)
           (filter (\<lambda>i. ai_definitionRef i = ref \<and> c_id cap \<in> set (ai_capabilityIds i) \<and>
              usableInstance i (sn_capturedAt sn)) (sn_instances sn)) []) (\<lambda>targets.
         bind_io (for_io (offer_body decide who options ref cap)
           (filter (\<lambda>off. ao_definitionRef off = ref \<and> c_id cap \<in> set (ao_capabilityIds off)) (sn_offers sn))
           targets) (\<lambda>targets'.
         return (if targets' = [] then capabilities
           else capabilities @ [\<lparr>ac_capability = cap, ac_targets = sort_by (compareTargets ck) targets'\<rparr>]))))"

definition definition_body :: "collation \<Rightarrow> ActorRegistrySnapshot \<Rightarrow> 'w authorizer \<Rightarrow> ActorPrincipal \<Rightarrow>
    PlanningAuthorizationOptions \<Rightarrow> ActorDefinition \<Rightarrow> AuthorizedCapability list \<Rightarrow>
    ('w, AuthorizedCapability list) asking" where
  "definition_body ck sn decide who options d =
     for_io (capability_body ck sn decide who options (ad_ref d)) (ad_capabilities d)"

definition authorizeRegistryForPlanning :: "collation \<Rightarrow> ActorRegistrySnapshot \<Rightarrow> ActorPrincipal \<Rightarrow> 'w authorizer \<Rightarrow>
    PlanningAuthorizationOptions \<Rightarrow> ('w, AuthorizedRegistryView) asking" where
  "authorizeRegistryForPlanning ck sn who decide options =
     bind_io (for_io (definition_body ck sn decide who options) (sn_definitions sn) []) (\<lambda>capabilities.
     return \<lparr>v_registryRevision = sn_revision sn, v_capturedAt = sn_capturedAt sn, v_principal = who,
       v_access = orelse (po_access options) no_access, v_capabilities = capabilities\<rparr>)"

section \<open>What the view contains\<close>

definition allowed :: "ActorAuthorizationRequest \<Rightarrow> Grant \<Rightarrow> answer list \<Rightarrow> bool" where
  "allowed rq grant tr \<longleftrightarrow> Answered rq (Inr (Allow grant)) \<in> set tr"

text \<open>The target is a usable instance of the definition, or one of its offers with its configuration, and the
  authorizer answered the very question about it with the grant it carries.\<close>

definition target_ok :: "ActorRegistrySnapshot \<Rightarrow> ActorPrincipal \<Rightarrow> PlanningAuthorizationOptions \<Rightarrow> string \<Rightarrow> Capability \<Rightarrow>
    AuthorizedActorTarget \<Rightarrow> answer list \<Rightarrow> bool" where
  "target_ok sn who options ref cap t tr \<longleftrightarrow>
     (\<exists>i\<in>set (sn_instances sn). \<exists>grant. ai_definitionRef i = ref \<and> c_id cap \<in> set (ai_capabilityIds i) \<and>
        usableInstance i (sn_capturedAt sn) \<and> t = instanceTarget ref i grant \<and>
        allowed (planning_request Plan who options ref cap (Some (InstanceTarget (ai_instanceId i))) None) grant tr) \<or>
     (\<exists>off\<in>set (sn_offers sn). \<exists>grant. ao_definitionRef off = ref \<and> c_id cap \<in> set (ao_capabilityIds off) \<and>
        t = factoryTarget off (offer_configuration options off) grant \<and>
        allowed (planning_request Plan who options ref cap (Some (FactoryTarget (ao_offerId off) (ao_factoryId off)))
          (Some (offer_configuration options off))) grant tr)"

definition capability_ok :: "ActorRegistrySnapshot \<Rightarrow> ActorPrincipal \<Rightarrow> PlanningAuthorizationOptions \<Rightarrow>
    AuthorizedCapability \<Rightarrow> answer list \<Rightarrow> bool" where
  "capability_ok sn who options ac tr \<longleftrightarrow>
     (\<exists>d\<in>set (sn_definitions sn). ac_capability ac \<in> set (ad_capabilities d) \<and>
        (\<exists>grant. allowed (planning_request Discover who options (ad_ref d) (ac_capability ac) None None) grant tr) \<and>
        (\<forall>t\<in>set (ac_targets ac). target_ok sn who options (ad_ref d) (ac_capability ac) t tr)) \<and>
     ac_targets ac \<noteq> [] \<and> sorted_wrt (\<lambda>l r. target_cost l \<le> target_cost r) (ac_targets ac)"

lemma allowed_grows: "allowed rq g tr \<Longrightarrow> allowed rq g (tr @ [e])"
  by (simp add: allowed_def)

lemma target_ok_grows: "target_ok sn who options ref cap t tr \<Longrightarrow> target_ok sn who options ref cap t (tr @ [e])"
  unfolding target_ok_def using allowed_grows by blast

lemma capability_ok_grows: "capability_ok sn who options ac tr \<Longrightarrow> capability_ok sn who options ac (tr @ [e])"
  unfolding capability_ok_def using allowed_grows target_ok_grows by blast

definition view_inv :: "ActorRegistrySnapshot \<Rightarrow> ActorPrincipal \<Rightarrow> PlanningAuthorizationOptions \<Rightarrow>
    AuthorizedCapability list \<Rightarrow> answer list \<Rightarrow> bool" where
  "view_inv sn who options acs tr \<longleftrightarrow> (\<forall>ac\<in>set acs. capability_ok sn who options ac tr)"

text \<open>Within the body of one capability: it was found visible, and the targets so far are authorized.\<close>

definition targets_inv :: "ActorRegistrySnapshot \<Rightarrow> ActorPrincipal \<Rightarrow> PlanningAuthorizationOptions \<Rightarrow> string \<Rightarrow> Capability \<Rightarrow>
    AuthorizedCapability list \<Rightarrow> AuthorizedActorTarget list \<Rightarrow> answer list \<Rightarrow> bool" where
  "targets_inv sn who options ref cap acs ts tr \<longleftrightarrow>
     view_inv sn who options acs tr \<and>
     (\<exists>grant. allowed (planning_request Discover who options ref cap None None) grant tr) \<and>
     (\<forall>t\<in>set ts. target_ok sn who options ref cap t tr)"

lemma view_inv_stable: "stable (view_inv sn who options acs)"
  using capability_ok_grows by (auto simp: stable_def view_inv_def)

lemma targets_inv_stable: "stable (targets_inv sn who options ref cap acs ts)"
  using view_inv_stable target_ok_grows allowed_grows unfolding stable_def targets_inv_def by blast

lemma targets_inv_snoc: "targets_inv sn who options ref cap acs (ts @ [t]) tr \<longleftrightarrow>
  targets_inv sn who options ref cap acs ts tr \<and> target_ok sn who options ref cap t tr"
  by (auto simp: targets_inv_def)

lemma target_ok_instance:
  "i \<in> set (sn_instances sn) \<Longrightarrow> ai_definitionRef i = ref \<Longrightarrow> c_id cap \<in> set (ai_capabilityIds i) \<Longrightarrow>
   usableInstance i (sn_capturedAt sn) \<Longrightarrow>
   Answered (planning_request Plan who options ref cap (Some (InstanceTarget (ai_instanceId i))) None) (Inr (Allow grant)) \<in> set tr \<Longrightarrow>
   target_ok sn who options ref cap (instanceTarget ref i grant) tr"
  unfolding target_ok_def allowed_def by blast

lemma target_ok_offer:
  "off \<in> set (sn_offers sn) \<Longrightarrow> ao_definitionRef off = ref \<Longrightarrow> c_id cap \<in> set (ao_capabilityIds off) \<Longrightarrow>
   Answered (planning_request Plan who options ref cap (Some (FactoryTarget (ao_offerId off) (ao_factoryId off)))
     (Some (offer_configuration options off))) (Inr (Allow grant)) \<in> set tr \<Longrightarrow>
   target_ok sn who options ref cap (factoryTarget off (offer_configuration options off) grant) tr"
  unfolding target_ok_def allowed_def by blast

lemma instance_body_ok:
  assumes "i \<in> set (sn_instances sn)" "ai_definitionRef i = ref" "c_id cap \<in> set (ai_capabilityIds i)"
    "usableInstance i (sn_capturedAt sn)"
  shows "triple (on_trace (targets_inv sn who options ref cap acs ts)) (instance_body decide who options ref cap i ts)
    (\<lambda>ts'. on_trace (targets_inv sn who options ref cap acs ts')) (\<lambda>_ _. True)"
  unfolding instance_body_def ask_def
  apply (rule triple_bind_call [OF targets_inv_stable TrueI])
  subgoal for x
    using assms by (cases x) (auto intro!: triple_return intro: target_ok_instance simp: on_trace_def targets_inv_snoc)
  done

lemma offer_body_ok:
  assumes "off \<in> set (sn_offers sn)" "ao_definitionRef off = ref" "c_id cap \<in> set (ao_capabilityIds off)"
  shows "triple (on_trace (targets_inv sn who options ref cap acs ts)) (offer_body decide who options ref cap off ts)
    (\<lambda>ts'. on_trace (targets_inv sn who options ref cap acs ts')) (\<lambda>_ _. True)"
  unfolding offer_body_def ask_def Let_def
  apply (rule triple_bind_call [OF targets_inv_stable TrueI])
  subgoal for x
    using assms by (cases x) (auto intro!: triple_return intro: target_ok_offer simp: on_trace_def targets_inv_snoc)
  done

lemma capability_body_ok:
  assumes "d \<in> set (sn_definitions sn)" "cap \<in> set (ad_capabilities d)"
  shows "triple (on_trace (view_inv sn who options acs)) (capability_body ck sn decide who options (ad_ref d) cap acs)
    (\<lambda>acs'. on_trace (view_inv sn who options acs')) (\<lambda>_ _. True)"
  unfolding capability_body_def ask_def
proof (rule triple_bind_call [OF view_inv_stable TrueI])
  fix visible
  let ?rq = "planning_request Discover who options (ad_ref d) cap None None"
  let ?T = "targets_inv sn who options (ad_ref d) cap acs"
  show "triple (on_trace (\<lambda>tr. view_inv sn who options acs tr \<and> Answered ?rq (Inr visible) \<in> set tr))
    (case visible of Deny _ _ \<Rightarrow> return acs
     | Allow _ \<Rightarrow>
         bind_io (for_io (instance_body decide who options (ad_ref d) cap)
           (filter (\<lambda>i. ai_definitionRef i = ad_ref d \<and> c_id cap \<in> set (ai_capabilityIds i) \<and>
              usableInstance i (sn_capturedAt sn)) (sn_instances sn)) []) (\<lambda>targets.
         bind_io (for_io (offer_body decide who options (ad_ref d) cap)
           (filter (\<lambda>off. ao_definitionRef off = ad_ref d \<and> c_id cap \<in> set (ao_capabilityIds off)) (sn_offers sn))
           targets) (\<lambda>targets'.
         return (if targets' = [] then acs
           else acs @ [\<lparr>ac_capability = cap, ac_targets = sort_by (compareTargets ck) targets'\<rparr>]))))
    (\<lambda>acs'. on_trace (view_inv sn who options acs')) (\<lambda>_ _. True)"
  proof (cases visible)
    case (Deny a b)
    then show ?thesis by (auto intro!: triple_return simp: on_trace_def)
  next
    case (Allow grant)
    have fin: "view_inv sn who options
        (if ts = [] then acs else acs @ [\<lparr>ac_capability = cap, ac_targets = sort_by (compareTargets ck) ts\<rparr>]) tr"
      if "?T ts tr" for ts tr
    proof (cases "ts = []")
      case False
      with that assms targets_sorted [of ck ts]
      have "capability_ok sn who options \<lparr>ac_capability = cap, ac_targets = sort_by (compareTargets ck) ts\<rparr> tr"
        unfolding targets_inv_def capability_ok_def by auto
      with that False show ?thesis by (auto simp: targets_inv_def view_inv_def)
    qed (use that in \<open>simp add: targets_inv_def\<close>)
    have "triple (on_trace (?T [])) (bind_io (for_io (instance_body decide who options (ad_ref d) cap)
           (filter (\<lambda>i. ai_definitionRef i = ad_ref d \<and> c_id cap \<in> set (ai_capabilityIds i) \<and>
              usableInstance i (sn_capturedAt sn)) (sn_instances sn)) []) (\<lambda>targets.
         bind_io (for_io (offer_body decide who options (ad_ref d) cap)
           (filter (\<lambda>off. ao_definitionRef off = ad_ref d \<and> c_id cap \<in> set (ao_capabilityIds off)) (sn_offers sn))
           targets) (\<lambda>targets'.
         return (if targets' = [] then acs
           else acs @ [\<lparr>ac_capability = cap, ac_targets = sort_by (compareTargets ck) targets'\<rparr>]))))
      (\<lambda>acs'. on_trace (view_inv sn who options acs')) (\<lambda>_ _. True)"
      by (rule triple_bind [OF triple_for [of _ "\<lambda>ts. on_trace (?T ts)"]], rule instance_body_ok, simp_all,
          rule triple_bind [OF triple_for [of _ "\<lambda>ts. on_trace (?T ts)"]], rule offer_body_ok, simp_all)
        (use fin in \<open>fastforce intro!: triple_return simp: on_trace_def\<close>)
    with Allow show ?thesis
      by (auto intro: triple_weaken simp: on_trace_def targets_inv_def allowed_def)
  qed
qed

lemma authorize_ok:
  "triple (on_trace (\<lambda>tr. tr = [])) (authorizeRegistryForPlanning ck sn who decide options)
     (\<lambda>v. on_trace (view_inv sn who options (v_capabilities v))) (\<lambda>_ _. True)"
proof -
  have "triple (on_trace (view_inv sn who options [])) (authorizeRegistryForPlanning ck sn who decide options)
     (\<lambda>v. on_trace (view_inv sn who options (v_capabilities v))) (\<lambda>_ _. True)"
    unfolding authorizeRegistryForPlanning_def definition_body_def
    by (rule triple_bind [OF triple_for [of _ "\<lambda>acs. on_trace (view_inv sn who options acs)"]],
        rule triple_for, rule capability_body_ok) (auto intro!: triple_return)
  then show ?thesis by (rule triple_weaken) (auto simp: on_trace_def view_inv_def)
qed

section \<open>A policy without state\<close>

definition of_policy :: "(ActorAuthorizationRequest \<Rightarrow> ActorAuthorizationDecision) \<Rightarrow> 'w authorizer" where
  "of_policy D rq = return (D rq)"

definition granted :: "(Grant \<Rightarrow> 'a) \<Rightarrow> ActorAuthorizationDecision \<Rightarrow> 'a list" where
  "granted f d = (case d of Allow grant \<Rightarrow> [f grant] | Deny _ _ \<Rightarrow> [])"

definition policy_targets :: "ActorRegistrySnapshot \<Rightarrow> (ActorAuthorizationRequest \<Rightarrow> ActorAuthorizationDecision) \<Rightarrow>
    ActorPrincipal \<Rightarrow> PlanningAuthorizationOptions \<Rightarrow> string \<Rightarrow> Capability \<Rightarrow> AuthorizedActorTarget list" where
  "policy_targets sn D who options ref cap =
     concat (map (\<lambda>i. granted (instanceTarget ref i)
         (D (planning_request Plan who options ref cap (Some (InstanceTarget (ai_instanceId i))) None)))
       (filter (\<lambda>i. ai_definitionRef i = ref \<and> c_id cap \<in> set (ai_capabilityIds i) \<and>
          usableInstance i (sn_capturedAt sn)) (sn_instances sn))) @
     concat (map (\<lambda>off. granted (factoryTarget off (offer_configuration options off))
         (D (planning_request Plan who options ref cap (Some (FactoryTarget (ao_offerId off) (ao_factoryId off)))
            (Some (offer_configuration options off)))))
       (filter (\<lambda>off. ao_definitionRef off = ref \<and> c_id cap \<in> set (ao_capabilityIds off)) (sn_offers sn)))"

definition policy_capability :: "collation \<Rightarrow> ActorRegistrySnapshot \<Rightarrow> (ActorAuthorizationRequest \<Rightarrow> ActorAuthorizationDecision) \<Rightarrow>
    ActorPrincipal \<Rightarrow> PlanningAuthorizationOptions \<Rightarrow> string \<Rightarrow> Capability \<Rightarrow> AuthorizedCapability list" where
  "policy_capability ck sn D who options ref cap =
     (case D (planning_request Discover who options ref cap None None) of
        Deny _ _ \<Rightarrow> []
      | Allow _ \<Rightarrow>
          (let ts = policy_targets sn D who options ref cap in
           if ts = [] then [] else [\<lparr>ac_capability = cap, ac_targets = sort_by (compareTargets ck) ts\<rparr>]))"

lemma ask_policy: "ask (of_policy D) rq (tr, w) = (Inr (D rq), (tr @ [Answered rq (Inr (D rq))], w))"
  by (simp add: ask_def call_def of_policy_def return_def)

lemma instance_body_policy:
  "\<exists>tr'. instance_body (of_policy D) who options ref cap i ts (tr, w) =
     (Inr (ts @ granted (instanceTarget ref i)
        (D (planning_request Plan who options ref cap (Some (InstanceTarget (ai_instanceId i))) None))), (tr', w))"
  by (simp add: instance_body_def bind_io_def ask_policy granted_def return_def split: ActorAuthorizationDecision.splits)

lemma offer_body_policy:
  "\<exists>tr'. offer_body (of_policy D) who options ref cap off ts (tr, w) =
     (Inr (ts @ granted (factoryTarget off (offer_configuration options off))
        (D (planning_request Plan who options ref cap (Some (FactoryTarget (ao_offerId off) (ao_factoryId off)))
            (Some (offer_configuration options off))))), (tr', w))"
  by (simp add: offer_body_def Let_def bind_io_def ask_policy granted_def return_def split: ActorAuthorizationDecision.splits)

lemma capability_body_policy:
  "\<exists>tr'. capability_body ck sn (of_policy D) who options ref cap acs (tr, w) =
     (Inr (acs @ policy_capability ck sn D who options ref cap), (tr', w))"
proof (cases "D (planning_request Discover who options ref cap None None)")
  case (Allow grant)
  let ?is = "filter (\<lambda>i. ai_definitionRef i = ref \<and> c_id cap \<in> set (ai_capabilityIds i) \<and>
          usableInstance i (sn_capturedAt sn)) (sn_instances sn)"
  let ?os = "filter (\<lambda>off. ao_definitionRef off = ref \<and> c_id cap \<in> set (ao_capabilityIds off)) (sn_offers sn)"
  let ?gi = "\<lambda>i. granted (instanceTarget ref i)
         (D (planning_request Plan who options ref cap (Some (InstanceTarget (ai_instanceId i))) None))"
  let ?go = "\<lambda>off. granted (factoryTarget off (offer_configuration options off))
         (D (planning_request Plan who options ref cap (Some (FactoryTarget (ao_offerId off) (ao_factoryId off)))
            (Some (offer_configuration options off))))"
  have "\<exists>tr1. for_io (instance_body (of_policy D) who options ref cap) ?is [] (tr0, w) =
      (Inr ([] @ concat (map ?gi ?is)), (tr1, w))" for tr0
    by (rule for_io_appends) (rule instance_body_policy)
  then obtain tr1 where 1: "for_io (instance_body (of_policy D) who options ref cap) ?is []
      (tr @ [Answered (planning_request Discover who options ref cap None None) (Inr (Allow grant))], w) =
      (Inr (concat (map ?gi ?is)), (tr1, w))" by auto
  have "\<exists>tr2. for_io (offer_body (of_policy D) who options ref cap) ?os (concat (map ?gi ?is)) (tr1, w) =
      (Inr (concat (map ?gi ?is) @ concat (map ?go ?os)), (tr2, w))"
    by (rule for_io_appends) (rule offer_body_policy)
  then obtain tr2 where 2: "for_io (offer_body (of_policy D) who options ref cap) ?os (concat (map ?gi ?is)) (tr1, w) =
      (Inr (policy_targets sn D who options ref cap), (tr2, w))"
    unfolding policy_targets_def by blast
  show ?thesis
    using 1 2 Allow by (simp add: capability_body_def bind_io_def ask_policy policy_capability_def return_def Let_def)
qed (simp add: capability_body_def bind_io_def ask_policy policy_capability_def return_def)

lemma authorize_policy:
  "\<exists>tr'. authorizeRegistryForPlanning ck sn who (of_policy D) options (tr, w) =
     (Inr \<lparr>v_registryRevision = sn_revision sn, v_capturedAt = sn_capturedAt sn, v_principal = who,
        v_access = orelse (po_access options) no_access,
        v_capabilities = concat (map (\<lambda>d. concat (map (policy_capability ck sn D who options (ad_ref d)) (ad_capabilities d)))
          (sn_definitions sn))\<rparr>, (tr', w))"
proof -
  let ?g = "\<lambda>d. concat (map (policy_capability ck sn D who options (ad_ref d)) (ad_capabilities d))"
  have "\<exists>tr'. definition_body ck sn (of_policy D) who options d acs (tr0, w) = (Inr (acs @ ?g d), (tr', w))" for d acs tr0
    unfolding definition_body_def by (rule for_io_appends) (rule capability_body_policy)
  then have "\<exists>tr'. for_io (definition_body ck sn (of_policy D) who options) (sn_definitions sn) [] (tr, w) =
      (Inr ([] @ concat (map ?g (sn_definitions sn))), (tr', w))"
    by (intro for_io_appends)
  then show ?thesis
    unfolding authorizeRegistryForPlanning_def by (auto simp: bind_io_def return_def)
qed

section \<open>Properties\<close>

text \<open>C22. Whatever the authorizer is, a planning view holds only capabilities of registered definitions for which
  it answered \<open>discover\<close> with a grant, each with at least one target, cheapest first, and every target is a
  usable placement of that definition for which it answered \<open>plan\<close> with exactly the grant the target carries.\<close>

theorem view_authorized:
  "authorizeRegistryForPlanning ck sn who decide options ([], w) = (Inr v, (tr, w')) \<Longrightarrow>
   \<forall>ac\<in>set (v_capabilities v). capability_ok sn who options ac tr"
  using triple_Inr [OF authorize_ok, of "([], w)" ck sn who decide options v "(tr, w')"] by (simp add: view_inv_def)

text \<open>For an authorizer without state the view is complete too: it is the list of all visible capabilities
  with all their allowed targets, in the order of the registry.\<close>

theorem view_complete:
  "\<exists>tr. authorizeRegistryForPlanning ck sn who (of_policy D) options ([], w) =
     (Inr \<lparr>v_registryRevision = sn_revision sn, v_capturedAt = sn_capturedAt sn, v_principal = who,
        v_access = orelse (po_access options) no_access,
        v_capabilities = concat (map (\<lambda>d. concat (map (policy_capability ck sn D who options (ad_ref d)) (ad_capabilities d)))
          (sn_definitions sn))\<rparr>, (tr, w))"
  by (rule authorize_policy)

lemma view_authorized_policy:
  "\<exists>v tr. authorizeRegistryForPlanning ck sn who (of_policy D) options ([], w) = (Inr v, (tr, w)) \<and>
     length (v_capabilities v) = length (concat (map (\<lambda>d. concat (map (policy_capability ck sn D who options (ad_ref d))
        (ad_capabilities d))) (sn_definitions sn)))"
  using authorize_policy [of ck sn who D options "[]" w] by auto

definition demo_grant :: Grant where
  "demo_grant = \<lparr>gr_decisionId = ''d1'', gr_expiresAt = None, gr_constraints = None, gr_obligations = None\<rparr>"

definition demo_principal :: ActorPrincipal where
  "demo_principal = \<lparr>subjectId = ''alice'', principal_kind = User, assurance = [], sessionId = None\<rparr>"

definition plain_planning :: PlanningAuthorizationOptions where
  "plain_planning = \<lparr>po_access = None, po_configurationByOffer = [], po_resource = None\<rparr>"

definition demo_snapshot :: ActorRegistrySnapshot where
  "demo_snapshot = snapshot ''2026'' (snd (registerActor demo_registrable plain_register newRegistry))"

lemma demo_view_length:
  "length (concat (map (\<lambda>d. concat (map (policy_capability (map of_char) demo_snapshot (\<lambda>_. Allow demo_grant) demo_principal
     plain_planning (ad_ref d)) (ad_capabilities d))) (sn_definitions demo_snapshot))) = 1"
  by code_simp

theorem view_authorized_witness:
  "\<exists>v::AuthorizedRegistryView. \<exists>tr. length (v_capabilities v) = 1 \<and>
     (\<forall>ac\<in>set (v_capabilities v). capability_ok demo_snapshot demo_principal plain_planning ac tr)"
proof -
  obtain v tr where v: "authorizeRegistryForPlanning (map of_char) demo_snapshot demo_principal
      (of_policy (\<lambda>_. Allow demo_grant)) plain_planning ([], ()) = (Inr v, (tr, ()))"
    and len: "length (v_capabilities v) = 1"
    using view_authorized_policy [of "map of_char" demo_snapshot demo_principal "\<lambda>_. Allow demo_grant" plain_planning "()"]
    unfolding demo_view_length by blast
  from view_authorized [OF v] len show ?thesis by (intro exI conjI)
qed

end
