(* ===== verification/Planner_Match.thy ===== *)
theory Planner_Match
  imports Planner
begin

text \<open>
  Correctness of \<open>matchRequirements\<close>: it computes the join of the facts against the requirements,
  in order, cut at the match limit; the functor and arity index it builds first is an optimisation
  that loses nothing; and a choice of facts is returned exactly when some valuation makes every
  requirement equal to its fact.
\<close>

section \<open>The reference join\<close>

fun all_matches :: "PlanValue list \<Rightarrow> Predicate list \<Rightarrow> bindings \<Rightarrow> PlanValue list \<Rightarrow> RequirementMatch list" where
  "all_matches facts [] b ins = [\<lparr>rm_bindings = b, rm_inputs = ins\<rparr>]"
| "all_matches facts (r # rs) b ins =
     concat (map (\<lambda>v. case unify r (pv_predicate v) b of
         None \<Rightarrow> []
       | Some nxt \<Rightarrow> all_matches facts rs nxt (ins @ [v])) facts)"

definition cut :: "match_limits \<Rightarrow> 'a list \<Rightarrow> 'a list" where
  "cut L xs = (case maxMatches L of None \<Rightarrow> xs | Some k \<Rightarrow> take k xs)"

definition within :: "match_limits \<Rightarrow> match_state \<Rightarrow> bool" where
  "within L s \<longleftrightarrow> (case maxMatches L of None \<Rightarrow> True | Some k \<Rightarrow> length (matches s) \<le> k)"

lemma cut_no_limits [simp]: "cut no_limits xs = xs"
  by (simp add: cut_def no_limits_def)

lemma cut_append: "cut L (cut L xs @ ys) = cut L (xs @ ys)"
  by (auto simp: cut_def min_def split: option.split)

lemma cut_enough: "enough_matches L s \<Longrightarrow> within L s \<Longrightarrow> cut L (matches s @ xs) = matches s"
  by (auto simp: cut_def enough_matches_def within_def split: option.splits)

lemma cut_within: "within L s \<Longrightarrow> cut L (matches s) = matches s"
  by (auto simp: cut_def within_def split: option.splits)

lemma within_cut: "within L \<lparr>matches = cut L xs, attempts = n\<rparr>"
  by (auto simp: cut_def within_def split: option.splits)

lemma same_matches: "xs = matches s \<Longrightarrow> \<exists>n. Inr s = (Inr \<lparr>matches = xs, attempts = n\<rparr> :: match_state res)"
  by (cases s) auto

lemma unify_same_shape: "unify r p b \<noteq> None \<Longrightarrow> same_shape r p"
  by (auto simp: unify_def same_shape_def Let_def split: if_splits)

lemma candidates_for_eq: "candidates_for facts r = filter (\<lambda>v. same_shape r (pv_predicate v)) facts"
  unfolding candidates_for_def same_shape_def Let_def by (rule filter_cong) auto

lemma concat_map_filter:
  "(\<And>v. v \<in> set xs \<Longrightarrow> \<not> P v \<Longrightarrow> g v = []) \<Longrightarrow> concat (map g (filter P xs)) = concat (map g xs)"
  by (induction xs) auto

abbreviation with_candidates :: "PlanValue list \<Rightarrow> Predicate list \<Rightarrow> (Predicate \<times> PlanValue list) list" where
  "with_candidates facts rs \<equiv> map (\<lambda>r. (r, candidates_for facts r)) rs"

abbreviation join_step :: "PlanValue list \<Rightarrow> Predicate \<Rightarrow> Predicate list \<Rightarrow> bindings \<Rightarrow> PlanValue list \<Rightarrow>
    PlanValue \<Rightarrow> RequirementMatch list" where
  "join_step facts r rs b ins v \<equiv> (case unify r (pv_predicate v) b of
      None \<Rightarrow> [] | Some nxt \<Rightarrow> all_matches facts rs nxt (ins @ [v]))"

lemma try_facts_unlimited:
  assumes A: "maxAttempts L = None"
    and visit: "\<And>b ins s. within L s \<Longrightarrow> \<exists>n. visit L (with_candidates facts rs) b ins s =
          Inr \<lparr>matches = cut L (matches s @ all_matches facts rs b ins), attempts = n\<rparr>"
  shows "within L s \<Longrightarrow> \<exists>n. try_facts L r (with_candidates facts rs) b ins vs s =
    Inr \<lparr>matches = cut L (matches s @ concat (map (join_step facts r rs b ins) vs)), attempts = n\<rparr>"
proof (induction vs arbitrary: s)
  case Nil
  then show ?case using same_matches cut_within by simp
next
  case (Cons v vs)
  let ?s1 = "s\<lparr>attempts := Suc (attempts s)\<rparr>"
  let ?g = "join_step facts r rs b ins"
  show ?case
  proof (cases "enough_matches L s")
    case True
    then show ?thesis using same_matches cut_enough [OF True Cons.prems] by simp
  next
    case False
    have "within L ?s1" using Cons.prems by (simp add: within_def split: option.splits)
    then obtain n where n: "(case unify r (pv_predicate v) b of None \<Rightarrow> Inr ?s1
        | Some nxt \<Rightarrow> visit L (with_candidates facts rs) nxt (ins @ [v]) ?s1) =
        Inr \<lparr>matches = cut L (matches s @ ?g v), attempts = n\<rparr>"
      using visit [of ?s1] cut_within [OF Cons.prems] by (cases "unify r (pv_predicate v) b") (cases s, auto)+
    from Cons.IH [of "\<lparr>matches = cut L (matches s @ ?g v), attempts = n\<rparr>"]
    obtain k where "try_facts L r (with_candidates facts rs) b ins vs
        \<lparr>matches = cut L (matches s @ ?g v), attempts = n\<rparr> =
        Inr \<lparr>matches = cut L (cut L (matches s @ ?g v) @ concat (map ?g vs)), attempts = k\<rparr>"
      using within_cut by auto
    with False n A show ?thesis
      by (simp add: too_many_attempts_def Let_def cut_append)
  qed
qed

lemma visit_unlimited:
  assumes A: "maxAttempts L = None"
  shows "within L s \<Longrightarrow> \<exists>n. visit L (with_candidates facts rs) b ins s =
    Inr \<lparr>matches = cut L (matches s @ all_matches facts rs b ins), attempts = n\<rparr>"
proof (induction rs arbitrary: b ins s)
  case Nil
  show ?case
  proof (cases "enough_matches L s")
    case True
    then show ?thesis using same_matches cut_enough [OF True Nil] by (simp add: visit.simps [of L "[]"])
  next
    case False
    then have "cut L (matches s @ [m]) = matches s @ [m]" for m
      using Nil by (auto simp: cut_def enough_matches_def within_def split: option.splits)
    with False show ?thesis by (intro exI [of _ "attempts s"]) (simp add: visit.simps [of L "[]"])
  qed
next
  case (Cons r rs)
  have "concat (map (join_step facts r rs b ins) (candidates_for facts r)) = all_matches facts (r # rs) b ins"
    unfolding candidates_for_eq using unify_same_shape [of r]
    by (subst concat_map_filter) (force split: option.splits)+
  with try_facts_unlimited [OF A Cons.IH Cons.prems, of r b ins "candidates_for facts r"]
  have *: "\<exists>n. try_facts L r (with_candidates facts rs) b ins (candidates_for facts r) s =
      Inr \<lparr>matches = cut L (matches s @ all_matches facts (r # rs) b ins), attempts = n\<rparr>"
    by simp
  show ?case
  proof (cases "enough_matches L s")
    case True
    then show ?thesis using same_matches cut_enough [OF True Cons.prems]
      by (simp add: visit.simps [of L "_ # _"] del: all_matches.simps)
  next
    case False
    with * show ?thesis by (simp add: visit.simps [of L "_ # _"] del: all_matches.simps)
  qed
qed

text \<open>A run that stays within its attempt budget is the run without a budget; a run that does not, stops.\<close>

lemma visit_budget:
  "(case visit L rest b ins s of Inr s' \<Rightarrow> visit (L\<lparr>maxAttempts := None\<rparr>) rest b ins s = Inr s'
    | Inl e \<Rightarrow> e = SearchLimit \<and> maxAttempts L \<noteq> None)"
  "(case try_facts L r rest b ins vs s of Inr s' \<Rightarrow> try_facts (L\<lparr>maxAttempts := None\<rparr>) r rest b ins vs s = Inr s'
    | Inl e \<Rightarrow> e = SearchLimit \<and> maxAttempts L \<noteq> None)"
proof (induction L rest b ins s and L r rest b ins vs s rule: visit_try_facts.induct)
  case (1 L rest b ins s)
  have e: "enough_matches (L\<lparr>maxAttempts := None\<rparr>) s = enough_matches L s"
    by (simp add: enough_matches_def)
  show ?case
  proof (cases "enough_matches L s \<or> rest = []")
    case True
    then show ?thesis by (auto simp: visit.simps [of L] visit.simps [of "L\<lparr>maxAttempts := None\<rparr>"] e)
  next
    case False
    then obtain r cs rest' where rest: "rest = (r, cs) # rest'" by (cases rest) auto
    from "1.IH" [of "(r, cs)" rest' r cs] False rest show ?thesis
      by (simp add: visit.simps [of L "_ # _"] visit.simps [of "L\<lparr>maxAttempts := None\<rparr>" "_ # _"] e
          split: sum.splits)
  qed
next
  case (2 L requirement rest b ins s)
  then show ?case by simp
next
  case (3 L requirement rest b ins v facts s)
  have e: "enough_matches (L\<lparr>maxAttempts := None\<rparr>) s = enough_matches L s"
    by (simp add: enough_matches_def)
  show ?case
  proof (cases "enough_matches L s \<or> too_many_attempts L (attempts s + 1)")
    case True
    then show ?thesis using e by (auto simp: Let_def too_many_attempts_def split: option.splits)
  next
    case False
    let ?s1 = "s\<lparr>attempts := attempts s + 1\<rparr>"
    have nm: "\<not> too_many_attempts (L\<lparr>maxAttempts := None\<rparr>) (attempts s + 1)"
      by (simp add: too_many_attempts_def)
    show ?thesis
    proof (cases "unify requirement (pv_predicate v) b")
      case None
      with "3.IH"(2) [OF _ refl] False e nm show ?thesis by (simp add: Let_def split: sum.splits)
    next
      case (Some nxt)
      note v = "3.IH"(1) [OF _ refl _ Some] 
      show ?thesis
      proof (cases "visit L rest nxt (ins @ [v]) ?s1")
        case (Inl err)
        with v False Some show ?thesis by (simp add: Let_def)
      next
        case (Inr s2)
        with v False have "visit (L\<lparr>maxAttempts := None\<rparr>) rest nxt (ins @ [v]) ?s1 = Inr s2" by simp
        with "3.IH"(2) [OF _ refl] False Some Inr e nm show ?thesis
          by (simp add: Let_def split: sum.splits)
      qed
    qed
  qed
qed

lemma matchRequirements_spec:
  assumes "maxMatches L \<noteq> Some 0"
  shows "case matchRequirements L rs facts of
     Inr ms \<Rightarrow> ms = cut L (all_matches facts rs [] [])
   | Inl e \<Rightarrow> e = SearchLimit \<and> maxAttempts L \<noteq> None"
proof (cases "rs = []")
  case True
  have "cut L [m] = [m]" for m :: RequirementMatch
    using assms by (cases "maxMatches L") (auto simp: cut_def take_Cons split: nat.split)
  with True show ?thesis by (simp add: matchRequirements_def)
next
  case False
  let ?L = "L\<lparr>maxAttempts := None\<rparr>" and ?s = "\<lparr>matches = [], attempts = 0\<rparr>"
  have "within ?L ?s" by (simp add: within_def split: option.split)
  from visit_unlimited [of ?L ?s facts rs "[]" "[]", OF _ this]
  obtain n where "visit ?L (with_candidates facts rs) [] [] ?s =
      Inr \<lparr>matches = cut ?L (all_matches facts rs [] []), attempts = n\<rparr>" by auto
  with False visit_budget(1) [of L "with_candidates facts rs" "[]" "[]" ?s] show ?thesis
    by (cases "visit L (with_candidates facts rs) [] [] ?s")
      (auto simp: matchRequirements_def cut_def)
qed

lemma matchRequirements_unlimited: "matchRequirements no_limits rs facts = Inr (all_matches facts rs [] [])"
  using matchRequirements_spec [of no_limits facts rs]
  by (cases "matchRequirements no_limits rs facts") (auto simp: no_limits_def cut_def)

lemma matches_of_eq: "matches_of rs facts = all_matches facts rs [] []"
  by (simp add: matches_of_def matchRequirements_unlimited)

section \<open>What a match is\<close>

text \<open>A valuation makes every requirement equal to the fact chosen for it.\<close>

definition proves :: "(string \<Rightarrow> string) \<Rightarrow> Predicate list \<Rightarrow> PlanValue list \<Rightarrow> bool" where
  "proves \<theta> rs vs \<longleftrightarrow> list_all2 (\<lambda>r v. same_shape r (pv_predicate v) \<and>
     equates \<theta> (term_args (parseTerm r)) (term_args (parseTerm (pv_predicate v)))) rs vs"

definition jointly_provable :: "Predicate list \<Rightarrow> PlanValue list \<Rightarrow> bool" where
  "jointly_provable rs vs \<longleftrightarrow> (\<exists>\<theta>. valuation \<theta> \<and> proves \<theta> rs vs)"

lemma all_matches_sound:
  "m \<in> set (all_matches facts rs b ins) \<Longrightarrow> wf_bindings b \<Longrightarrow>
   \<exists>vs. rm_inputs m = ins @ vs \<and> set vs \<subseteq> set facts \<and> length vs = length rs \<and> wf_bindings (rm_bindings m) \<and>
     (\<forall>\<theta>. valuation \<theta> \<longrightarrow> (solves \<theta> (rm_bindings m) \<longleftrightarrow> solves \<theta> b \<and> proves \<theta> rs vs))"
proof (induction rs arbitrary: b ins)
  case Nil
  then show ?case by (simp add: proves_def)
next
  case (Cons r rs)
  from Cons.prems(1) obtain v where v: "v \<in> set facts" and "m \<in> set (join_step facts r rs b ins v)"
    by auto
  then obtain nxt where nxt: "unify r (pv_predicate v) b = Some nxt"
    and m: "m \<in> set (all_matches facts rs nxt (ins @ [v]))"
    by (cases "unify r (pv_predicate v) b") auto
  note u = unify_SomeD [OF nxt Cons.prems(2)]
  from Cons.IH [OF m] u obtain vs where vs: "rm_inputs m = ins @ v # vs" "set vs \<subseteq> set facts"
    "length vs = length rs" "wf_bindings (rm_bindings m)"
    "\<forall>\<theta>. valuation \<theta> \<longrightarrow> (solves \<theta> (rm_bindings m) \<longleftrightarrow> solves \<theta> nxt \<and> proves \<theta> rs vs)"
    by auto
  then have "\<forall>\<theta>. valuation \<theta> \<longrightarrow> (solves \<theta> (rm_bindings m) \<longleftrightarrow> solves \<theta> b \<and> proves \<theta> (r # rs) (v # vs))"
    using u by (auto simp: proves_def)
  with vs v show ?case by (intro exI [of _ "v # vs"]) auto
qed

lemma all_matches_complete:
  "wf_bindings b \<Longrightarrow> set vs \<subseteq> set facts \<Longrightarrow> valuation \<theta> \<Longrightarrow> solves \<theta> b \<Longrightarrow> proves \<theta> rs vs \<Longrightarrow>
   \<exists>m\<in>set (all_matches facts rs b ins). rm_inputs m = ins @ vs"
proof (induction rs arbitrary: b ins vs)
  case Nil
  then show ?case by (simp add: proves_def)
next
  case (Cons r rs)
  then obtain v vs' where vs: "vs = v # vs'" by (auto simp: proves_def list_all2_Cons1)
  have "unify r (pv_predicate v) b \<noteq> None"
    using unify_iff [OF Cons.prems(1)] Cons.prems(3-5) vs by (auto simp: proves_def)
  then obtain nxt where nxt: "unify r (pv_predicate v) b = Some nxt" by auto
  note u = unify_SomeD [OF nxt Cons.prems(1)]
  have "solves \<theta> nxt" using u Cons.prems(3-5) vs by (auto simp: proves_def)
  with Cons.IH [of nxt vs' "ins @ [v]"] u Cons.prems vs obtain m where
    "m \<in> set (all_matches facts rs nxt (ins @ [v]))" "rm_inputs m = ins @ vs"
    by (auto simp: proves_def)
  with nxt vs Cons.prems(2) show ?case by (auto simp: split: option.splits intro!: bexI)
qed

lemma matches_of_sound:
  assumes "m \<in> set (matches_of rs facts)"
  shows "set (rm_inputs m) \<subseteq> set facts" "length (rm_inputs m) = length rs" "wf_bindings (rm_bindings m)"
    "valuation \<theta> \<Longrightarrow> solves \<theta> (rm_bindings m) \<longleftrightarrow> proves \<theta> rs (rm_inputs m)"
    "jointly_provable rs (rm_inputs m)"
proof -
  from all_matches_sound [of m facts rs "[]" "[]"] assms
  show *: "set (rm_inputs m) \<subseteq> set facts" "length (rm_inputs m) = length rs" "wf_bindings (rm_bindings m)"
    "valuation \<theta> \<Longrightarrow> solves \<theta> (rm_bindings m) \<longleftrightarrow> proves \<theta> rs (rm_inputs m)" for \<theta>
    by (auto simp: matches_of_eq)
  show "jointly_provable rs (rm_inputs m)"
    unfolding jointly_provable_def
    using *(4) resolution_valuation resolution_solves [OF *(3)] by blast
qed

lemma matches_of_iff:
  "vs \<in> rm_inputs ` set (matches_of rs facts) \<longleftrightarrow> set vs \<subseteq> set facts \<and> jointly_provable rs vs"
proof
  assume "vs \<in> rm_inputs ` set (matches_of rs facts)"
  then show "set vs \<subseteq> set facts \<and> jointly_provable rs vs" using matches_of_sound by auto
next
  assume "set vs \<subseteq> set facts \<and> jointly_provable rs vs"
  then obtain \<theta> where "set vs \<subseteq> set facts" "valuation \<theta>" "proves \<theta> rs vs"
    by (auto simp: jointly_provable_def)
  with all_matches_complete [of "[]" vs facts \<theta> rs "[]"]
  show "vs \<in> rm_inputs ` set (matches_of rs facts)" by (auto simp: matches_of_eq)
qed

lemma resolveGoals_Some:
  "resolveGoals goals facts = Some results \<Longrightarrow> set results \<subseteq> set facts \<and> jointly_provable goals results"
  by (auto simp: resolveGoals_def matches_of_iff [symmetric] split: list.splits)

lemma resolveGoals_None:
  "resolveGoals goals facts = None \<longleftrightarrow> \<not> (\<exists>vs. set vs \<subseteq> set facts \<and> jointly_provable goals vs)"
  unfolding matches_of_iff [symmetric] by (auto simp: resolveGoals_def split: list.splits)

section \<open>Properties\<close>

text \<open>C3. The matcher equals its reference join: whatever its limits, a result is the list of all joins of the
  unindexed facts, in order, cut at the match limit, and the only failure is an exhausted attempt budget.\<close>

theorem matchRequirements_reference:
  "maxMatches L \<noteq> Some 0 \<Longrightarrow>
   (case matchRequirements L rs facts of
      Inr ms \<Rightarrow> ms = cut L (all_matches facts rs [] [])
    | Inl e \<Rightarrow> e = SearchLimit \<and> maxAttempts L \<noteq> None)"
  by (rule matchRequirements_spec)

definition demo_facts :: "PlanValue list" where
  "demo_facts = [\<lparr>pv_predicate = ''mail(m1)'', pv_source = FromIngredient (Some ''a1'')\<rparr>,
                 \<lparr>pv_predicate = ''mail(m2)'', pv_source = FromIngredient (Some ''a2'')\<rparr>]"

theorem matchRequirements_reference_witness:
  "matchRequirements \<lparr>maxAttempts = Some 10, maxMatches = Some 1\<rparr> [''mail(X)''] demo_facts =
     Inr (take 1 (all_matches demo_facts [''mail(X)''] [] [])) \<and>
   matchRequirements \<lparr>maxAttempts = Some 1, maxMatches = None\<rparr> [''mail(X)''] demo_facts = Inl SearchLimit"
proof -
  have "\<not> isl (matchRequirements \<lparr>maxAttempts = Some 10, maxMatches = Some 1\<rparr> [''mail(X)''] demo_facts)"
    by code_simp
  then have "\<exists>ms. matchRequirements \<lparr>maxAttempts = Some 10, maxMatches = Some 1\<rparr> [''mail(X)''] demo_facts = Inr ms"
    unfolding isl_def by (metis sum.exhaust)
  moreover have "matchRequirements \<lparr>maxAttempts = Some 1, maxMatches = None\<rparr> [''mail(X)''] demo_facts = Inl SearchLimit"
    by code_simp
  ultimately show ?thesis
    using matchRequirements_reference [of "\<lparr>maxAttempts = Some 10, maxMatches = Some 1\<rparr>" demo_facts "[''mail(X)'']"]
    by (auto simp: cut_def)
qed

text \<open>The matcher is sound and complete: a selection of facts is the input list of some match exactly when
  one valuation makes every requirement equal to the fact selected for it.\<close>

theorem match_inputs_iff:
  "(vs \<in> rm_inputs ` set (matches_of rs facts)) =
   (set vs \<subseteq> set facts \<and> (\<exists>\<theta>. valuation \<theta> \<and> proves \<theta> rs vs))"
  unfolding matches_of_iff jointly_provable_def ..

end
