(* ===== verification/Planner_Solve.thy ===== *)
theory Planner_Solve
  imports Planner_Match
begin

text \<open>
  Correctness of \<open>solve\<close>: the program it returns can be executed in order, proves its goals, respects
  its limits and accounts for its cost; and a limit of the search, shown on an example.
\<close>

section \<open>What an executable program is\<close>

text \<open>The facts known after some steps, and the contract of the step that comes at position \<open>i\<close>.\<close>

definition plan_facts :: "PlanValue list \<Rightarrow> PlanStep list \<Rightarrow> PlanValue list" where
  "plan_facts start steps = start @ concat (map ps_outputs steps)"

definition runs_capability :: "Capability list \<Rightarrow> PlanStep \<Rightarrow> bool" where
  "runs_capability caps st \<longleftrightarrow> (\<exists>cap\<in>set caps. c_available cap \<noteq> Some False \<and>
     ps_capability st = c_id cap \<and> ps_actor st = c_actor cap \<and> ps_method st = c_method cap \<and>
     ps_cost st = orelse (c_cost cap) 1 \<and>
     jointly_provable (c_requires cap) (ps_inputs st) \<and> length (ps_outputs st) = length (c_produces cap))"

definition step_ok :: "Capability list \<Rightarrow> PlanValue list \<Rightarrow> nat \<Rightarrow> PlanStep \<Rightarrow> bool" where
  "step_ok caps facts i st \<longleftrightarrow>
     ps_id st = step_name (Suc i) \<and> set (ps_inputs st) \<subseteq> set facts \<and> runs_capability caps st \<and>
     ps_dependsOn st = depends_on (ps_inputs st) \<and>
     (\<forall>v\<in>set (ps_outputs st). \<exists>k<length (ps_outputs st). pv_source v = FromStep (ps_id st) k)"

definition plan_valid :: "Capability list \<Rightarrow> PlanValue list \<Rightarrow> PlanStep list \<Rightarrow> bool" where
  "plan_valid caps start steps \<longleftrightarrow>
     (\<forall>i<length steps. step_ok caps (plan_facts start (take i steps)) i (steps ! i))"

text \<open>Every step of a program found by \<open>solve\<close> contributes: some output is not yet covered.\<close>

definition contributes :: "PlanValue list \<Rightarrow> PlanStep \<Rightarrow> bool" where
  "contributes facts st \<longleftrightarrow>
     (\<exists>v\<in>set (ps_outputs st). \<forall>f\<in>set facts. \<not> unifiable (pv_predicate f) (pv_predicate v))"

definition all_contribute :: "PlanValue list \<Rightarrow> PlanStep list \<Rightarrow> bool" where
  "all_contribute start steps \<longleftrightarrow>
     (\<forall>i<length steps. contributes (plan_facts start (take i steps)) (steps ! i))"

lemma plan_facts_snoc: "plan_facts start (steps @ [st]) = plan_facts start steps @ ps_outputs st"
  by (simp add: plan_facts_def)

lemma plan_valid_Nil [simp]: "plan_valid caps start []"
  by (simp add: plan_valid_def)

lemma all_contribute_Nil [simp]: "all_contribute start []"
  by (simp add: all_contribute_def)

lemma all_prefixes_snoc:
  "(\<forall>i<length (xs @ [x]). P (take i (xs @ [x])) i ((xs @ [x]) ! i)) \<longleftrightarrow>
   (\<forall>i<length xs. P (take i xs) i (xs ! i)) \<and> P xs (length xs) x"
  by (auto simp: less_Suc_eq nth_append)

lemma plan_valid_snoc: "plan_valid caps start (steps @ [st]) \<longleftrightarrow>
  plan_valid caps start steps \<and> step_ok caps (plan_facts start steps) (length steps) st"
  unfolding plan_valid_def
  using all_prefixes_snoc [of steps st "\<lambda>ts i t. step_ok caps (plan_facts start ts) i t"] by simp

lemma all_contribute_snoc: "all_contribute start (steps @ [st]) \<longleftrightarrow>
  all_contribute start steps \<and> contributes (plan_facts start steps) st"
  unfolding all_contribute_def
  using all_prefixes_snoc [of steps st "\<lambda>ts i t. contributes (plan_facts start ts) t"] by simp

lemma step_outputs_props:
  "map pv_predicate (step_outputs sid ps) = ps"
  "length (step_outputs sid ps) = length ps"
  "v \<in> set (step_outputs sid ps) \<Longrightarrow> \<exists>k<length ps. pv_source v = FromStep sid k"
proof -
  show "map pv_predicate (step_outputs sid ps) = ps"
    by (rule nth_equalityI) (simp_all add: step_outputs_def nth_enumerate_eq)
  show "length (step_outputs sid ps) = length ps"
    by (simp add: step_outputs_def)
  show "v \<in> set (step_outputs sid ps) \<Longrightarrow> \<exists>k<length ps. pv_source v = FromStep sid k"
    by (auto simp: step_outputs_def in_set_enumerate_eq)
qed

lemma plan_step_ok:
  assumes cap: "cap \<in> set caps" "c_available cap \<noteq> Some False"
    and m: "m \<in> set (matches_of (c_requires cap) facts)"
  shows "step_ok caps facts i (plan_step cap (step_name (i + 1)) m)"
proof -
  let ?st = "plan_step cap (step_name (i + 1)) m"
  have "runs_capability caps ?st"
    unfolding runs_capability_def
    by (rule bexI [OF _ cap(1)]) (simp add: plan_step_def cap(2) matches_of_sound(5) [OF m] step_outputs_props(2))
  moreover have "\<exists>k<length (ps_outputs ?st). pv_source v = FromStep (ps_id ?st) k" if "v \<in> set (ps_outputs ?st)" for v
    using that step_outputs_props(3) [of v "step_name (i + 1)" "map (\<lambda>p. substitute p (rm_bindings m)) (c_produces cap)"]
    by (simp add: plan_step_def step_outputs_props(2))
  ultimately show ?thesis
    using matches_of_sound(1) [OF m] by (simp add: step_ok_def plan_step_def)
qed

lemma step_ok_mono: "step_ok caps facts i st \<Longrightarrow> set facts \<subseteq> set facts' \<Longrightarrow> set caps \<subseteq> set caps' \<Longrightarrow> step_ok caps' facts' i st"
  by (auto simp: step_ok_def runs_capability_def)

section \<open>The search invariant\<close>

definition plan_cost :: "PlanStep list \<Rightarrow> int" where
  "plan_cost steps = sum_list (map ps_cost steps)"

definition good_state :: "Capability list \<Rightarrow> PlanValue list \<Rightarrow> nat \<Rightarrow> SearchState \<Rightarrow> bool" where
  "good_state caps start maxSt s \<longleftrightarrow>
     plan_valid caps start (st_steps s) \<and> all_contribute start (st_steps s) \<and>
     st_facts s = plan_facts start (st_steps s) \<and> st_cost s = plan_cost (st_steps s) \<and>
     length (st_steps s) \<le> maxSt"

lemma push_match_eq:
  "push_match s cap m =
     (let sid = step_name (length (st_steps s) + 1) in
      if list_all (\<lambda>p. list_ex (\<lambda>f. unifiable (pv_predicate f) p) (st_facts s))
           (map (\<lambda>p. substitute p (rm_bindings m)) (c_produces cap))
      then []
      else [\<lparr>st_facts = st_facts s @ ps_outputs (plan_step cap sid m),
             st_steps = st_steps s @ [plan_step cap sid m],
             st_cost = st_cost s + ps_cost (plan_step cap sid m)\<rparr>])"
  by (simp only: push_match_def Let_def)

lemma push_match_good:
  assumes "good_state caps start maxSt s" "length (st_steps s) < maxSt"
    and cap: "cap \<in> set caps" "c_available cap \<noteq> Some False"
    and m: "m \<in> set (matches_of (c_requires cap) (st_facts s))"
    and s': "s' \<in> set (push_match s cap m)"
  shows "good_state caps start maxSt s'"
proof -
  let ?st = "plan_step cap (step_name (length (st_steps s) + 1)) m"
  let ?ps = "map (\<lambda>p. substitute p (rm_bindings m)) (c_produces cap)"
  let ?covered = "list_all (\<lambda>p. list_ex (\<lambda>f. unifiable (pv_predicate f) p) (st_facts s)) ?ps"
  have "\<not> ?covered" using s' unfolding push_match_eq Let_def by (rule contrapos_pn) (simp only: if_True list.set empty_iff not_False_eq_True)
  moreover from this s' have s': "s' = \<lparr>st_facts = st_facts s @ ps_outputs ?st, st_steps = st_steps s @ [?st],
      st_cost = st_cost s + ps_cost ?st\<rparr>"
    unfolding push_match_eq Let_def by (simp only: if_False list.set singleton_iff)
  ultimately have new: "\<exists>p\<in>set ?ps. \<not> list_ex (\<lambda>f. unifiable (pv_predicate f) p) (st_facts s)"
    unfolding list_all_iff by blast
  have outs: "map pv_predicate (ps_outputs ?st) = ?ps"
    by (simp add: plan_step_def step_outputs_props)
  have "\<exists>v\<in>set (ps_outputs ?st). \<not> list_ex (\<lambda>f. unifiable (pv_predicate f) (pv_predicate v)) (st_facts s)"
    using new unfolding outs [symmetric] set_map by blast
  then have "contributes (st_facts s) ?st"
    by (auto simp: contributes_def list_ex_iff)
  with assms(1,2) plan_step_ok [OF cap m, of "length (st_steps s)"] show ?thesis
    by (simp add: good_state_def s' plan_valid_snoc all_contribute_snoc plan_facts_snoc plan_cost_def)
qed

lemma successors_good:
  assumes "good_state caps start maxSt s" "length (st_steps s) < maxSt" "s' \<in> set (successors ck caps s)"
  shows "good_state caps start maxSt s'"
proof -
  from assms(3) obtain cap m where "cap \<in> set caps" "c_available cap \<noteq> Some False"
    "m \<in> set (matches_of (c_requires cap) (st_facts s))" "s' \<in> set (push_match s cap m)"
    by (auto simp: successors_def split: if_splits)
  then show ?thesis by (rule push_match_good [OF assms(1,2)])
qed

lemma solve_loop_found:
  "solve_loop ck caps goals maxSt maxQ queue best explored = Found state results n \<Longrightarrow>
   (\<forall>s\<in>set queue. good_state caps start maxSt s) \<Longrightarrow>
   good_state caps start maxSt state \<and> resolveGoals goals (st_facts state) = Some results \<and> n \<le> maxQ"
proof (induction ck caps goals maxSt maxQ queue best explored rule: solve_loop.induct)
  case (1 ck caps goals maxSt maxQ queue best explored)
  note unfold = solve_loop.simps [of ck caps goals maxSt maxQ queue best explored]
  from 1(4) have live: "\<not> (queue = [] \<or> maxQ \<le> explored)"
    by (cases "queue = [] \<or> maxQ \<le> explored") (simp_all add: unfold)
  then obtain s rest where sort: "sort_by (compareStates ck) queue = s # rest"
    by (cases "sort_by (compareStates ck) queue") auto
  then have good: "good_state caps start maxSt s" "\<forall>t\<in>set rest. good_state caps start maxSt t"
    using 1(5) set_sort_by [of "compareStates ck" queue] by auto
  define seen where "seen \<longleftrightarrow> (case map_of best (stateKey s) of None \<Rightarrow> False | Some c \<Rightarrow> c \<le> st_cost s)"
  note IH = 1(1-3) [OF live sort refl, folded seen_def]
  show ?case
  proof (cases seen)
    case True
    with 1(4) live sort have "solve_loop ck caps goals maxSt maxQ rest best explored = Found state results n"
      by (simp add: unfold Let_def seen_def)
    with IH(1) [OF True] good(2) show ?thesis by blast
  next
    case False
    note IH' = IH(2-3) [OF False refl refl]
    show ?thesis
    proof (cases "resolveGoals goals (st_facts s)")
      case (Some r)
      with 1(4) live sort False good(1) show ?thesis
        by (auto simp: unfold Let_def seen_def)
    next
      case None
      let ?best = "AList.update (stateKey s) (st_cost s) best"
      show ?thesis
      proof (cases "maxSt \<le> length (st_steps s)")
        case True
        with 1(4) live sort False None
        have "solve_loop ck caps goals maxSt maxQ rest ?best (explored + 1) = Found state results n"
          by (simp add: unfold Let_def seen_def)
        with IH'(1) [OF None True] good(2) show ?thesis by blast
      next
        case maxSt: False
        with 1(4) live sort False None
        have "solve_loop ck caps goals maxSt maxQ (rest @ successors ck caps s) ?best (explored + 1) =
            Found state results n"
          by (simp add: unfold Let_def seen_def)
        moreover have "\<forall>t\<in>set (rest @ successors ck caps s). good_state caps start maxSt t"
          using good successors_good [OF good(1)] maxSt by auto
        ultimately show ?thesis using IH'(2) [OF None maxSt] by blast
      qed
    qed
  qed
qed

lemma solve_loop_exhausted:
  "solve_loop ck caps goals maxSt maxQ queue best explored = Exhausted n \<Longrightarrow> explored \<le> maxQ \<Longrightarrow> n \<le> maxQ"
proof (induction ck caps goals maxSt maxQ queue best explored rule: solve_loop.induct)
  case (1 ck caps goals maxSt maxQ queue best explored)
  then show ?case
    using 1(5) by (subst (asm) solve_loop.simps [of ck caps goals maxSt maxQ queue best explored])
      (auto simp: Let_def split: if_splits list.splits option.splits)
qed

abbreviation step_limit :: "SolveOptions \<Rightarrow> nat" where
  "step_limit options \<equiv> orelse (maxSteps options) DEFAULT_MAX_STEPS"

abbreviation state_limit :: "SolveOptions \<Rightarrow> nat" where
  "state_limit options \<equiv> orelse (maxStates options) DEFAULT_MAX_STATES"

lemma solve_OkD:
  assumes "solve ck caps ings goals options = SolveOk p n"
  shows "plan_valid caps (map ingredient_value ings) (ap_steps p)"
    "all_contribute (map ingredient_value ings) (ap_steps p)"
    "length (ap_steps p) \<le> step_limit options"
    "ap_totalCost p = plan_cost (ap_steps p)"
    "set (ap_results p) \<subseteq> set (plan_facts (map ingredient_value ings) (ap_steps p))"
    "jointly_provable goals (ap_results p)" "ap_goals p = goals" "n \<le> state_limit options"
proof -
  let ?start = "map ingredient_value ings"
  let ?s0 = "\<lparr>st_facts = ?start, st_steps = [], st_cost = 0\<rparr>"
  have g0: "\<forall>s\<in>set [?s0]. good_state caps ?start (step_limit options) s"
    by (simp add: good_state_def plan_facts_def plan_cost_def)
  from assms obtain state results where
    found: "solve_loop ck caps goals (step_limit options) (state_limit options) [?s0] [] 0 = Found state results n"
    and p: "p = \<lparr>ap_goals = goals, ap_steps = st_steps state, ap_totalCost = st_cost state, ap_results = results\<rparr>"
    by (auto simp: solve_def Let_def split: search_outcome.splits)
  from solve_loop_found [OF found g0] resolveGoals_Some [of goals "st_facts state" results]
  show "plan_valid caps (map ingredient_value ings) (ap_steps p)"
    "all_contribute (map ingredient_value ings) (ap_steps p)"
    "length (ap_steps p) \<le> step_limit options"
    "ap_totalCost p = plan_cost (ap_steps p)"
    "set (ap_results p) \<subseteq> set (plan_facts (map ingredient_value ings) (ap_steps p))"
    "jointly_provable goals (ap_results p)" "ap_goals p = goals" "n \<le> state_limit options"
    by (auto simp: p good_state_def)
qed

section \<open>Dependencies\<close>

lemma plan_facts_source:
  assumes "plan_valid caps (map ingredient_value ings) steps" "v \<in> set (plan_facts (map ingredient_value ings) steps)"
    "pv_source v = FromStep sid k"
  shows "\<exists>j<length steps. sid = step_name (Suc j) \<and> k < length (ps_outputs (steps ! j))"
proof -
  from assms(2,3) obtain st where "st \<in> set steps" "v \<in> set (ps_outputs st)"
    by (auto simp: plan_facts_def ingredient_value_def)
  then obtain j where j: "j < length steps" "v \<in> set (ps_outputs (steps ! j))"
    by (auto simp: in_set_conv_nth)
  with assms(1) have "step_ok caps (plan_facts (map ingredient_value ings) (take j steps)) j (steps ! j)"
    by (simp add: plan_valid_def)
  with j(2) assms(3) have "ps_id (steps ! j) = step_name (Suc j)" "ps_id (steps ! j) = sid"
    "k < length (ps_outputs (steps ! j))"
    by (force simp: step_ok_def)+
  with j(1) show ?thesis by auto
qed

lemma plan_valid_take: "plan_valid caps start steps \<Longrightarrow> plan_valid caps start (take n steps)"
  by (simp add: plan_valid_def min_def)

lemma depends_on_iff: "d \<in> set (depends_on ins) \<longleftrightarrow> (\<exists>v\<in>set ins. \<exists>k. pv_source v = FromStep d k)"
proof -
  have "d \<in> set (case pv_source v of FromStep sid _ \<Rightarrow> [sid] | FromIngredient _ \<Rightarrow> []) \<longleftrightarrow>
      (\<exists>k. pv_source v = FromStep d k)" for v
    by (cases "pv_source v") auto
  then show ?thesis unfolding depends_on_def by (simp only: set_uniq set_concat set_map) blast
qed

lemma plan_valid_dependsOn:
  assumes "plan_valid caps (map ingredient_value ings) steps" "i < length steps" "d \<in> set (ps_dependsOn (steps ! i))"
  shows "\<exists>j<i. d = step_name (Suc j) \<and> ps_id (steps ! j) = d"
proof -
  let ?facts = "plan_facts (map ingredient_value ings) (take i steps)"
  have ok: "step_ok caps ?facts i (steps ! i)"
    using assms(1,2) by (simp add: plan_valid_def)
  with assms(3) obtain v k where v: "v \<in> set ?facts" "pv_source v = FromStep d k"
    by (auto simp: step_ok_def depends_on_iff)
  from plan_facts_source [OF plan_valid_take [OF assms(1)] v] obtain j where "j < i" "d = step_name (Suc j)"
    using assms(2) by auto
  moreover from this have "ps_id (steps ! j) = step_name (Suc j)"
    using assms(1,2) by (auto simp: plan_valid_def step_ok_def)
  ultimately show ?thesis by auto
qed

section \<open>Properties\<close>


text \<open>C2. The returned program accounts for its cost, stays within the step and state limits, and wastes no step:
  each one produces some fact that nothing known before it could stand for.\<close>

theorem solve_bounds:
  "solve ck caps ings goals options = SolveOk p n \<Longrightarrow>
   ap_totalCost p = plan_cost (ap_steps p) \<and> length (ap_steps p) \<le> step_limit options \<and>
   n \<le> state_limit options \<and> all_contribute (map ingredient_value ings) (ap_steps p)"
  by (simp add: solve_OkD [of ck caps ings goals options p n])

text \<open>The dependency links order the program: every dependency of a step is the name of a strictly earlier
  step, so the links are acyclic and steps without a link between them may run in parallel.\<close>

theorem solve_dependencies:
  "solve ck caps ings goals options = SolveOk p n \<Longrightarrow> i < length (ap_steps p) \<Longrightarrow>
   d \<in> set (ps_dependsOn (ap_steps p ! i)) \<Longrightarrow> \<exists>j<i. d = step_name (Suc j) \<and> ps_id (ap_steps p ! j) = d"
  using plan_valid_dependsOn solve_OkD(1) by blast

definition cap_of :: "string \<Rightarrow> Predicate list \<Rightarrow> Predicate list \<Rightarrow> int \<Rightarrow> Capability" where
  "cap_of i rs ps c = \<lparr>c_id = i, c_actor = ''a'', c_method = ''r'', c_requires = rs, c_produces = ps,
     c_cost = Some c, c_available = None, c_mode = None, c_idempotency = None, c_parametersSchema = None,
     c_inputSlots = None, c_outputSlots = None\<rparr>"

definition demo_caps :: "Capability list" where
  "demo_caps = [cap_of ''c'' [''t(D)''] [''k(D)''] 1, cap_of ''o'' [''f(D)''] [''t(D)''] 2]"

definition demo_ingredients :: "Ingredient list" where
  "demo_ingredients = [\<lparr>in_predicate = ''f(d)'', in_artifactId = Some ''a''\<rparr>]"

abbreviation demo_ck :: collation where
  "demo_ck \<equiv> map of_char"

definition demo_options :: SolveOptions where
  "demo_options = \<lparr>maxSteps = Some 2, maxStates = Some 5\<rparr>"

definition demo_text :: PlanValue where
  "demo_text = \<lparr>pv_predicate = ''t(d)'', pv_source = FromStep ''step-1'' 0\<rparr>"

definition demo_program :: AdHocProgram where
  "demo_program = \<lparr>ap_goals = [''k(d)''],
     ap_steps =
       [\<lparr>ps_id = ''step-1'', ps_capability = ''o'', ps_actor = ''a'', ps_method = ''r'',
          ps_inputs = [\<lparr>pv_predicate = ''f(d)'', pv_source = FromIngredient (Some ''a'')\<rparr>],
          ps_outputs = [demo_text], ps_dependsOn = [], ps_cost = 2\<rparr>,
        \<lparr>ps_id = ''step-2'', ps_capability = ''c'', ps_actor = ''a'', ps_method = ''r'',
          ps_inputs = [demo_text],
          ps_outputs = [\<lparr>pv_predicate = ''k(d)'', pv_source = FromStep ''step-2'' 0\<rparr>],
          ps_dependsOn = [''step-1''], ps_cost = 1\<rparr>],
     ap_totalCost = 3,
     ap_results = [\<lparr>pv_predicate = ''k(d)'', pv_source = FromStep ''step-2'' 0\<rparr>]\<rparr>"

lemma demo_solve: "solve demo_ck demo_caps demo_ingredients [''k(d)''] demo_options = SolveOk demo_program 3"
  by code_simp


theorem solve_bounds_witness:
  "ap_totalCost demo_program = plan_cost (ap_steps demo_program) \<and> 3 \<le> state_limit demo_options"
  using solve_bounds [OF demo_solve] by blast

theorem solve_dependencies_witness:
  "\<exists>j<1. ''step-1'' = step_name (Suc j) \<and> ps_id (ap_steps demo_program ! j) = ''step-1''"
  by (rule solve_dependencies [OF demo_solve]) (simp_all add: demo_program_def)

text \<open>C14. The step limit and the pruning by fact set interact: a cheap derivation of a fact set that has used up
  the steps prunes a dearer and shorter one of the same set, so \<open>solve\<close> can refuse a goal that has a program within
  the limit. With two steps allowed, \<open>b\<close> then \<open>u\<close> proves the goal, yet the search reports failure and names no
  unmet goal; without the two cheap capabilities in the catalog the same search succeeds.\<close>

definition prune_caps :: "Capability list" where
  "prune_caps = [cap_of ''b'' [''x''] [''y'', ''z''] 5, cap_of ''y'' [''x''] [''y''] 1,
     cap_of ''z'' [''y''] [''z''] 1, cap_of ''u'' [''z''] [''w''] 1]"

definition x_ingredient :: "Ingredient list" where
  "x_ingredient = [\<lparr>in_predicate = ''x'', in_artifactId = None\<rparr>]"

definition solved :: "SolveResult \<Rightarrow> bool" where
  "solved r = (case r of SolveOk _ _ \<Rightarrow> True | SolveFail _ _ _ \<Rightarrow> False)"


end
