(* ===== verification/Planner_Enrich.thy ===== *)
theory Planner_Enrich
  imports Planner_Solve
begin

text \<open>
  Correctness of the saturating expansion: the ancestry search decides the ancestor relation, and
  \<open>planEnrichment\<close> returns an executable program of non-effecting capabilities that runs no invocation
  twice, never feeds a capability its own consequences, and stops only when nothing is left to run.
\<close>

section \<open>The ancestry search\<close>

abbreviation step_named :: "PlanStep list \<Rightarrow> string \<Rightarrow> PlanStep option" where
  "step_named steps sid \<equiv> find (\<lambda>candidate. ps_id candidate = sid) steps"

inductive ancestor :: "PlanStep list \<Rightarrow> PlanValue \<Rightarrow> PlanStep \<Rightarrow> bool" for steps where
  direct: "pv_source v = FromStep sid k \<Longrightarrow> step_named steps sid = Some st \<Longrightarrow> ancestor steps v st"
| further: "pv_source v = FromStep sid k \<Longrightarrow> step_named steps sid = Some t \<Longrightarrow> i \<in> set (ps_inputs t) \<Longrightarrow>
    ancestor steps i st \<Longrightarrow> ancestor steps v st"

text \<open>A set of step names that contains the producers of the values and, with a step, those of its inputs,
  and in which no step runs the capability.\<close>

definition clear_of :: "string \<Rightarrow> PlanStep list \<Rightarrow> string set \<Rightarrow> string set \<Rightarrow> bool" where
  "clear_of cid steps V pending \<longleftrightarrow>
     (\<forall>sid\<in>V. \<forall>st. step_named steps sid = Some st \<longrightarrow> ps_capability st \<noteq> cid \<and>
        (\<forall>i\<in>set (ps_inputs st). \<forall>s k. pv_source i = FromStep s k \<longrightarrow> s \<in> V \<union> pending))"

definition sources :: "PlanValue list \<Rightarrow> string set" where
  "sources vs = {s. \<exists>v\<in>set vs. \<exists>k. pv_source v = FromStep s k}"

lemma sources_simps [simp]:
  "sources [] = {}"
  "sources (v # vs) = (case pv_source v of FromStep s _ \<Rightarrow> insert s (sources vs) | FromIngredient _ \<Rightarrow> sources vs)"
  "sources (vs @ ws) = sources vs \<union> sources ws"
  by (auto simp: sources_def split: plan_source.splits)

lemma clear_of_weaken: "clear_of cid steps V P \<Longrightarrow> V \<union> P \<subseteq> V \<union> Q \<Longrightarrow> clear_of cid steps V Q"
  unfolding clear_of_def by blast

lemma clear_of_insert:
  assumes "clear_of cid steps V (insert sid P)"
    and "\<And>st. step_named steps sid = Some st \<Longrightarrow> ps_capability st \<noteq> cid \<and> sources (ps_inputs st) \<subseteq> Q"
    and "P \<subseteq> Q"
  shows "clear_of cid steps (insert sid V) Q"
  using assms unfolding clear_of_def sources_def by blast

lemma search_sound:
  "ancestry_search cid steps stack visited \<Longrightarrow>
   \<exists>v\<in>set stack. \<exists>st. ancestor steps v st \<and> ps_capability st = cid"
proof (induction cid steps stack visited rule: ancestry_search.induct)
  case (2 cid steps v stack visited)
  show ?case
  proof (cases "pv_source v")
    case (FromIngredient a)
    with 2 show ?thesis by auto
  next
    case (FromStep sid k)
    show ?thesis
    proof (cases "sid \<in> visited")
      case True
      with 2 FromStep show ?thesis by auto
    next
      case new: False
      show ?thesis
      proof (cases "step_named steps sid")
        case None
        with 2 FromStep new show ?thesis by auto
      next
        case (Some st)
        show ?thesis
        proof (cases "ps_capability st = cid")
          case True
          with FromStep Some show ?thesis by (auto intro: ancestor.direct)
        next
          case False
          from 2(5) FromStep new Some False
          have "ancestry_search cid steps (ps_inputs st @ stack) (insert sid visited)" by simp
          from 2(4) [OF FromStep new Some False this]
          obtain w t where "w \<in> set (ps_inputs st) \<union> set stack" "ancestor steps w t" "ps_capability t = cid"
            by auto
          with FromStep Some show ?thesis by (auto intro: ancestor.further)
        qed
      qed
    qed
  qed
qed simp

lemma search_complete:
  "\<not> ancestry_search cid steps stack visited \<Longrightarrow> clear_of cid steps visited (sources stack) \<Longrightarrow>
   \<exists>V. visited \<union> sources stack \<subseteq> V \<and> clear_of cid steps V {}"
proof (induction cid steps stack visited rule: ancestry_search.induct)
  case (1 cid steps visited)
  then show ?case by auto
next
  case (2 cid steps v stack visited)
  show ?case
  proof (cases "pv_source v")
    case (FromIngredient a)
    with 2 show ?thesis by auto
  next
    case (FromStep sid k)
    show ?thesis
    proof (cases "sid \<in> visited")
      case True
      have "clear_of cid steps visited (sources stack)"
        by (rule clear_of_weaken [OF 2(6)]) (use True FromStep in auto)
      moreover have "\<not> ancestry_search cid steps stack visited" using 2(5) FromStep True by simp
      ultimately obtain V where "visited \<union> sources stack \<subseteq> V" "clear_of cid steps V {}"
        using 2(2) [OF FromStep True] by blast
      with FromStep True show ?thesis by (intro exI [of _ V]) auto
    next
      case new: False
      have start: "clear_of cid steps visited (insert sid (sources stack))" using 2(6) FromStep by simp
      show ?thesis
      proof (cases "step_named steps sid")
        case None
        then have "clear_of cid steps (insert sid visited) (sources stack)"
          by (intro clear_of_insert [OF start]) auto
        moreover from 2(5) FromStep new None
        have "\<not> ancestry_search cid steps stack (insert sid visited)" by simp
        ultimately obtain V where "insert sid visited \<union> sources stack \<subseteq> V" "clear_of cid steps V {}"
          using 2(3) [OF FromStep new None] by blast
        with FromStep show ?thesis by (intro exI [of _ V]) simp
      next
        case (Some st)
        with 2(5) FromStep new have no: "ps_capability st \<noteq> cid" by auto
        have "clear_of cid steps (insert sid visited) (sources (ps_inputs st @ stack))"
          using Some no by (intro clear_of_insert [OF start]) auto
        moreover from 2(5) FromStep new Some no
        have "\<not> ancestry_search cid steps (ps_inputs st @ stack) (insert sid visited)" by simp
        ultimately obtain V where "insert sid visited \<union> sources (ps_inputs st @ stack) \<subseteq> V" "clear_of cid steps V {}"
          using 2(4) [OF FromStep new Some no] by blast
        with FromStep show ?thesis by (intro exI [of _ V]) simp
      qed
    qed
  qed
qed

lemma ancestor_in_clear:
  "ancestor steps v st \<Longrightarrow> clear_of cid steps V {} \<Longrightarrow> sources [v] \<subseteq> V \<Longrightarrow> ps_capability st \<noteq> cid"
proof (induction rule: ancestor.induct)
  case (direct v sid k st)
  then show ?case by (auto simp: clear_of_def)
next
  case (further v sid k t i st)
  from further.prems further.hyps have "sources [i] \<subseteq> V"
    by (auto simp: clear_of_def split: plan_source.splits)
  with further show ?case by blast
qed

lemma hasCapabilityInAncestry_iff:
  "hasCapabilityInAncestry v cid steps \<longleftrightarrow> (\<exists>st. ancestor steps v st \<and> ps_capability st = cid)"
proof
  assume "hasCapabilityInAncestry v cid steps"
  then show "\<exists>st. ancestor steps v st \<and> ps_capability st = cid"
    unfolding hasCapabilityInAncestry_def using search_sound [of cid steps "[v]" "{}"] by auto
next
  assume "\<exists>st. ancestor steps v st \<and> ps_capability st = cid"
  moreover have "clear_of cid steps {} P" for P by (simp add: clear_of_def)
  ultimately show "hasCapabilityInAncestry v cid steps"
    unfolding hasCapabilityInAncestry_def
    using search_complete [of cid steps "[v]" "{}"] ancestor_in_clear [of steps v _ cid] by blast
qed

text \<open>The depth-first search with its shared visited set decides whether the capability ran anywhere among
  the steps a value descends from; it terminates even when the links of the steps form a cycle.\<close>

theorem ancestry_decides:
  "hasCapabilityInAncestry v cid steps = (\<exists>st. ancestor steps v st \<and> ps_capability st = cid)"
  by (rule hasCapabilityInAncestry_iff)

section \<open>The saturation loop\<close>

definition step_invocation :: "PlanStep \<Rightarrow> string" where
  "step_invocation st = invocation_key (ps_capability st) (ps_inputs st)"

text \<open>No input of the step descends from a step of the same capability.\<close>

definition no_feedback :: "PlanStep list \<Rightarrow> PlanStep \<Rightarrow> bool" where
  "no_feedback before st \<longleftrightarrow>
     (\<forall>v\<in>set (ps_inputs st). \<not> hasCapabilityInAncestry v (ps_capability st) before)"

definition enrich_ok :: "Capability list \<Rightarrow> PlanValue list \<Rightarrow> PlanStep list \<Rightarrow> enrich_state \<Rightarrow> bool" where
  "enrich_ok caps start s0 s \<longleftrightarrow>
     plan_valid caps start (e_steps s) \<and> e_facts s = plan_facts start (e_steps s) \<and>
     set (e_invoked s) = step_invocation ` set (e_steps s) \<and>
     (s0 = [] \<longrightarrow> e_invoked s = map step_invocation (e_steps s)) \<and> take (length s0) (e_steps s) = s0 \<and> distinct (e_invoked s) \<and>
     (\<forall>i<length (e_steps s). length s0 \<le> i \<longrightarrow> no_feedback (take i (e_steps s)) (e_steps s ! i))"

definition run_match :: "Capability \<Rightarrow> RequirementMatch \<Rightarrow> enrich_state \<Rightarrow> enrich_state" where
  "run_match cap m s =
     (let step = plan_step cap (step_name (length (e_steps s) + 1)) m in
      \<lparr>e_steps = e_steps s @ [step], e_facts = e_facts s @ ps_outputs step,
       e_invoked = e_invoked s @ [invocation_key (c_id cap) (rm_inputs m)], e_changed = True\<rparr>)"

definition blocked :: "enrich_state \<Rightarrow> Capability \<Rightarrow> PlanValue list \<Rightarrow> bool" where
  "blocked s cap ins \<longleftrightarrow>
     list_ex (\<lambda>input. hasCapabilityInAncestry input (c_id cap) (e_steps s)) ins \<or>
     invocation_key (c_id cap) ins \<in> set (e_invoked s)"

lemma enrich_matches_Cons:
  "enrich_matches maxSt cap (m # ms) s =
     (if blocked s cap (rm_inputs m) then enrich_matches maxSt cap ms s
      else if maxSt \<le> length (e_steps s)
      then Inl (''enrichment safety limit reached after '' @ string_of_nat maxSt @ '' steps'', length (e_invoked s))
      else enrich_matches maxSt cap ms (run_match cap m s))"
  by (simp add: blocked_def run_match_def Let_def)

declare enrich_matches.simps(2) [simp del]

lemma run_match_ok:
  assumes ok: "enrich_ok caps start s0 s" and n0: "length s0 \<le> length (e_steps s)"
    and cap: "cap \<in> set caps" "c_available cap \<noteq> Some False"
    and m: "m \<in> set (matches_of (c_requires cap) facts)" and facts: "set facts \<subseteq> set (e_facts s)"
    and free: "\<not> blocked s cap (rm_inputs m)"
  shows "enrich_ok caps start s0 (run_match cap m s)"
proof -
  let ?st = "plan_step cap (step_name (length (e_steps s) + 1)) m"
  have "step_ok caps facts (length (e_steps s)) ?st" by (rule plan_step_ok [OF cap m])
  then have "step_ok caps (e_facts s) (length (e_steps s)) ?st" by (rule step_ok_mono [OF _ facts order_refl])
  moreover have "no_feedback (e_steps s) ?st" "step_invocation ?st \<notin> set (e_invoked s)"
    using free by (auto simp: blocked_def no_feedback_def step_invocation_def plan_step_def list_ex_iff)
  moreover have "step_invocation ?st = invocation_key (c_id cap) (rm_inputs m)"
    by (simp add: step_invocation_def plan_step_def)
  ultimately show ?thesis
    using ok n0 unfolding enrich_ok_def run_match_def Let_def
    by (simp add: plan_valid_snoc plan_facts_snoc less_Suc_eq nth_append)
qed

lemma enrich_matches_ok:
  assumes cap: "cap \<in> set caps" "c_available cap \<noteq> Some False"
  shows "enrich_matches maxSt cap ms s = Inr s' \<Longrightarrow> enrich_ok caps start s0 s \<Longrightarrow> length s0 \<le> length (e_steps s) \<Longrightarrow>
   set ms \<subseteq> set (matches_of (c_requires cap) facts) \<Longrightarrow> set facts \<subseteq> set (e_facts s) \<Longrightarrow> enrich_ok caps start s0 s'"
proof (induction ms arbitrary: s)
  case (Cons m ms)
  show ?case
  proof (cases "blocked s cap (rm_inputs m)")
    case True
    with Cons show ?thesis by (simp add: enrich_matches_Cons)
  next
    case False
    have "enrich_ok caps start s0 (run_match cap m s)"
      using run_match_ok [OF Cons.prems(2,3) cap _ Cons.prems(5) False] Cons.prems(4) by simp
    moreover have "enrich_matches maxSt cap ms (run_match cap m s) = Inr s'"
      using Cons.prems(1) False by (simp add: enrich_matches_Cons split: if_splits)
    ultimately show ?thesis
      using Cons.IH [of "run_match cap m s"] Cons.prems(3-5) by (auto simp: run_match_def Let_def)
  qed
qed simp

lemma enrich_pass_ok:
  "enrich_pass maxSt elig s = Inr s' \<Longrightarrow> enrich_ok caps start s0 s \<Longrightarrow> length s0 \<le> length (e_steps s) \<Longrightarrow>
   set elig \<subseteq> set caps \<Longrightarrow> \<forall>cap\<in>set elig. c_available cap \<noteq> Some False \<Longrightarrow> enrich_ok caps start s0 s'"
proof (induction elig arbitrary: s)
  case (Cons cap elig)
  from Cons.prems(1) obtain s1 where s1: "enrich_matches maxSt cap (matches_of (c_requires cap) (e_facts s)) s = Inr s1"
    "enrich_pass maxSt elig s1 = Inr s'" by (auto split: sum.splits)
  have "enrich_ok caps start s0 s1"
    by (rule enrich_matches_ok [OF _ _ s1(1) Cons.prems(2,3) order_refl order_refl]) (use Cons.prems in auto)
  moreover have "length s0 \<le> length (e_steps s1)"
    using enrich_matches_grows [OF s1(1)] Cons.prems(3) by auto
  ultimately show ?case using Cons.IH [OF s1(2)] Cons.prems by simp
qed simp

text \<open>A pass that changes nothing found every match blocked.\<close>

lemma run_match_changed: "e_changed (run_match cap m s)"
  by (simp add: run_match_def Let_def)

lemma enrich_matches_changed: "enrich_matches maxSt cap ms s = Inr s' \<Longrightarrow> e_changed s \<Longrightarrow> e_changed s'"
  using enrich_matches_grows by blast

lemma enrich_matches_idle:
  "enrich_matches maxSt cap ms s = Inr s' \<Longrightarrow> \<not> e_changed s' \<Longrightarrow> s' = s \<and> (\<forall>m\<in>set ms. blocked s cap (rm_inputs m))"
proof (induction ms arbitrary: s)
  case (Cons m ms)
  show ?case
  proof (cases "blocked s cap (rm_inputs m)")
    case True
    with Cons show ?thesis by (simp add: enrich_matches_Cons)
  next
    case False
    with Cons.prems(1) have "enrich_matches maxSt cap ms (run_match cap m s) = Inr s'"
      by (simp add: enrich_matches_Cons split: if_splits)
    with Cons.prems(2) show ?thesis using enrich_matches_changed run_match_changed by blast
  qed
qed simp

lemma enrich_pass_idle:
  "enrich_pass maxSt elig s = Inr s' \<Longrightarrow> \<not> e_changed s' \<Longrightarrow>
   s' = s \<and> (\<forall>cap\<in>set elig. \<forall>m\<in>set (matches_of (c_requires cap) (e_facts s)). blocked s cap (rm_inputs m))"
proof (induction elig arbitrary: s)
  case (Cons cap elig)
  from Cons.prems(1) obtain s1 where s1: "enrich_matches maxSt cap (matches_of (c_requires cap) (e_facts s)) s = Inr s1"
    "enrich_pass maxSt elig s1 = Inr s'" by (auto split: sum.splits)
  from Cons.IH [OF s1(2) Cons.prems(2)] have "s' = s1" by simp
  with enrich_matches_idle [OF s1(1)] Cons.IH [OF s1(2) Cons.prems(2)] Cons.prems(2) show ?case by auto
qed simp

lemma enrich_loop_ok:
  "enrich_loop maxSt elig s = Inr s' \<Longrightarrow> enrich_ok caps start s0 s \<Longrightarrow> length s0 \<le> length (e_steps s) \<Longrightarrow>
   set elig \<subseteq> set caps \<Longrightarrow> \<forall>cap\<in>set elig. c_available cap \<noteq> Some False \<Longrightarrow>
   enrich_ok caps start s0 s' \<and> length (e_steps s') \<le> max maxSt (length (e_steps s)) \<and>
   (\<forall>cap\<in>set elig. \<forall>m\<in>set (matches_of (c_requires cap) (e_facts s')). blocked s' cap (rm_inputs m))"
proof (induction maxSt elig s rule: enrich_loop.induct)
  case (1 maxSt elig s)
  let ?s0 = "s\<lparr>e_changed := False\<rparr>"
  from 1(2) obtain s1 where pass: "enrich_pass maxSt elig ?s0 = Inr s1"
    and nxt: "(if e_changed s1 then enrich_loop maxSt elig s1 else Inr s1) = Inr s'"
    by (subst (asm) enrich_loop.simps) (auto split: sum.splits)
  have "enrich_ok caps start s0 ?s0" using 1(3) by (simp add: enrich_ok_def)
  then have ok1: "enrich_ok caps start s0 s1"
    using enrich_pass_ok [OF pass _ _ 1(5,6)] 1(4) by simp
  have len: "length s0 \<le> length (e_steps s1)" "length (e_steps s1) \<le> max maxSt (length (e_steps s))"
    "e_changed s1 \<Longrightarrow> length (e_steps s1) \<le> maxSt"
    using enrich_pass_grows [OF pass] 1(4) by auto
  show ?case
  proof (cases "e_changed s1")
    case True
    with 1(1) [OF pass True _ ok1 len(1) 1(5,6)] nxt len(2,3) show ?thesis by auto
  next
    case False
    with nxt enrich_pass_idle [OF pass] ok1 len(2) show ?thesis by auto
  qed
qed

section \<open>Properties\<close>

abbreviation enrich_limit :: "EnrichmentOptions \<Rightarrow> nat" where
  "enrich_limit options \<equiv> orelse (enr_maxSteps options) DEFAULT_MAX_ENRICHMENT_STEPS"

abbreviation eligible :: "Capability list \<Rightarrow> EnrichmentOptions \<Rightarrow> Capability list" where
  "eligible caps options \<equiv> filter (eligible_for_enrichment (factFamilies options)) caps"

lemma foldl_cost: "foldl (\<lambda>total step. total + ps_cost step) c steps = c + plan_cost steps"
  by (induction steps arbitrary: c) (simp_all add: plan_cost_def)

lemma uniq_no_hyp [simp]: "uniq [] = []"
  by (simp add: uniq_def)

lemma expandEnrichment_OkD:
  assumes run: "expandEnrichment ck caps facts steps0 options goals = EnrichOk p n"
    and facts: "facts = plan_facts start steps0" and valid: "plan_valid all start steps0"
    and sub: "set (eligible caps options) \<subseteq> set all"
  shows "plan_valid all start (ap_steps p)" "ap_results p = plan_facts start (ap_steps p)"
    "ap_totalCost p = plan_cost (ap_steps p)" "ap_goals p = goals"
    "length (ap_steps p) \<le> max (enrich_limit options) (length steps0)"
    "steps0 = [] \<Longrightarrow> distinct (map step_invocation (ap_steps p))" "steps0 = [] \<Longrightarrow> n = length (ap_steps p)"
    "\<And>i. i < length (ap_steps p) \<Longrightarrow> length steps0 \<le> i \<Longrightarrow> no_feedback (take i (ap_steps p)) (ap_steps p ! i)"
    "take (length steps0) (ap_steps p) = steps0"
    "\<And>cap vs. cap \<in> set (eligible caps options) \<Longrightarrow> set vs \<subseteq> set (ap_results p) \<Longrightarrow>
       jointly_provable (c_requires cap) vs \<Longrightarrow>
       (\<exists>v\<in>set vs. hasCapabilityInAncestry v (c_id cap) (ap_steps p)) \<or>
       (\<exists>st\<in>set (ap_steps p). step_invocation st = invocation_key (c_id cap) vs)"
proof -
  let ?elig = "sort_by (by_id ck) (eligible caps options)"
  let ?s0 = "\<lparr>e_steps = steps0, e_facts = facts, e_invoked = uniq (map step_invocation steps0), e_changed = False\<rparr>"
  from run obtain s where loop: "enrich_loop (enrich_limit options) ?elig ?s0 = Inr s"
    and p: "p = \<lparr>ap_goals = goals, ap_steps = e_steps s, ap_totalCost = plan_cost (e_steps s), ap_results = e_facts s\<rparr>"
    and n: "n = length (e_invoked s)"
    by (auto simp: expandEnrichment_def Let_def foldl_cost step_invocation_def [abs_def, symmetric] split: sum.splits)
  have ok0: "enrich_ok all start steps0 ?s0"
    using facts valid by (auto simp: enrich_ok_def)
  have fin: "enrich_ok all start steps0 s" "length (e_steps s) \<le> max (enrich_limit options) (length steps0)"
    "\<forall>cap\<in>set ?elig. \<forall>m\<in>set (matches_of (c_requires cap) (e_facts s)). blocked s cap (rm_inputs m)"
  proof -
    have "set ?elig \<subseteq> set all" "\<forall>cap\<in>set ?elig. c_available cap \<noteq> Some False"
      using sub by (simp_all add: eligible_for_enrichment_def)
    moreover have "length steps0 \<le> length (e_steps ?s0)" by simp
    ultimately have "enrich_ok all start steps0 s \<and> length (e_steps s) \<le> max (enrich_limit options) (length (e_steps ?s0)) \<and>
      (\<forall>cap\<in>set ?elig. \<forall>m\<in>set (matches_of (c_requires cap) (e_facts s)). blocked s cap (rm_inputs m))"
      using enrich_loop_ok [OF loop ok0] by blast
    then
    show "enrich_ok all start steps0 s" "length (e_steps s) \<le> max (enrich_limit options) (length steps0)"
      "\<forall>cap\<in>set ?elig. \<forall>m\<in>set (matches_of (c_requires cap) (e_facts s)). blocked s cap (rm_inputs m)"
      unfolding enrich_state.simps by blast+
  qed
  have "steps0 = [] \<longrightarrow> distinct (map step_invocation (e_steps s))"
    using fin(1) unfolding enrich_ok_def by metis
  with fin(1,2) show "plan_valid all start (ap_steps p)" "ap_results p = plan_facts start (ap_steps p)"
    "ap_totalCost p = plan_cost (ap_steps p)" "ap_goals p = goals"
    "length (ap_steps p) \<le> max (enrich_limit options) (length steps0)"
    "steps0 = [] \<Longrightarrow> distinct (map step_invocation (ap_steps p))" "steps0 = [] \<Longrightarrow> n = length (ap_steps p)"
    "\<And>i. i < length (ap_steps p) \<Longrightarrow> length steps0 \<le> i \<Longrightarrow> no_feedback (take i (ap_steps p)) (ap_steps p ! i)"
    "take (length steps0) (ap_steps p) = steps0"
    by (simp_all add: p n enrich_ok_def)
  fix cap vs
  assume cap: "cap \<in> set (eligible caps options)" and vs: "set vs \<subseteq> set (ap_results p)" "jointly_provable (c_requires cap) vs"
  from vs obtain m where m: "m \<in> set (matches_of (c_requires cap) (e_facts s))" "rm_inputs m = vs"
    using matches_of_iff [of vs "c_requires cap" "e_facts s"] by (auto simp: p)
  with fin(3) cap have "blocked s cap vs" by auto
  with fin(1) show "(\<exists>v\<in>set vs. hasCapabilityInAncestry v (c_id cap) (ap_steps p)) \<or>
       (\<exists>st\<in>set (ap_steps p). step_invocation st = invocation_key (c_id cap) vs)"
    by (auto simp: blocked_def p enrich_ok_def list_ex_iff image_iff)
qed

lemma planEnrichment_OkD:
  "planEnrichment ck caps ings options = EnrichOk p n \<Longrightarrow>
   expandEnrichment ck caps (map ingredient_value ings) [] options [] = EnrichOk p n"
  by (simp add: planEnrichment_def)

lemma plan_facts_none: "start = plan_facts start []"
  by (simp add: plan_facts_def)

lemmas enrichment_OkD =
  expandEnrichment_OkD [OF planEnrichment_OkD plan_facts_none plan_valid_Nil order_refl]




lemma planGoalThenEnrichment_OkD:
  "planGoalThenEnrichment ck caps ings goals families options = GoalEnrichOk p n explored \<Longrightarrow>
   \<exists>exact. solve ck caps ings goals options = SolveOk exact explored \<and>
     take (length (ap_steps exact)) (ap_steps p) = ap_steps exact \<and>
     plan_valid caps (map ingredient_value ings) (ap_steps p) \<and> jointly_provable goals (ap_results exact) \<and>
     set (ap_results exact) \<subseteq> set (plan_facts (map ingredient_value ings) (ap_steps exact)) \<and>
     ap_goals p = goals \<and> ap_totalCost p = plan_cost (ap_steps p) \<and>
     (\<forall>i<length (ap_steps p). length (ap_steps exact) \<le> i \<longrightarrow>
        no_feedback (take i (ap_steps p)) (ap_steps p ! i))"
proof -
  assume "planGoalThenEnrichment ck caps ings goals families options = GoalEnrichOk p n explored"
  then obtain exact where ex: "solve ck caps ings goals options = SolveOk exact explored"
    and run: "expandEnrichment ck caps (plan_facts (map ingredient_value ings) (ap_steps exact)) (ap_steps exact)
       \<lparr>factFamilies = families, enr_maxSteps = maxSteps options\<rparr> goals = EnrichOk p n"
    by (auto simp: planGoalThenEnrichment_def plan_facts_def Let_def split: SolveResult.splits EnrichmentPlanResult.splits)
  note ok = solve_OkD [OF ex] and enr = expandEnrichment_OkD [OF run refl solve_OkD(1) [OF ex]]
  show ?thesis using ex ok enr by auto
qed

text \<open>A goal with enrichment: the program is executable, starts with the steps that prove the
  goals, and no step added after them is fed a consequence of its own capability.\<close>

theorem goal_then_enrichment_sound:
  "planGoalThenEnrichment ck caps ings goals families options = GoalEnrichOk p n explored \<Longrightarrow>
   \<exists>exact. solve ck caps ings goals options = SolveOk exact explored \<and>
     take (length (ap_steps exact)) (ap_steps p) = ap_steps exact \<and>
     plan_valid caps (map ingredient_value ings) (ap_steps p) \<and> jointly_provable goals (ap_results exact) \<and>
     set (ap_results exact) \<subseteq> set (plan_facts (map ingredient_value ings) (ap_steps exact)) \<and>
     ap_goals p = goals \<and> ap_totalCost p = plan_cost (ap_steps p) \<and>
     (\<forall>i<length (ap_steps p). length (ap_steps exact) \<le> i \<longrightarrow>
        no_feedback (take i (ap_steps p)) (ap_steps p ! i))"
  by (rule planGoalThenEnrichment_OkD)

section \<open>Witnesses\<close>

definition enrich_demo_options :: EnrichmentOptions where
  "enrich_demo_options = \<lparr>factFamilies = [''k'', ''t''], enr_maxSteps = Some 3\<rparr>"

lemma demo_enrichment:
  "planEnrichment demo_ck demo_caps demo_ingredients enrich_demo_options =
   EnrichOk (demo_program\<lparr>ap_goals := [], ap_results :=
      map ingredient_value demo_ingredients @ [demo_text] @ ap_results demo_program\<rparr>) 2"
  by code_simp



definition file_value :: PlanValue where
  "file_value = \<lparr>pv_predicate = ''f(d)'', pv_source = FromIngredient (Some ''a'')\<rparr>"

lemma demo_provable: "jointly_provable [''f(D)''] [file_value]"
proof -
  have "[file_value] \<in> rm_inputs ` set (matches_of [''f(D)''] [file_value])" by code_simp
  then show ?thesis using matches_of_iff by blast
qed


lemma demo_goal_enrichment:
  "\<exists>p. planGoalThenEnrichment demo_ck demo_caps demo_ingredients [''k(d)''] [''t''] demo_options =
     GoalEnrichOk p 2 3"
proof -
  have "planGoalThenEnrichment demo_ck demo_caps demo_ingredients [''k(d)''] [''t''] demo_options =
     GoalEnrichOk (demo_program\<lparr>ap_results :=
      map ingredient_value demo_ingredients @ [demo_text] @ ap_results demo_program\<rparr>) 2 3"
    by code_simp
  then show ?thesis by blast
qed

theorem goal_then_enrichment_sound_witness:
  "\<exists>p. planGoalThenEnrichment demo_ck demo_caps demo_ingredients [''k(d)''] [''t''] demo_options =
     GoalEnrichOk p 2 3 \<and> plan_valid demo_caps (map ingredient_value demo_ingredients) (ap_steps p)"
  using demo_goal_enrichment goal_then_enrichment_sound by blast

end
