(* ===== verification/Physical.thy ===== *)
theory Physical
  imports Authorization Planner_Enrich
begin

text \<open>
  libs/aven-actors/src/physical-planner.ts: planning over the capabilities and placements one principal
  may use, in one execution environment, and the placement of every step of the program found.
\<close>

record PhysicalPlanStep = PlanStep +
  target :: AuthorizedActorTarget

record PhysicalProgram =
  pp_goals :: "Predicate list"
  pp_totalCost :: int
  pp_results :: "PlanValue list"
  pp_registryRevision :: nat
  pp_subjectId :: string
  pp_tenantId :: "string option"
  pp_executionEnvironment :: ExecutionEnvironment
  pp_steps :: "PhysicalPlanStep list"

record PhysicalPlanningOptions =
  ph_options :: SolveOptions
  ph_environment :: ExecutionEnvironment

datatype PhysicalPlanResult =
    PhysicalOk PhysicalProgram nat
  | PhysicalFail "Predicate list" nat string

datatype PhysicalEnrichmentResult =
    PhysicalEnrichOk PhysicalProgram nat
  | PhysicalEnrichFail string nat

definition availableCapabilities :: "AuthorizedRegistryView \<Rightarrow> ExecutionEnvironment \<Rightarrow> AuthorizedCapability list" where
  "availableCapabilities view env =
     filter (\<lambda>ac. ac_targets ac \<noteq> [])
       (map (\<lambda>ac. \<lparr>ac_capability = ac_capability ac,
                   ac_targets = filter (\<lambda>t. target_environment t = env) (ac_targets ac)\<rparr>)
          (v_capabilities view))"

text \<open>The cost of a capability for the search: its own and that of its cheapest placement.\<close>

definition placed_capability :: "AuthorizedCapability \<Rightarrow> Capability" where
  "placed_capability ac = (ac_capability ac)\<lparr>c_cost :=
     Some (orelse (c_cost (ac_capability ac)) 1 + Min (target_cost ` set (ac_targets ac)))\<rparr>"

definition place :: "PlanStep \<Rightarrow> AuthorizedActorTarget \<Rightarrow> PhysicalPlanStep" where
  "place step t = PlanStep.extend step \<lparr>target = t\<rparr>"

definition place_step :: "(string, AuthorizedActorTarget) jsmap \<Rightarrow> PlanStep \<Rightarrow> PhysicalPlanStep res" where
  "place_step targets step =
     (case map_of targets (ps_capability step) of
        None \<Rightarrow> Inl (Err (''authorized target disappeared for '' @ ps_capability step))
      | Some t \<Rightarrow> Inr (place step t))"

definition physicalProgram :: "AuthorizedRegistryView \<Rightarrow> AdHocProgram \<Rightarrow> AuthorizedCapability list \<Rightarrow>
    ExecutionEnvironment \<Rightarrow> PhysicalProgram res" where
  "physicalProgram view logical capabilities env =
     (let targets = map_from (map (\<lambda>ac. (c_id (ac_capability ac), hd (ac_targets ac))) capabilities) in
      rbind (traverse (place_step targets) (ap_steps logical)) (\<lambda>steps.
      Inr \<lparr>pp_goals = ap_goals logical, pp_totalCost = ap_totalCost logical, pp_results = ap_results logical,
           pp_registryRevision = v_registryRevision view, pp_subjectId = subjectId (v_principal view),
           pp_tenantId = truthy (tenantId (v_access view)), pp_executionEnvironment = env, pp_steps = steps\<rparr>))"

definition solveAuthorized :: "collation \<Rightarrow> AuthorizedRegistryView \<Rightarrow> Ingredient list \<Rightarrow> Predicate list \<Rightarrow>
    PhysicalPlanningOptions \<Rightarrow> PhysicalPlanResult res" where
  "solveAuthorized ck view ingredients goals options =
     (let capabilities = availableCapabilities view (ph_environment options) in
      case solve ck (map placed_capability capabilities) ingredients goals (ph_options options) of
        SolveFail unmet n reason \<Rightarrow> Inr (PhysicalFail unmet n reason)
      | SolveOk program n \<Rightarrow>
          rbind (physicalProgram view program capabilities (ph_environment options)) (\<lambda>p. Inr (PhysicalOk p n)))"

definition enrichAuthorized :: "collation \<Rightarrow> AuthorizedRegistryView \<Rightarrow> Ingredient list \<Rightarrow> string list \<Rightarrow>
    PhysicalPlanningOptions \<Rightarrow> PhysicalEnrichmentResult res" where
  "enrichAuthorized ck view ingredients families options =
     (let capabilities = availableCapabilities view (ph_environment options) in
      case planEnrichment ck (map placed_capability capabilities) ingredients
             \<lparr>factFamilies = families, enr_maxSteps = maxSteps (ph_options options)\<rparr> of
        EnrichFail reason n \<Rightarrow> Inr (PhysicalEnrichFail reason n)
      | EnrichOk program n \<Rightarrow>
          rbind (physicalProgram view program capabilities (ph_environment options)) (\<lambda>p. Inr (PhysicalEnrichOk p n)))"

definition enrichAfterGoalsAuthorized :: "collation \<Rightarrow> AuthorizedRegistryView \<Rightarrow> Ingredient list \<Rightarrow> Predicate list \<Rightarrow>
    string list \<Rightarrow> PhysicalPlanningOptions \<Rightarrow> PhysicalEnrichmentResult res" where
  "enrichAfterGoalsAuthorized ck view ingredients goals families options =
     (let capabilities = availableCapabilities view (ph_environment options) in
      case planGoalThenEnrichment ck (map placed_capability capabilities) ingredients goals families (ph_options options) of
        GoalEnrichFail reason n _ \<Rightarrow> Inr (PhysicalEnrichFail reason n)
      | GoalEnrichOk program n _ \<Rightarrow>
          rbind (physicalProgram view program capabilities (ph_environment options)) (\<lambda>p. Inr (PhysicalEnrichOk p n)))"

section \<open>Placement\<close>

text \<open>The step runs a capability of the view on one of its targets in the environment.\<close>

definition placed_in :: "AuthorizedRegistryView \<Rightarrow> ExecutionEnvironment \<Rightarrow> PhysicalPlanStep \<Rightarrow> bool" where
  "placed_in view env st \<longleftrightarrow>
     (\<exists>ac\<in>set (v_capabilities view). c_id (ac_capability ac) = ps_capability st \<and> target st \<in> set (ac_targets ac)) \<and>
     target_environment (target st) = env"

abbreviation planning_catalog :: "AuthorizedRegistryView \<Rightarrow> ExecutionEnvironment \<Rightarrow> Capability list" where
  "planning_catalog view env \<equiv> map placed_capability (availableCapabilities view env)"

abbreviation logical_steps :: "PhysicalPlanStep list \<Rightarrow> PlanStep list" where
  "logical_steps steps \<equiv> map PlanStep.truncate steps"

lemma place_simps [simp]:
  "PlanStep.truncate (place step t) = step" "target (place step t) = t" "ps_capability (place step t) = ps_capability step"
  by (simp_all add: place_def PlanStep.defs)

lemma availableD:
  "ac \<in> set (availableCapabilities view env) \<Longrightarrow>
   ac_targets ac \<noteq> [] \<and> (\<exists>ac0\<in>set (v_capabilities view). ac_capability ac0 = ac_capability ac \<and>
     (\<forall>t\<in>set (ac_targets ac). t \<in> set (ac_targets ac0) \<and> target_environment t = env))"
  by (force simp: availableCapabilities_def)

lemma placed_capability_id [simp]: "c_id (placed_capability ac) = c_id (ac_capability ac)"
  by (simp add: placed_capability_def)

lemma place_step_known:
  assumes "cap \<in> set (planning_catalog view env)" "ps_capability step = c_id cap"
  shows "\<exists>t. place_step (map_from (map (\<lambda>ac. (c_id (ac_capability ac), hd (ac_targets ac))) (availableCapabilities view env))) step =
    Inr (place step t) \<and> placed_in view env (place step t)"
proof -
  let ?m = "map_from (map (\<lambda>ac. (c_id (ac_capability ac), hd (ac_targets ac))) (availableCapabilities view env))"
  have "has ?m (ps_capability step)" using assms by (auto simp: image_image)
  then obtain t where t: "map_of ?m (ps_capability step) = Some t" unfolding has_map_of by blast
  then have "(ps_capability step, t) \<in> set (map (\<lambda>ac. (c_id (ac_capability ac), hd (ac_targets ac))) (availableCapabilities view env))"
    by (auto simp: map_of_map_from dest: map_of_SomeD)
  then obtain ac where ac: "ac \<in> set (availableCapabilities view env)" "c_id (ac_capability ac) = ps_capability step"
    "hd (ac_targets ac) = t" by auto
  from availableD [OF ac(1)] ac(3) obtain ac0 where "ac0 \<in> set (v_capabilities view)" "ac_capability ac0 = ac_capability ac"
    "t \<in> set (ac_targets ac0)" "target_environment t = env" by auto
  with ac(2) have "placed_in view env (place step t)"
    unfolding placed_in_def place_simps by (metis (no_types))
  with t show ?thesis unfolding place_step_def by (intro exI [of _ t]) simp
qed

lemma physicalProgram_ok:
  assumes valid: "plan_valid (planning_catalog view env) start (ap_steps prog)"
  shows "\<exists>p. physicalProgram view prog (availableCapabilities view env) env = Inr p \<and>
    logical_steps (pp_steps p) = ap_steps prog \<and> (\<forall>st\<in>set (pp_steps p). placed_in view env st) \<and>
    pp_goals p = ap_goals prog \<and> pp_totalCost p = ap_totalCost prog \<and> pp_results p = ap_results prog \<and>
    pp_executionEnvironment p = env \<and> pp_subjectId p = subjectId (v_principal view)"
proof -
  let ?m = "map_from (map (\<lambda>ac. (c_id (ac_capability ac), hd (ac_targets ac))) (availableCapabilities view env))"
  have "\<exists>t. place_step ?m step = Inr (place step t) \<and> placed_in view env (place step t)" if "step \<in> set (ap_steps prog)" for step
  proof -
    from that obtain i where "i < length (ap_steps prog)" "step = ap_steps prog ! i" by (auto simp: in_set_conv_nth)
    with valid have "runs_capability (planning_catalog view env) step"
      by (simp add: plan_valid_def step_ok_def)
    then obtain cap where "cap \<in> set (planning_catalog view env)" "ps_capability step = c_id cap"
      unfolding runs_capability_def by blast
    then show ?thesis by (rule place_step_known)
  qed
  then obtain tgt where tgt: "\<And>step. step \<in> set (ap_steps prog) \<Longrightarrow>
      place_step ?m step = Inr (place step (tgt step)) \<and> placed_in view env (place step (tgt step))" by metis
  then have "traverse (place_step ?m) (ap_steps prog) = Inr (map (\<lambda>step. place step (tgt step)) (ap_steps prog))"
    unfolding traverse_Inr_iff by (simp add: list_all2_conv_all_nth)
  with tgt show ?thesis
    by (auto simp: physicalProgram_def Let_def comp_def)
qed

lemma enrichAfterGoals_placed:
  "case enrichAfterGoalsAuthorized ck view ings goals families options of
     Inl e \<Rightarrow> False
   | Inr (PhysicalEnrichFail reason n) \<Rightarrow> True
   | Inr (PhysicalEnrichOk p n) \<Rightarrow> (\<forall>st\<in>set (pp_steps p). placed_in view (ph_environment options) st)"
proof (cases "planGoalThenEnrichment ck (planning_catalog view (ph_environment options)) ings goals families (ph_options options)")
  case (GoalEnrichOk prog n explored)
  from planGoalThenEnrichment_OkD [OF this]
  have "plan_valid (planning_catalog view (ph_environment options)) (map ingredient_value ings) (ap_steps prog)" by blast
  from physicalProgram_ok [OF this] GoalEnrichOk show ?thesis
    by (auto simp: enrichAfterGoalsAuthorized_def Let_def)
qed (simp add: enrichAfterGoalsAuthorized_def Let_def)

lemma solveAuthorized_result:
  "case solveAuthorized ck view ings goals options of
     Inl e \<Rightarrow> False
   | Inr (PhysicalFail unmet n reason) \<Rightarrow> True
   | Inr (PhysicalOk p n) \<Rightarrow>
       plan_valid (planning_catalog view (ph_environment options)) (map ingredient_value ings) (logical_steps (pp_steps p)) \<and>
       jointly_provable goals (pp_results p) \<and> pp_totalCost p = plan_cost (logical_steps (pp_steps p)) \<and>
       (\<forall>st\<in>set (pp_steps p). placed_in view (ph_environment options) st)"
proof (cases "solve ck (planning_catalog view (ph_environment options)) ings goals (ph_options options)")
  case (SolveOk prog n)
  note ok = solve_OkD [OF SolveOk]
  from physicalProgram_ok [OF ok(1)] ok SolveOk show ?thesis
    by (auto simp: solveAuthorized_def Let_def)
qed (simp add: solveAuthorized_def Let_def)

lemma enrichAuthorized_result:
  "case enrichAuthorized ck view ings families options of
     Inl e \<Rightarrow> False
   | Inr (PhysicalEnrichFail reason n) \<Rightarrow> True
   | Inr (PhysicalEnrichOk p n) \<Rightarrow>
       plan_valid (filter (eligible_for_enrichment families) (planning_catalog view (ph_environment options)))
         (map ingredient_value ings) (logical_steps (pp_steps p)) \<and>
       (\<forall>st\<in>set (pp_steps p). placed_in view (ph_environment options) st)"
proof (cases "planEnrichment ck (planning_catalog view (ph_environment options)) ings
    \<lparr>factFamilies = families, enr_maxSteps = maxSteps (ph_options options)\<rparr>")
  case (EnrichOk prog n)
  note ok = enrichment_OkD(1) [OF EnrichOk]
  have "plan_valid (planning_catalog view (ph_environment options)) (map ingredient_value ings) (ap_steps prog)"
    using ok by (auto simp: plan_valid_def elim!: step_ok_mono)
  from physicalProgram_ok [OF this] ok EnrichOk show ?thesis
    by (auto simp: enrichAuthorized_def Let_def)
qed (simp add: enrichAuthorized_def Let_def)

lemma placed_results:
  "solveAuthorized ck view ings goals options = Inr (PhysicalOk p n) \<Longrightarrow> st \<in> set (pp_steps p) \<Longrightarrow>
     placed_in view (ph_environment options) st"
  "enrichAuthorized ck view ings families options = Inr (PhysicalEnrichOk p n) \<Longrightarrow> st \<in> set (pp_steps p) \<Longrightarrow>
     placed_in view (ph_environment options) st"
  "enrichAfterGoalsAuthorized ck view ings goals families options = Inr (PhysicalEnrichOk p n) \<Longrightarrow> st \<in> set (pp_steps p) \<Longrightarrow>
     placed_in view (ph_environment options) st"
  using solveAuthorized_result [where ck = ck and view = view and ings = ings and goals = goals and options = options] 
    enrichAuthorized_result [where ck = ck and view = view and ings = ings and families = families and options = options]
    enrichAfterGoals_placed [where ck = ck and view = view and ings = ings and goals = goals and families = families and options = options] by simp_all

section \<open>Properties\<close>

text \<open>C10. Planning for a principal never throws: the target of a planned step does not disappear.  When it succeeds,
  the logical program is executable over the authorized capabilities, proves the goals, and every step is placed on
  an authorized target in the requested environment.\<close>

theorem solveAuthorized_placed:
  "case solveAuthorized ck view ings goals options of
     Inl e \<Rightarrow> False
   | Inr (PhysicalFail unmet n reason) \<Rightarrow> True
   | Inr (PhysicalOk p n) \<Rightarrow>
       plan_valid (planning_catalog view (ph_environment options)) (map ingredient_value ings) (logical_steps (pp_steps p)) \<and>
       jointly_provable goals (pp_results p) \<and> pp_totalCost p = plan_cost (logical_steps (pp_steps p)) \<and>
       list_all (placed_in view (ph_environment options)) (pp_steps p)"
  unfolding list_all_iff by (rule solveAuthorized_result)

text \<open>The same for enrichment; moreover every placed step runs a capability that is no effect, stream or
  view.\<close>

theorem enrichAuthorized_placed:
  "case enrichAuthorized ck view ings families options of
     Inl e \<Rightarrow> False
   | Inr (PhysicalEnrichFail reason n) \<Rightarrow> True
   | Inr (PhysicalEnrichOk p n) \<Rightarrow>
       plan_valid (filter (eligible_for_enrichment families) (planning_catalog view (ph_environment options)))
         (map ingredient_value ings) (logical_steps (pp_steps p)) \<and>
       list_all (placed_in view (ph_environment options)) (pp_steps p)"
  unfolding list_all_iff by (rule enrichAuthorized_result)

end
