(* ===== verification/Run.thy ===== *)
theory Run
  imports Authorization
begin

text \<open>
  libs/aven-actors/src/run.ts: the portable contract of a plan run.  Its state machine, and the check
  that a value may cross a process boundary, first on the object graph of JavaScript, where it must stop at
  cycles, and then on the values that are trees, which the other components use.
\<close>

section \<open>Run states\<close>

datatype PlanRunState =
  Accepted | Planning | Running | WaitingForInput | Succeeded | Failed | Cancelled

fun TRANSITIONS :: "PlanRunState \<Rightarrow> PlanRunState list" where
  "TRANSITIONS Accepted = [Planning, Cancelled, Failed]"
| "TRANSITIONS Planning = [Running, WaitingForInput, Cancelled, Failed]"
| "TRANSITIONS Running = [Planning, WaitingForInput, Succeeded, Cancelled, Failed]"
| "TRANSITIONS WaitingForInput = [Planning, Running, Cancelled, Failed]"
| "TRANSITIONS Succeeded = []"
| "TRANSITIONS Failed = [Planning, Cancelled]"
| "TRANSITIONS Cancelled = []"

fun state_name :: "PlanRunState \<Rightarrow> string" where
  "state_name Accepted = ''accepted''"
| "state_name Planning = ''planning''"
| "state_name Running = ''running''"
| "state_name WaitingForInput = ''waiting_for_input''"
| "state_name Succeeded = ''succeeded''"
| "state_name Failed = ''failed''"
| "state_name Cancelled = ''cancelled''"

definition assertPlanRunTransition :: "PlanRunState \<Rightarrow> PlanRunState \<Rightarrow> unit res" where
  "assertPlanRunTransition from to =
     (if from = to then Inr ()
      else throw_if (to \<notin> set (TRANSITIONS from))
             (Err (''invalid plan run transition '' @ state_name from @ '' -> '' @ state_name to)))"

definition may_move :: "PlanRunState \<Rightarrow> PlanRunState \<Rightarrow> bool" where
  "may_move from to \<longleftrightarrow> assertPlanRunTransition from to = Inr ()"

lemma may_move_iff: "may_move from to \<longleftrightarrow> from = to \<or> to \<in> set (TRANSITIONS from)"
  by (auto simp: may_move_def assertPlanRunTransition_def)

definition terminal_state :: "PlanRunState \<Rightarrow> bool" where
  "terminal_state s \<longleftrightarrow> s \<in> {Succeeded, Cancelled}"

text \<open>Succeeded and cancelled runs never move again, and a cancelled or succeeded state is entered once.\<close>

lemma terminal_stuck: "terminal_state s \<Longrightarrow> may_move s t \<longleftrightarrow> t = s"
  by (cases s) (auto simp: terminal_state_def may_move_iff)

section \<open>Portable values\<close>

datatype jsnum = Finite int | NotFinite

text \<open>A JavaScript value; \<open>HOther\<close> is undefined, a function, a symbol or a big integer.\<close>

datatype hval = HNull | HBool bool | HNum jsnum | HStr string | HOther | HRef nat

text \<open>An object of the heap: an array, or an object with its own enumerable entries, which is plain when its
  prototype is \<open>Object.prototype\<close> or null.\<close>

datatype hobj = HArr "hval list" | HObj bool "(string \<times> hval) list"

type_synonym heap = "(nat \<times> hobj) list"

fun members :: "string \<Rightarrow> hobj \<Rightarrow> (string \<times> hval) list" where
  "members path (HArr items) =
     map (\<lambda>(i, v). (path @ ''['' @ string_of_nat i @ '']'', v)) (enumerate 0 items)"
| "members path (HObj _ entries) = map (\<lambda>(k, v). (path @ ''.'' @ k, v)) entries"

fun plain_object :: "hobj \<Rightarrow> bool" where
  "plain_object (HArr _) = True"
| "plain_object (HObj p _) = p"

text \<open>\<open>seen\<close> holds the objects on the path from the root.  A reference to no object does not occur in
  JavaScript.\<close>

function assertPortable :: "heap \<Rightarrow> hval \<Rightarrow> string \<Rightarrow> nat set \<Rightarrow> unit res"
  and assertMembers :: "heap \<Rightarrow> (string \<times> hval) list \<Rightarrow> nat set \<Rightarrow> unit res" where
  "assertPortable h v path seen =
     (case v of
        HNull \<Rightarrow> Inr ()
      | HStr _ \<Rightarrow> Inr ()
      | HBool _ \<Rightarrow> Inr ()
      | HNum n \<Rightarrow> throw_if (n = NotFinite) (Err (path @ '' is not a finite JSON number''))
      | HOther \<Rightarrow> Inl (Err (path @ '' is not portable JSON''))
      | HRef a \<Rightarrow>
          if a \<in> seen then Inl (Err (path @ '' contains a cycle''))
          else (case map_of h a of
                  None \<Rightarrow> Inl (Err (path @ '' is not portable JSON''))
                | Some obj \<Rightarrow>
                    if \<not> plain_object obj then Inl (Err (path @ '' must be a plain object''))
                    else assertMembers h (members path obj) (insert a seen)))"
| "assertMembers h [] seen = Inr ()"
| "assertMembers h ((path, v) # rest) seen =
     rbind (assertPortable h v path seen) (\<lambda>_. assertMembers h rest seen)"
  by pat_completeness auto
termination
proof (relation "measures
    [\<lambda>x. case x of Inl (h, _, _, seen) \<Rightarrow> card (fst ` set h - seen) | Inr (h, _, seen) \<Rightarrow> card (fst ` set h - seen),
     \<lambda>x. case x of Inl _ \<Rightarrow> 0 | Inr (_, ms, _) \<Rightarrow> Suc (length ms)]", goal_cases)
  case (2 h v path seen a obj)
  then have "a \<in> fst ` set h" by (metis domI dom_map_of_conv_image_fst)
  with 2(2) have "fst ` set h - insert a seen \<subset> fst ` set h - seen" by auto
  then show ?case by (simp add: psubset_card_mono)
qed auto

declare assertPortable.simps [simp del]

text \<open>The JSON value a portable value denotes.\<close>

inductive denotes :: "heap \<Rightarrow> hval \<Rightarrow> json \<Rightarrow> bool" for h where
  "denotes h HNull JNull"
| "denotes h (HBool b) (JBool b)"
| "denotes h (HStr s) (JStr s)"
| "denotes h (HNum (Finite n)) (JNum n)"
| "map_of h a = Some (HArr items) \<Longrightarrow> list_all2 (denotes h) items js \<Longrightarrow> denotes h (HRef a) (JArr js)"
| "map_of h a = Some (HObj True entries) \<Longrightarrow> map fst entries = map fst kjs \<Longrightarrow>
   list_all2 (denotes h) (map snd entries) (map snd kjs) \<Longrightarrow> denotes h (HRef a) (JObj kjs)"

inductive_cases denotesE:
  "denotes h HNull j" "denotes h (HBool b) j" "denotes h (HStr s) j" "denotes h (HNum n) j"
  "denotes h HOther j" "denotes h (HRef a) j"

text \<open>The parts of a value and of the JSON value it denotes.\<close>

fun parts :: "json \<Rightarrow> json list" where
  "parts (JArr js) = js"
| "parts (JObj kjs) = map snd kjs"
| "parts _ = []"

lemma denotes_ref:
  "denotes h (HRef a) j \<Longrightarrow> \<exists>obj. map_of h a = Some obj \<and> plain_object obj \<and>
     list_all2 (denotes h) (map snd (members path obj)) (parts j)"
proof (erule denotesE)
  fix items js
  assume "j = JArr js" "map_of h a = Some (HArr items)" "list_all2 (denotes h) items js"
  moreover have "map snd (members path (HArr items)) = items"
    by (rule nth_equalityI) (simp_all add: nth_enumerate_eq)
  ultimately show ?thesis by simp
qed (auto simp: comp_def split_def)

lemma size_parts: "p \<in> set (parts j) \<Longrightarrow> size p < size j"
proof (cases j)
  case (JArr js)
  then show "p \<in> set (parts j) \<Longrightarrow> ?thesis" by (auto dest: size_list_estimation' [OF _ order_refl, of _ _ size])
next
  case (JObj kjs)
  assume "p \<in> set (parts j)"
  with JObj obtain k where kp: "(k, p) \<in> set kjs" by auto
  have "size_prod (\<lambda>_. 0) size (k, p) \<le> size_list (size_prod (\<lambda>_. 0) size) kjs"
    using size_list_estimation' [OF kp order_refl] by blast
  with JObj show ?thesis by simp
qed auto

lemma denotes_fun: "denotes h v j \<Longrightarrow> denotes h v j' \<Longrightarrow> j' = j"
proof (induction arbitrary: j' rule: denotes.induct)
  case (5 a items js)
  from 5(3,1) obtain js' where j': "j' = JArr js'" "list_all2 (denotes h) items js'"
    by (auto elim: denotesE)
  have "js' = js"
    by (rule nth_equalityI) (use 5(2) j'(2) in \<open>auto simp: list_all2_conv_all_nth\<close>)
  with j' show ?case by simp
next
  case (6 a entries kjs)
  from 6(4,1) obtain kjs' where j': "j' = JObj kjs'" "map fst entries = map fst kjs'"
    "list_all2 (denotes h) (map snd entries) (map snd kjs')"
    by (auto elim: denotesE)
  have "map snd kjs' = map snd kjs"
    by (rule nth_equalityI) (use 6(3) j'(3) in \<open>auto simp: list_all2_conv_all_nth\<close>)
  with 6(2) j'(1,2) have "kjs' = kjs" by (metis zip_map_fst_snd)
  with j' show ?case by simp
qed (auto elim: denotesE)

lemma portable_denotes:
  "assertPortable h v path seen = Inr () \<Longrightarrow> \<exists>j. denotes h v j"
  "assertMembers h ms seen = Inr () \<Longrightarrow> \<exists>js. list_all2 (denotes h) (map snd ms) js"
proof (induction h v path seen and h ms seen rule: assertPortable_assertMembers.induct)
  case (1 h v path seen)
  show ?case
  proof (cases v)
    case (HNum n)
    with 1(2) show ?thesis
      by (cases n) (auto simp: assertPortable.simps intro: denotes.intros)
  next
    case (HRef a)
    from 1(2) HRef have new: "a \<notin> seen" by (auto simp: assertPortable.simps)
    from 1(2) HRef new obtain obj where obj: "map_of h a = Some obj" "plain_object obj"
      "assertMembers h (members path obj) (insert a seen) = Inr ()"
      by (auto simp: assertPortable.simps split: option.splits if_splits)
    from 1(1) [OF HRef new obj(1) _ obj(3)] obj(2)
    obtain js where js: "list_all2 (denotes h) (map snd (members path obj)) js" by auto
    show ?thesis
    proof (cases obj)
      case (HArr items)
      have "map snd (members path obj) = items"
        unfolding HArr by (rule nth_equalityI) (simp_all add: nth_enumerate_eq)
      with js obj(1) HArr HRef show ?thesis by (auto intro: denotes.intros)
    next
      case (HObj p entries)
      with js have js: "list_all2 (denotes h) (map snd entries) js" by (simp add: comp_def split_def)
      then have len: "length entries = length js" by (auto dest: list_all2_lengthD)
      have "denotes h (HRef a) (JObj (zip (map fst entries) js))"
        by (rule denotes.intros(6)) (use obj(1,2) HObj js len in simp_all)
      with HRef show ?thesis by auto
    qed
  qed (use 1(2) in \<open>auto simp: assertPortable.simps intro: denotes.intros\<close>)
next
  case (3 h path v rest seen)
  then obtain j js where "denotes h v j" "list_all2 (denotes h) (map snd rest) js" by auto
  then have "list_all2 (denotes h) (map snd ((path, v) # rest)) (j # js)" by simp
  then show ?case by blast
qed auto

text \<open>The objects on the path denote larger values, if any.\<close>

definition above :: "heap \<Rightarrow> nat set \<Rightarrow> json \<Rightarrow> bool" where
  "above h seen j \<longleftrightarrow> (\<forall>a\<in>seen. \<forall>j'. denotes h (HRef a) j' \<longrightarrow> size j < size j')"

lemma denotes_portable:
  "denotes h v j \<Longrightarrow> above h seen j \<Longrightarrow> assertPortable h v path seen = Inr ()"
  "list_all2 (denotes h) (map snd ms) js \<Longrightarrow> \<forall>j\<in>set js. above h seen j \<Longrightarrow> assertMembers h ms seen = Inr ()"
proof (induction h v path seen and h ms seen arbitrary: j and js rule: assertPortable_assertMembers.induct)
  case (1 h v path seen)
  show ?case
  proof (cases v)
    case (HRef a)
    with 1(2) have den: "denotes h (HRef a) j" by simp
    with 1(3) have new: "a \<notin> seen" unfolding above_def by blast
    from denotes_ref [OF den] obtain obj where obj: "map_of h a = Some obj" "plain_object obj"
      "list_all2 (denotes h) (map snd (members path obj)) (parts j)" by blast
    have "above h (insert a seen) p" if "p \<in> set (parts j)" for p
      using size_parts [OF that] 1(3) denotes_fun [OF den] unfolding above_def by fastforce
    with 1(1) [OF HRef new obj(1) _ obj(3)] obj(2)
    have "assertMembers h (members path obj) (insert a seen) = Inr ()" by simp
    with HRef new obj show ?thesis by (simp add: assertPortable.simps)
  qed (use 1(2) in \<open>auto simp: assertPortable.simps elim: denotesE\<close>)
next
  case (3 h path v rest seen)
  from 3(3) obtain j js' where js: "js = j # js'" "denotes h v j" "list_all2 (denotes h) (map snd rest) js'"
    by (auto simp: list_all2_Cons1)
  with 3(1) [of j] 3(2) [OF _ js(3)] 3(4) show ?case by simp
qed simp_all


section \<open>Values without sharing\<close>

text \<open>The values the runtime passes on, as trees; \<open>JsOther\<close> is what is never portable.\<close>

datatype js =
    JsNull
  | JsBool bool
  | JsNum jsnum
  | JsStr string
  | JsOther
  | JsArr "js list"
  | JsObj bool "(string \<times> js) list"

type_synonym js_record = "(string \<times> js) list"

lemma size_in_enumerate: "(i, t) \<in> set (enumerate n ts) \<Longrightarrow> f t < Suc (size_list f ts)"
  using size_list_estimation' [of t ts "f t" f] by (auto simp: in_set_enumerate_eq)

function portableTree :: "js \<Rightarrow> string \<Rightarrow> unit res" where
  "portableTree JsNull path = Inr ()"
| "portableTree (JsStr _) path = Inr ()"
| "portableTree (JsBool _) path = Inr ()"
| "portableTree (JsNum n) path = throw_if (n = NotFinite) (Err (path @ '' is not a finite JSON number''))"
| "portableTree JsOther path = Inl (Err (path @ '' is not portable JSON''))"
| "portableTree (JsArr items) path =
     each (\<lambda>(i, v). portableTree v (path @ ''['' @ string_of_nat i @ '']'')) (enumerate 0 items)"
| "portableTree (JsObj p entries) path =
     (if \<not> p then Inl (Err (path @ '' must be a plain object''))
      else each (\<lambda>(k, v). portableTree v (path @ ''.'' @ k)) entries)"
  by pat_completeness auto
termination
  by (relation "measure (\<lambda>(t, _). size t)") (auto simp: size_in_enumerate dest: size_in_entries)

fun of_json :: "json \<Rightarrow> js" where
  "of_json JNull = JsNull"
| "of_json (JBool b) = JsBool b"
| "of_json (JNum n) = JsNum (Finite n)"
| "of_json (JStr s) = JsStr s"
| "of_json (JArr js) = JsArr (map of_json js)"
| "of_json (JObj kjs) = JsObj True (map (\<lambda>(k, j). (k, of_json j)) kjs)"

definition portable_record :: "js_record \<Rightarrow> string \<Rightarrow> unit res" where
  "portable_record entries path = portableTree (JsObj True entries) path"

lemma portable_of_json: "portableTree (of_json j) path = Inr ()"
proof (induction j arbitrary: path)
  case (JArr js)
  then show ?case by (auto simp: each_Inr_iff in_set_enumerate_eq)
next
  case (JObj kjs)
  then show ?case by (fastforce simp: each_Inr_iff)
qed simp_all

lemma portable_is_json: "portableTree t path = Inr () \<Longrightarrow> \<exists>j. t = of_json j"
proof (induction t arbitrary: path)
  case (JsNum n)
  then show ?case by (cases n) (auto intro: exI [of _ "JNum _"])
next
  case (JsArr items)
  have "\<exists>j. t = of_json j" if t: "t \<in> set items" for t
  proof -
    from t obtain i where "i < length items" "t = items ! i" by (auto simp: in_set_conv_nth)
    then have "(i, t) \<in> set (enumerate 0 items)" by (simp add: in_set_enumerate_eq)
    with JsArr.prems have "portableTree t (path @ ''['' @ string_of_nat i @ '']'') = Inr ()"
      by (auto simp: each_Inr_iff)
    with JsArr.IH [OF t] show ?thesis .
  qed
  then obtain f where "\<And>t. t \<in> set items \<Longrightarrow> t = of_json (f t)" by metis
  then have "JsArr items = of_json (JArr (map f items))" by (simp add: map_idI comp_def)
  then show ?case ..
next
  case (JsObj p entries)
  have ok: "p" "\<And>k t. (k, t) \<in> set entries \<Longrightarrow> portableTree t (path @ ''.'' @ k) = Inr ()"
    using JsObj.prems by (auto simp: each_Inr_iff split: if_splits)
  define f where "f t = (SOME j. t = of_json j)" for t
  have "\<exists>j. t = of_json j" if t: "(k, t) \<in> set entries" for k t
    using JsObj.IH [OF t _ ok(2) [OF t]] by simp
  then have f: "t = of_json (f t)" if "(k, t) \<in> set entries" for k t
    unfolding f_def by (rule someI_ex) (rule that)
  have "map ((\<lambda>(k, j). (k, of_json j)) \<circ> (\<lambda>(k, t). (k, f t))) entries = entries"
    by (rule map_idI) (use f in \<open>auto simp: split_def\<close>)
  with ok(1) have "JsObj p entries = of_json (JObj (map (\<lambda>(k, t). (k, f t)) entries))"
    by simp
  then show ?case ..
qed (auto intro: exI [of _ JNull] exI [of _ "JBool _"] exI [of _ "JStr _"])

text \<open>\<open>portableRunClone\<close>: parsing what \<open>JSON.stringify\<close> prints for a portable value gives the value back.\<close>

definition portableRunClone :: "js \<Rightarrow> js res" where
  "portableRunClone v = rbind (portableTree v ''$'') (\<lambda>_. Inr v)"

section \<open>Records of a run\<close>

datatype PlanRunGoalSpec =
    Explore Ingredient "string list"
  | ExactGoalOnly
  | ExactThenEnrich Ingredient "string list"

record PlanRunSecurityContext =
  sc_principal :: ActorPrincipal
  sc_access :: ActorAccessContext
  sc_establishedBy :: string
  sc_authorizedAt :: string

record PlanRunStartRequest =
  rs_protocol :: string
  rs_requestId :: string
  rs_idempotencyKey :: string
  rs_requestedAt :: string
  rs_skillRef :: string
  rs_executionEnvironment :: ExecutionEnvironment
  rs_ingredients :: "Ingredient list"
  rs_goals :: "Predicate list"
  rs_goalSpec :: "PlanRunGoalSpec option"
  rs_parameters :: js_record
  rs_security :: PlanRunSecurityContext

datatype continuation_kind = InputContinuation | SecretContinuation | ApprovalContinuation | AssuranceContinuation
datatype continuation_state = OpenContinuation | Postponed | Resolved | CancelledContinuation
datatype continuation_persistence = MetadataOnly | ArtifactPersistence

record PlanRunContinuation =
  co_continuationId :: string
  co_kind :: continuation_kind
  co_schema :: string
  co_subject :: "string option"
  co_prompt :: string
  co_persistence :: continuation_persistence
  co_state :: continuation_state

record PlanRunCheckpoint =
  cp_checkpointId :: string
  cp_ordinal :: nat
  cp_committedAt :: string
  cp_completedStepIds :: "string list"
  cp_artifactIds :: "string list"
  cp_remainingGoals :: "Predicate list"
  cp_registryRevision :: nat
  cp_policyDecisionIds :: "string list"
  cp_output :: "js_record option"

record run_failure =
  fl_code :: string
  fl_message :: string
  fl_retryable :: bool

record PlanRunHandle =
  h_runId :: string
  h_revision :: nat
  h_state :: PlanRunState
  h_executionEnvironment :: ExecutionEnvironment

record PlanRunRecord = PlanRunHandle +
  r_protocol :: string
  r_requestId :: string
  r_idempotencyKey :: string
  r_requestedAt :: string
  r_skillRef :: string
  r_security :: PlanRunSecurityContext
  r_createdAt :: string
  r_updatedAt :: string
  r_ingredients :: "Ingredient list"
  r_goals :: "Predicate list"
  r_goalSpec :: "PlanRunGoalSpec option"
  r_parameters :: js_record
  r_checkpoints :: "PlanRunCheckpoint list"
  r_progress :: "js_record option"
  r_continuations :: "PlanRunContinuation list"
  r_failure :: "run_failure option"

record PlanRunExecutionResult =
  x_artifactIds :: "string list option"
  x_completedStepIds :: "string list option"
  x_remainingGoals :: "Predicate list option"
  x_registryRevision :: "nat option"
  x_policyDecisionIds :: "string list option"
  x_output :: "js_record option"
  x_continuation :: "PlanRunContinuation option"

datatype PlanRunContinuationSubmission =
    Postpone string string  \<comment> \<open>request and continuation\<close>
  | Submit string string continuation_kind js

end
