(* ===== verification/Affordances.thy ===== *)
theory Affordances
  imports Planner_Enrich
begin

text \<open>
  libs/aven-actors/src/affordances.ts: the application actions whose requirements hold and whose goals
  have an executable route.
\<close>

datatype affordance_effect = NoEffect | PrepareEffect | CommitEffect

record AffordanceDefinition =
  af_id :: string
  af_label :: string
  af_description :: string
  af_requires :: "Predicate list"
  af_goals :: "Predicate list"
  af_effect :: affordance_effect

record AvailableAffordance =
  av_id :: string
  av_label :: string
  av_description :: string
  av_goals :: "Predicate list"
  av_effect :: affordance_effect
  av_ingredients :: "Ingredient list"

definition by_affordance_id :: "collation \<Rightarrow> AffordanceDefinition \<Rightarrow> AffordanceDefinition \<Rightarrow> int" where
  "by_affordance_id ck l r = localeCompare ck (af_id l) (af_id r)"

definition solve_ok :: "SolveResult \<Rightarrow> bool" where
  "solve_ok r = (case r of SolveOk _ _ \<Rightarrow> True | SolveFail _ _ _ \<Rightarrow> False)"

definition no_solve_options :: SolveOptions where
  "no_solve_options = \<lparr>maxSteps = None, maxStates = None\<rparr>"

definition match_ingredients :: "PlanValue list \<Rightarrow> Ingredient list" where
  "match_ingredients ins =
     concat (map (\<lambda>v. case pv_source v of
         FromIngredient a \<Rightarrow> (case truthy a of None \<Rightarrow> [] | Some i \<Rightarrow> [\<lparr>in_predicate = pv_predicate v, in_artifactId = Some i\<rparr>])
       | FromStep _ _ \<Rightarrow> []) ins)"

definition affordance_key :: "AffordanceDefinition \<Rightarrow> Predicate list \<Rightarrow> string" where
  "affordance_key d goals = af_id d @ NUL @ join NUL goals"

definition affordance_match :: "collation \<Rightarrow> Capability list \<Rightarrow> Ingredient list \<Rightarrow> AffordanceDefinition \<Rightarrow>
    (string, AvailableAffordance) jsmap \<Rightarrow> RequirementMatch \<Rightarrow> (string, AvailableAffordance) jsmap" where
  "affordance_match ck capabilities facts d available m =
     (let goals = map (\<lambda>goal. substitute goal (rm_bindings m)) (af_goals d) in
      if \<not> solve_ok (solve ck capabilities facts goals no_solve_options) then available
      else
        let key = affordance_key d goals in
        if has available key then available
        else AList.update key
          \<lparr>av_id = af_id d, av_label = af_label d, av_description = af_description d, av_goals = goals,
           av_effect = af_effect d, av_ingredients = match_ingredients (rm_inputs m)\<rparr> available)"

definition affordance_definition :: "collation \<Rightarrow> Capability list \<Rightarrow> Ingredient list \<Rightarrow>
    (string, AvailableAffordance) jsmap \<Rightarrow> AffordanceDefinition \<Rightarrow> (string, AvailableAffordance) jsmap" where
  "affordance_definition ck capabilities facts available d =
     foldl (affordance_match ck capabilities facts d) available
       (matches_of (af_requires d) (map ingredient_value facts))"

definition discoverAffordances :: "collation \<Rightarrow> AffordanceDefinition list \<Rightarrow> Ingredient list \<Rightarrow> Capability list \<Rightarrow>
    AvailableAffordance list" where
  "discoverAffordances ck definitions facts capabilities =
     map_values (foldl (affordance_definition ck capabilities facts) [] (sort_by (by_affordance_id ck) definitions))"

interpretation affordance_order: comparator "by_affordance_id ck" for ck
  by unfold_locales (auto simp: by_affordance_id_def localeCompare_le)

section \<open>What is offered\<close>

text \<open>The action is grounded in known facts and its goals have a program.\<close>

definition affordance_ok :: "collation \<Rightarrow> AffordanceDefinition list \<Rightarrow> Ingredient list \<Rightarrow> Capability list \<Rightarrow>
    AvailableAffordance \<Rightarrow> bool" where
  "affordance_ok ck definitions facts capabilities a \<longleftrightarrow>
     (\<exists>d\<in>set definitions. \<exists>m\<in>set (matches_of (af_requires d) (map ingredient_value facts)).
        av_id a = af_id d \<and> av_effect a = af_effect d \<and>
        av_goals a = map (\<lambda>goal. substitute goal (rm_bindings m)) (af_goals d) \<and>
        av_ingredients a = match_ingredients (rm_inputs m)) \<and>
     solve_ok (solve ck capabilities facts (av_goals a) no_solve_options)"

abbreviation offered_key :: "AvailableAffordance \<Rightarrow> string" where
  "offered_key a \<equiv> av_id a @ NUL @ join NUL (av_goals a)"

lemma affordance_match_ok:
  assumes "keyed offered_key (affordance_ok ck ds facts caps) available" "d \<in> set ds"
    "m \<in> set (matches_of (af_requires d) (map ingredient_value facts))"
  shows "keyed offered_key (affordance_ok ck ds facts caps) (affordance_match ck caps facts d available m)"
proof -
  let ?goals = "map (\<lambda>goal. substitute goal (rm_bindings m)) (af_goals d)"
  let ?a = "\<lparr>av_id = af_id d, av_label = af_label d, av_description = af_description d, av_goals = ?goals,
           av_effect = af_effect d, av_ingredients = match_ingredients (rm_inputs m)\<rparr>"
  have "affordance_ok ck ds facts caps ?a" if "solve_ok (solve ck caps facts ?goals no_solve_options)"
    unfolding affordance_ok_def AvailableAffordance.simps using that assms(2,3) by blast
  with assms(1) show ?thesis
    by (auto simp: affordance_match_def Let_def affordance_key_def intro!: keyed_update)
qed

lemma fold_keeps: "P acc \<Longrightarrow> (\<And>acc x. x \<in> set xs \<Longrightarrow> P acc \<Longrightarrow> P (f acc x)) \<Longrightarrow> P (foldl f acc xs)"
  by (induction xs arbitrary: acc) auto

lemma discover_ok:
  "\<exists>m. keyed offered_key (affordance_ok ck ds facts caps) m \<and> discoverAffordances ck ds facts caps = map_values m"
proof -
  let ?P = "keyed offered_key (affordance_ok ck ds facts caps)"
  have "?P (affordance_definition ck caps facts acc d)" if "d \<in> set ds" "?P acc" for acc d
    unfolding affordance_definition_def by (rule fold_keeps [where P = ?P, OF that(2)]) (rule affordance_match_ok [OF _ that(1)])
  then have "?P (foldl (affordance_definition ck caps facts) [] (sort_by (by_affordance_id ck) ds))"
    by (intro fold_keeps [where P = ?P]) simp_all
  then show ?thesis unfolding discoverAffordances_def by blast
qed

text \<open>Every offered action instantiates one of the definitions by bindings under which known facts prove its
  requirements, the planner has a program for its goals, and no action is offered twice.\<close>

theorem affordances_sound:
  "list_all (affordance_ok ck definitions facts capabilities) (discoverAffordances ck definitions facts capabilities) \<and>
   distinct (map offered_key (discoverAffordances ck definitions facts capabilities))"
proof -
  obtain m where m: "keyed offered_key (affordance_ok ck definitions facts capabilities) m"
    "discoverAffordances ck definitions facts capabilities = map_values m"
    using discover_ok by blast
  then have "map offered_key (map_values m) = map fst m"
    unfolding map_map by (intro map_cong) (auto simp: keyed_def)
  with m have "distinct (map offered_key (map_values m))" by (metis keyed_def)
  with m show ?thesis by (auto simp: keyed_def list_all_iff)
qed

end
