(* ===== verification/Executor.thy ===== *)
theory Executor
  imports Physical Run Affordances
begin

text \<open>
  libs/aven-actors/src/executor.ts and factory.ts, the definitions: slot checks, the execution of one step
  on a spawned actor, the loop over a physical program, and the plan executor that composes planning with
  execution.  The host's services (authorizer, factories, spawned actors, artifact store) are ports, stateful
  computations that may throw; every call of a port is recorded with its outcome.  \<open>JSON.parse\<close> is the port
  \<open>parse\<close>: what a text parses to, or its syntax error.
\<close>

section \<open>Data\<close>

record RuntimeArtifact =
  art_artifactId :: string
  art_predicate :: Predicate
  art_schema :: string
  art_typeKey :: string
  art_schemaVersion :: int
  art_contentDigest :: string
  art_value :: js

record RuntimeOutputDraft =
  dr_slot :: string
  dr_role :: string
  dr_predicate :: Predicate
  dr_schema :: string
  dr_value :: js

record RuntimeInputBinding =
  ib_slot :: string
  ib_role :: string
  ib_artifact :: RuntimeArtifact

record RuntimeStepPublication =
  pb_publicationId :: string
  pb_runId :: string
  pb_stepId :: string
  pb_capabilityId :: string
  pb_inputs :: "RuntimeInputBinding list"
  pb_outputs :: "RuntimeOutputDraft list"

record ActorStepPayload =
  py_runId :: string
  py_stepId :: string
  py_capabilityId :: string
  py_inputs :: "(string, RuntimeArtifact) jsmap"
  py_parameters :: js_record
  py_configuration :: json_record

record ActorStepResult =
  sr_outputs :: json_record
  sr_warnings :: "string list option"

record ActorSpawnRequest =
  sq_requestId :: string
  sq_runId :: string
  sq_principal :: ActorPrincipal
  sq_access :: ActorAccessContext
  sq_offerId :: string
  sq_requestedCapabilities :: "string list"
  sq_configuration :: json_record
  sq_inputs :: "ActorAuthorizationInput list"
  sq_resource :: "json_record option"

record Admission =
  ad_admissionId :: string
  ad_expiresAt :: string
  ad_grantedCapabilities :: "string list"
  ad_normalizedConfiguration :: json_record
  ad_constraints :: "AuthorizationConstraints option"
  ad_obligations :: "string list option"

datatype ActorAdmissionDecision = Admitted Admission | NotAdmitted string string

text \<open>A spawned actor: the address of the actor and its advertisement.\<close>

record SpawnedActor =
  sp_uuid :: string
  sp_advertisement :: ActorInstanceAdvertisement

section \<open>Ports\<close>

datatype event =
    EDecide ActorAuthorizationRequest "ActorAuthorizationDecision res"
  | EResolveArtifact string Predicate "RuntimeArtifact option res"
  | EFactory string "ActorFactoryOffer option res"
  | EAssess string ActorSpawnRequest "ActorAdmissionDecision res"
  | ESpawn string ActorSpawnRequest Admission "SpawnedActor res"
  | EDeliver SpawnedActor string ActorStepPayload "HandlerResult res"
  | ERelease SpawnedActor "unit res"
  | EPublish RuntimeStepPublication "RuntimeArtifact list res"

type_synonym ('w, 'a) run = "(event list \<times> 'w, 'a) io"

text \<open>The factory resolver answers with the offer a factory stands behind.\<close>

record 'w factories =
  fp_resolve :: "string \<Rightarrow> ('w, ActorFactoryOffer option) io"
  fp_assess :: "string \<Rightarrow> ActorSpawnRequest \<Rightarrow> ('w, ActorAdmissionDecision) io"
  fp_spawn :: "string \<Rightarrow> ActorSpawnRequest \<Rightarrow> Admission \<Rightarrow> ('w, SpawnedActor) io"
  fp_deliver :: "SpawnedActor \<Rightarrow> string \<Rightarrow> ActorStepPayload \<Rightarrow> ('w, HandlerResult) io"
  fp_release :: "SpawnedActor \<Rightarrow> ('w, unit) io"

record 'w artifacts =
  ap_resolve :: "string \<Rightarrow> Predicate \<Rightarrow> ('w, RuntimeArtifact option) io"
  ap_publish :: "RuntimeStepPublication \<Rightarrow> ('w, RuntimeArtifact list) io"

record 'w PhysicalProgramExecutionRequest =
  xr_runId :: string
  xr_program :: PhysicalProgram
  xr_registry :: ActorRegistrySnapshot
  xr_principal :: ActorPrincipal
  xr_access :: ActorAccessContext
  xr_authorizer :: "'w authorizer"
  xr_factories :: "'w factories"
  xr_artifacts :: "'w artifacts"
  xr_parse :: "string \<Rightarrow> json res"
  xr_parameters :: js_record
  xr_resource :: "json_record option"

record PhysicalProgramExecutionResult =
  xo_completedStepIds :: "string list"
  xo_artifacts :: "RuntimeArtifact list"
  xo_fulfilledPredicates :: "Predicate list"
  xo_remainingGoals :: "Predicate list"
  xo_registryRevision :: nat
  xo_policyDecisionIds :: "string list"
  xo_warnings :: "string list"

section \<open>Slots\<close>

datatype slot_kind = InputSlot | OutputSlot

fun kind_text :: "slot_kind \<Rightarrow> string" where
  "kind_text InputSlot = ''input''"
| "kind_text OutputSlot = ''output''"

fun cardinality_text :: "cardinality \<Rightarrow> string" where
  "cardinality_text One = ''one''"
| "cardinality_text Optional = ''optional''"
| "cardinality_text Many = ''many''"

definition at_index :: "'a list \<Rightarrow> nat \<Rightarrow> 'a option" where
  "at_index xs i = (if i < length xs then Some (xs ! i) else None)"

text \<open>The text of an optional string inside a message.\<close>

definition or_undefined :: "string option \<Rightarrow> string" where
  "or_undefined s = orelse s ''undefined''"

definition check_declared_slot :: "slot_kind \<Rightarrow> Predicate list \<Rightarrow> nat \<times> CapabilitySlot \<Rightarrow> unit res" where
  "check_declared_slot kind predicates = (\<lambda>(index, slot).
     rbind (throw_if (slot_cardinality slot \<noteq> One)
       (Err (kind_text kind @ '' slot '' @ slot_name slot @ '' uses unsupported '' @
          cardinality_text (slot_cardinality slot) @ '' cardinality''))) (\<lambda>_.
     rbind (throw_if (truthy (slot_schema slot) = None)
       (Err (kind_text kind @ '' slot '' @ slot_name slot @ '' has no schema''))) (\<lambda>_.
     throw_if (case truthy (at_index predicates index) of None \<Rightarrow> True | Some p \<Rightarrow> \<not> unifiable (slot_predicate slot) p)
       (Err (kind_text kind @ '' slot '' @ slot_name slot @ '' does not bind capability predicate '' @
          or_undefined (at_index predicates index))))))"

definition validateDeclaredSlots :: "slot_kind \<Rightarrow> CapabilitySlot list option \<Rightarrow> Predicate list \<Rightarrow> unit res" where
  "validateDeclaredSlots kind slots predicates =
     (case slots of
        None \<Rightarrow> Inl (Err (kind_text kind @ '' slots must bind every capability predicate''))
      | Some ss \<Rightarrow>
          rbind (throw_if (length ss \<noteq> length predicates)
            (Err (kind_text kind @ '' slots must bind every capability predicate''))) (\<lambda>_.
          each (check_declared_slot kind predicates) (enumerate 0 ss)))"

definition check_slot_artifact :: "slot_kind \<Rightarrow> CapabilitySlot list option \<Rightarrow> nat \<times> RuntimeArtifact \<Rightarrow> unit res" where
  "check_slot_artifact kind slots = (\<lambda>(index, artifact).
     case at_index (orelse slots []) index of
       None \<Rightarrow> Inl (Err (''missing '' @ kind_text kind @ '' slot '' @ string_of_nat index))
     | Some slot \<Rightarrow>
         rbind (throw_if (truthy (slot_schema slot) \<noteq> Some (art_schema artifact))
           (Err (kind_text kind @ '' slot '' @ slot_name slot @ '' requires schema '' @ or_undefined (slot_schema slot)))) (\<lambda>_.
         throw_if (\<not> unifiable (slot_predicate slot) (art_predicate artifact))
           (Err (kind_text kind @ '' slot '' @ slot_name slot @ '' does not accept '' @ art_predicate artifact))))"

definition validateSlots :: "slot_kind \<Rightarrow> CapabilitySlot list option \<Rightarrow> Predicate list \<Rightarrow> RuntimeArtifact list \<Rightarrow> unit res" where
  "validateSlots kind slots predicates artifacts =
     rbind (validateDeclaredSlots kind slots predicates) (\<lambda>_.
     each (check_slot_artifact kind slots) (enumerate 0 artifacts))"

definition bindInputs :: "Capability \<Rightarrow> RuntimeArtifact list \<Rightarrow> RuntimeInputBinding list res" where
  "bindInputs cap artifacts =
     traverse (\<lambda>(index, slot).
       case at_index artifacts index of
         None \<Rightarrow> Inl (Err (c_id cap @ '' omitted input '' @ slot_name slot))
       | Some artifact \<Rightarrow>
           Inr \<lparr>ib_slot = slot_name slot, ib_role = orelse (slot_role slot) (slot_name slot), ib_artifact = artifact\<rparr>)
       (enumerate 0 (orelse (c_inputSlots cap) []))"

section \<open>Values of a run\<close>

definition stepValueKey :: "string \<Rightarrow> nat \<Rightarrow> string" where
  "stepValueKey stepId output = stepId @ '':'' @ string_of_nat output"

definition resolveValue :: "'w artifacts \<Rightarrow> (string, RuntimeArtifact) jsmap \<Rightarrow> PlanValue \<Rightarrow> ('w, RuntimeArtifact) run" where
  "resolveValue store values v =
     (case pv_source v of
        FromStep stepId output \<Rightarrow>
          (case map_of values (stepValueKey stepId output) of
             None \<Rightarrow> throw (Err (''uncommitted input '' @ stepId @ '':'' @ string_of_nat output))
           | Some artifact \<Rightarrow> return artifact)
      | FromIngredient a \<Rightarrow>
          (case truthy a of
             None \<Rightarrow> throw (Err (''ingredient '' @ pv_predicate v @ '' has no artifact''))
           | Some artifactId \<Rightarrow>
               bind_io (call (ap_resolve store artifactId (pv_predicate v)) (EResolveArtifact artifactId (pv_predicate v)))
                 (\<lambda>found. case found of
                    None \<Rightarrow> throw (Err (''artifact '' @ artifactId @ '' was not found''))
                  | Some artifact \<Rightarrow>
                      if \<not> unifiable (pv_predicate v) (art_predicate artifact)
                      then throw (Err (''artifact '' @ art_artifactId artifact @ '' does not prove '' @ pv_predicate v))
                      else return artifact)))"

definition resolveInputs :: "PlanValue list \<Rightarrow> (string, RuntimeArtifact) jsmap \<Rightarrow> 'w artifacts \<Rightarrow> ('w, RuntimeArtifact list) run" where
  "resolveInputs ins values store = all_io (map (resolveValue store values) ins)"

definition capabilityFor :: "ActorRegistrySnapshot \<Rightarrow> string \<Rightarrow> Capability res" where
  "capabilityFor registry cid =
     (case find (\<lambda>c. c_id c = cid) (concat (map ad_capabilities (sn_definitions registry))) of
        Some cap \<Rightarrow> Inr cap
      | None \<Rightarrow> Inl (Err (''planned capability '' @ cid @ '' is absent from registry revision'')))"

definition authorizationInputs :: "RuntimeInputBinding list \<Rightarrow> ActorAuthorizationInput list" where
  "authorizationInputs ins = map (\<lambda>i. let a = ib_artifact i in
     \<lparr>az_slot = ib_slot i, az_role = ib_role i, az_artifactId = art_artifactId a, az_predicate = art_predicate a,
      az_schema = art_schema a, az_typeKey = art_typeKey a, az_schemaVersion = art_schemaVersion a,
      az_contentDigest = art_contentDigest a\<rparr>) ins"

section \<open>Results of an actor\<close>

definition json_strings :: "json list \<Rightarrow> string list option" where
  "json_strings xs =
     (if list_all (\<lambda>x. case x of JStr _ \<Rightarrow> True | _ \<Rightarrow> False) xs
      then Some (map (\<lambda>x. case x of JStr s \<Rightarrow> s | _ \<Rightarrow> []) xs) else None)"

definition parseActorStepResult :: "(string \<Rightarrow> json res) \<Rightarrow> HandlerResult \<Rightarrow> ActorStepResult res" where
  "parseActorStepResult parse response =
     rbind (parse (hr_record response)) (\<lambda>parsed.
     case parsed of
       JObj props \<Rightarrow>
         (case (map_of props ''ok'', map_of props ''outputs'') of
            (Some (JBool True), Some (JObj outputs)) \<Rightarrow>
              rbind (case map_of props ''warnings'' of
                  None \<Rightarrow> Inr None
                | Some (JArr ws) \<Rightarrow>
                    (case json_strings ws of
                       Some strings \<Rightarrow> Inr (Some strings)
                     | None \<Rightarrow> Inl (Err ''actor returned invalid warnings''))
                | Some _ \<Rightarrow> Inl (Err ''actor returned invalid warnings'')) (\<lambda>warnings.
              rbind (portableTree (of_json parsed) ''$'') (\<lambda>_.
              Inr \<lparr>sr_outputs = outputs, sr_warnings = warnings\<rparr>))
          | _ \<Rightarrow> Inl (Err (case map_of props ''error'' of Some e \<Rightarrow> js_String e | None \<Rightarrow> hr_wire response)))
     | _ \<Rightarrow> Inl (Err (hr_wire response)))"

definition output_draft :: "Capability \<Rightarrow> PhysicalPlanStep \<Rightarrow> ActorStepResult \<Rightarrow> nat \<times> CapabilitySlot \<Rightarrow> RuntimeOutputDraft res" where
  "output_draft cap step result = (\<lambda>(index, slot).
     rbind (throw_if (\<not> has (sr_outputs result) (slot_name slot) \<and> slot_name slot \<notin> set prototype_names)
       (Err (c_id cap @ '' omitted '' @ slot_name slot))) (\<lambda>_.
     case (truthy (map_option pv_predicate (at_index (ps_outputs step) index)), truthy (slot_schema slot)) of
       (Some predicate, Some schema) \<Rightarrow>
         Inr \<lparr>dr_slot = slot_name slot, dr_role = orelse (slot_role slot) (slot_name slot), dr_predicate = predicate,
              dr_schema = schema,
              dr_value = (case map_of (sr_outputs result) (slot_name slot) of Some j \<Rightarrow> of_json j | None \<Rightarrow> JsOther)\<rparr>
     | _ \<Rightarrow> Inl (Err (c_id cap @ '' has an incomplete output slot''))))"

definition outputDrafts :: "Capability \<Rightarrow> PhysicalPlanStep \<Rightarrow> ActorStepResult \<Rightarrow> RuntimeOutputDraft list res" where
  "outputDrafts cap step result =
     rbind (validateDeclaredSlots OutputSlot (c_outputSlots cap) (c_produces cap)) (\<lambda>_.
     let slots = orelse (c_outputSlots cap) [] in
     rbind (case truthy (find (\<lambda>name. \<not> list_ex (\<lambda>slot. slot_name slot = name) slots) (map fst (sr_outputs result))) of
         Some unknown \<Rightarrow> Inl (Err (c_id cap @ '' returned undeclared output slot '' @ unknown))
       | None \<Rightarrow> Inr ()) (\<lambda>_.
     traverse (output_draft cap step result) (enumerate 0 slots)))"

section \<open>One step on a spawned actor\<close>

definition spawn_question :: "'w PhysicalProgramExecutionRequest \<Rightarrow> PhysicalPlanStep \<Rightarrow> FactoryChoice \<Rightarrow>
    RuntimeInputBinding list \<Rightarrow> ActorAuthorizationRequest" where
  "spawn_question request step t ins =
     \<lparr>rq_action = Spawn, rq_principal = xr_principal request, rq_access = xr_access request,
      rq_definitionRef = fc_definitionRef t, rq_capabilityId = Some (ps_capability step), rq_method = Some (ps_method step),
      rq_target = Some (FactoryTarget (fc_offerId t) (fc_factoryId t)), rq_configuration = Some (fc_configuration t),
      rq_inputs = Some (authorizationInputs ins), rq_runId = Some (xr_runId request), rq_resource = xr_resource request\<rparr>"

definition spawn_request :: "'w PhysicalProgramExecutionRequest \<Rightarrow> PhysicalPlanStep \<Rightarrow> FactoryChoice \<Rightarrow>
    RuntimeInputBinding list \<Rightarrow> Grant \<Rightarrow> ActorSpawnRequest" where
  "spawn_request request step t ins grant =
     \<lparr>sq_requestId = xr_runId request @ '':'' @ ps_id step @ '':spawn'', sq_runId = xr_runId request,
      sq_principal = xr_principal request, sq_access = xr_access request, sq_offerId = fc_offerId t,
      sq_requestedCapabilities = [ps_capability step],
      sq_configuration = spread (fc_configuration t)
        (case gr_constraints grant of None \<Rightarrow> [] | Some c \<Rightarrow> orelse (forcedConfiguration c) []),
      sq_inputs = authorizationInputs ins, sq_resource = xr_resource request\<rparr>"

definition invoke_question :: "'w PhysicalProgramExecutionRequest \<Rightarrow> PhysicalPlanStep \<Rightarrow> FactoryChoice \<Rightarrow>
    RuntimeInputBinding list \<Rightarrow> Admission \<Rightarrow> SpawnedActor \<Rightarrow> ActorAuthorizationRequest" where
  "invoke_question request step t ins admission sp =
     \<lparr>rq_action = Invoke, rq_principal = xr_principal request, rq_access = xr_access request,
      rq_definitionRef = fc_definitionRef t, rq_capabilityId = Some (ps_capability step), rq_method = Some (ps_method step),
      rq_target = Some (InstanceTarget (ai_instanceId (sp_advertisement sp))),
      rq_configuration = Some (ad_normalizedConfiguration admission),
      rq_inputs = Some (authorizationInputs ins), rq_runId = Some (xr_runId request), rq_resource = xr_resource request\<rparr>"

definition step_payload :: "'w PhysicalProgramExecutionRequest \<Rightarrow> PhysicalPlanStep \<Rightarrow> RuntimeInputBinding list \<Rightarrow>
    Admission \<Rightarrow> ActorStepPayload" where
  "step_payload request step ins admission =
     \<lparr>py_runId = xr_runId request, py_stepId = ps_id step, py_capabilityId = ps_capability step,
      py_inputs = map_from (map (\<lambda>i. (ib_slot i, ib_artifact i)) ins),
      py_parameters = xr_parameters request, py_configuration = ad_normalizedConfiguration admission\<rparr>"

text \<open>The members of a payload that need not be portable are the values of its artifacts and its parameters.\<close>

definition portable_payload :: "ActorStepPayload \<Rightarrow> unit res" where
  "portable_payload p =
     rbind (each (\<lambda>(slot, a). portableTree (art_value a) (''$.inputs.'' @ slot @ ''.value'')) (py_inputs p)) (\<lambda>_.
     portable_record (py_parameters p) ''$.parameters'')"

definition satisfies_step :: "PhysicalProgram \<Rightarrow> PhysicalPlanStep \<Rightarrow> FactoryChoice \<Rightarrow> SpawnedActor \<Rightarrow> bool" where
  "satisfies_step program step t sp \<longleftrightarrow>
     ai_definitionRef (sp_advertisement sp) = fc_definitionRef t \<and>
     ai_executionEnvironment (sp_advertisement sp) = pp_executionEnvironment program \<and>
     ps_capability step \<in> set (ai_capabilityIds (sp_advertisement sp))"

text \<open>A set of strings in insertion order.\<close>

definition add_id :: "string \<Rightarrow> string list \<Rightarrow> string list" where
  "add_id x xs = (if x \<in> set xs then xs else xs @ [x])"

record step_outcome =
  so_drafts :: "RuntimeOutputDraft list"
  so_warnings :: "string list"
  so_policyDecisionIds :: "string list"

text \<open>The body of the \<open>try\<close>: everything done with the spawned actor.  \<open>dispatch\<close> addresses the envelope to
  the very actor it delivers to.\<close>

definition use_spawned :: "'w PhysicalProgramExecutionRequest \<Rightarrow> PhysicalPlanStep \<Rightarrow> Capability \<Rightarrow> FactoryChoice \<Rightarrow>
    RuntimeInputBinding list \<Rightarrow> Admission \<Rightarrow> string list \<Rightarrow> SpawnedActor \<Rightarrow> ('w, step_outcome) run" where
  "use_spawned request step cap t ins admission ids sp =
     (if \<not> satisfies_step (xr_program request) step t sp
      then throw (Err (''spawned actor does not satisfy '' @ ps_capability step))
      else
        let question = invoke_question request step t ins admission sp in
        bind_io (call (xr_authorizer request question) (EDecide question)) (\<lambda>decision.
        case decision of
          Deny _ reason \<Rightarrow> throw (Err (''invoke denied: '' @ reason))
        | Allow grant \<Rightarrow>
            let payload = step_payload request step ins admission in
            bind_io (lift (portable_payload payload)) (\<lambda>_.
            bind_io (call (fp_deliver (xr_factories request) sp (ps_method step) payload)
                       (EDeliver sp (ps_method step) payload)) (\<lambda>response.
            bind_io (lift (parseActorStepResult (xr_parse request) response)) (\<lambda>result.
            bind_io (lift (outputDrafts cap step result)) (\<lambda>drafts.
            return \<lparr>so_drafts = drafts, so_warnings = orelse (sr_warnings result) [],
                    so_policyDecisionIds = add_id (gr_decisionId grant) ids\<rparr>))))))"

definition spawn_step :: "'w PhysicalProgramExecutionRequest \<Rightarrow> PhysicalPlanStep \<Rightarrow> Capability \<Rightarrow> FactoryChoice \<Rightarrow>
    RuntimeInputBinding list \<Rightarrow> string list \<Rightarrow> Grant \<Rightarrow> ('w, step_outcome) run" where
  "spawn_step request step cap t ins ids grant =
     (let sr = spawn_request request step t ins grant; factory = fc_factoryId t in
      bind_io (call (fp_assess (xr_factories request) factory sr) (EAssess factory sr)) (\<lambda>assessment.
      case assessment of
        NotAdmitted _ reason \<Rightarrow> throw (Err (''factory denied: '' @ reason))
      | Admitted admission \<Rightarrow>
          if ps_capability step \<notin> set (ad_grantedCapabilities admission)
          then throw (Err (''factory admission omitted '' @ ps_capability step))
          else
            bind_io (call (fp_spawn (xr_factories request) factory sr admission) (ESpawn factory sr admission)) (\<lambda>sp.
            try_finally (use_spawned request step cap t ins admission (add_id (gr_decisionId grant) ids) sp)
              (call (fp_release (xr_factories request) sp) (ERelease sp)))))"

definition executeFactoryStep :: "'w PhysicalProgramExecutionRequest \<Rightarrow> PhysicalPlanStep \<Rightarrow> Capability \<Rightarrow>
    RuntimeInputBinding list \<Rightarrow> string list \<Rightarrow> ('w, step_outcome) run" where
  "executeFactoryStep request step cap ins ids =
     (case target step of
        OnInstance _ \<Rightarrow> throw (Err (''executor slice requires a factory target for '' @ ps_capability step))
      | FromFactory t \<Rightarrow>
          bind_io (call (fp_resolve (xr_factories request) (fc_factoryId t)) (EFactory (fc_factoryId t))) (\<lambda>factory.
          if (case factory of None \<Rightarrow> True | Some off \<Rightarrow> ao_offerId off \<noteq> fc_offerId t)
          then throw (Err (''factory implementation is unavailable for '' @ fc_offerId t))
          else
            let question = spawn_question request step t ins in
            bind_io (call (xr_authorizer request question) (EDecide question)) (\<lambda>decision.
            case decision of
              Deny _ reason \<Rightarrow> throw (Err (''spawn denied: '' @ reason))
            | Allow grant \<Rightarrow> spawn_step request step cap t ins ids grant)))"

section \<open>The program\<close>

record exec_state =
  es_values :: "(string, RuntimeArtifact) jsmap"
  es_completed :: "string list"
  es_published :: "RuntimeArtifact list"
  es_policyDecisionIds :: "string list"
  es_warnings :: "string list"

definition assertPublishedOutput :: "RuntimeArtifact \<Rightarrow> PlanValue \<Rightarrow> RuntimeOutputDraft option \<Rightarrow> unit res" where
  "assertPublishedOutput artifact planned draft =
     (case draft of
        None \<Rightarrow> Inl (Err (''published artifact does not prove '' @ pv_predicate planned))
      | Some d \<Rightarrow>
          if \<not> unifiable (pv_predicate planned) (art_predicate artifact)
          then Inl (Err (''published artifact does not prove '' @ pv_predicate planned))
          else throw_if (art_schema artifact \<noteq> dr_schema d) (Err (''published artifact does not use '' @ dr_schema d)))"

definition store_output :: "PhysicalPlanStep \<Rightarrow> RuntimeOutputDraft list \<Rightarrow> nat \<times> RuntimeArtifact \<times> PlanValue \<Rightarrow>
    exec_state \<Rightarrow> ('w, exec_state) run" where
  "store_output step drafts = (\<lambda>(index, artifact, planned) s.
     bind_io (lift (assertPublishedOutput artifact planned (at_index drafts index))) (\<lambda>_.
     bind_io (lift (portableTree (art_value artifact) ''$'')) (\<lambda>_.
     return (s\<lparr>es_values := AList.update (stepValueKey (ps_id step) index) artifact (es_values s),
               es_published := es_published s @ [artifact]\<rparr>))))"

definition step_publication :: "'w PhysicalProgramExecutionRequest \<Rightarrow> PhysicalPlanStep \<Rightarrow> RuntimeInputBinding list \<Rightarrow>
    RuntimeOutputDraft list \<Rightarrow> RuntimeStepPublication" where
  "step_publication request step ins drafts =
     \<lparr>pb_publicationId = xr_runId request @ '':'' @ ps_id step, pb_runId = xr_runId request, pb_stepId = ps_id step,
      pb_capabilityId = ps_capability step, pb_inputs = ins, pb_outputs = drafts\<rparr>"

definition publish_step :: "'w PhysicalProgramExecutionRequest \<Rightarrow> PhysicalPlanStep \<Rightarrow> RuntimeInputBinding list \<Rightarrow>
    RuntimeOutputDraft list \<Rightarrow> exec_state \<Rightarrow> ('w, exec_state) run" where
  "publish_step request step ins drafts s =
     (let pub = step_publication request step ins drafts in
      bind_io (call (ap_publish (xr_artifacts request) pub) (EPublish pub)) (\<lambda>published.
      if length published \<noteq> length (ps_outputs step)
      then throw (Err (ps_capability step @ '' published '' @ string_of_nat (length published) @ '' artifacts for '' @
             string_of_nat (length (ps_outputs step)) @ '' planned outputs''))
      else bind_io (for_io (store_output step drafts) (enumerate 0 (zip published (ps_outputs step))) s) (\<lambda>s'.
           return (s'\<lparr>es_completed := es_completed s' @ [ps_id step]\<rparr>))))"

fun target_authorization :: "AuthorizedActorTarget \<Rightarrow> Grant" where
  "target_authorization (OnInstance i) = ic_authorization i"
| "target_authorization (FromFactory f) = fc_authorization f"

definition execute_step :: "'w PhysicalProgramExecutionRequest \<Rightarrow> PhysicalPlanStep \<Rightarrow> exec_state \<Rightarrow> ('w, exec_state) run" where
  "execute_step request step s =
     (let ids = add_id (gr_decisionId (target_authorization (target step))) (es_policyDecisionIds s) in
      if target_environment (target step) \<noteq> pp_executionEnvironment (xr_program request)
      then throw (Err (ps_id step @ '' target violates the frozen execution environment''))
      else case truthy (find (\<lambda>dependency. dependency \<notin> set (es_completed s)) (ps_dependsOn step)) of
        Some missing \<Rightarrow> throw (Err (ps_id step @ '' depends on incomplete '' @ missing))
      | None \<Rightarrow>
          bind_io (lift (capabilityFor (xr_registry request) (ps_capability step))) (\<lambda>cap.
          bind_io (resolveInputs (ps_inputs step) (es_values s) (xr_artifacts request)) (\<lambda>inputs.
          bind_io (lift (validateSlots InputSlot (c_inputSlots cap) (c_requires cap) inputs)) (\<lambda>_.
          bind_io (lift (bindInputs cap inputs)) (\<lambda>ins.
          bind_io (executeFactoryStep request step cap ins ids) (\<lambda>outcome.
          publish_step request step ins (so_drafts outcome)
            (s\<lparr>es_policyDecisionIds := so_policyDecisionIds outcome, es_warnings := es_warnings s @ so_warnings outcome\<rparr>)))))))"

text \<open>The checks before the first step; the principal and the access context are plain records.\<close>

definition admit_program :: "'w PhysicalProgramExecutionRequest \<Rightarrow> unit res" where
  "admit_program request =
     rbind (portable_record (xr_parameters request) ''$'') (\<lambda>_.
     rbind (throw_if (sn_revision (xr_registry request) \<noteq> pp_registryRevision (xr_program request))
       (Err ''registry snapshot does not match the physical plan'')) (\<lambda>_.
     rbind (throw_if (subjectId (xr_principal request) \<noteq> pp_subjectId (xr_program request))
       (Err ''execution principal does not match the physical plan'')) (\<lambda>_.
     throw_if (tenantId (xr_access request) \<noteq> pp_tenantId (xr_program request))
       (Err ''execution tenant does not match the physical plan''))))"

definition executePhysicalProgram :: "'w PhysicalProgramExecutionRequest \<Rightarrow> ('w, PhysicalProgramExecutionResult) run" where
  "executePhysicalProgram request =
     (let program = xr_program request in
      bind_io (lift (admit_program request)) (\<lambda>_.
      bind_io (for_io (execute_step request) (pp_steps program)
        \<lparr>es_values = [], es_completed = [], es_published = [], es_policyDecisionIds = [], es_warnings = []\<rparr>) (\<lambda>s.
      bind_io (resolveInputs (pp_results program) (es_values s) (xr_artifacts request)) (\<lambda>results.
      let fulfilled = map art_predicate results in
      return \<lparr>xo_completedStepIds = es_completed s, xo_artifacts = es_published s, xo_fulfilledPredicates = fulfilled,
        xo_remainingGoals = filter (\<lambda>goal. \<not> list_ex (unifiable goal) fulfilled) (pp_goals program),
        xo_registryRevision = pp_registryRevision program, xo_policyDecisionIds = sort (es_policyDecisionIds s),
        xo_warnings = es_warnings s\<rparr>))))"

end
