(* ===== verification/Executor_Safety.thy ===== *)
theory Executor_Safety
  imports Executor
begin

text \<open>
  What every execution of a physical program keeps to, whatever the ports do and however it ends: spawned
  actors are released, nothing is spawned, invoked or published without its permission, and the steps are
  published in the order of the program.
\<close>

section \<open>What may happen when\<close>

text \<open>The result of the step was delivered by an actor and yields the drafts.\<close>

definition delivered :: "'w PhysicalProgramExecutionRequest \<Rightarrow> PhysicalPlanStep \<Rightarrow> RuntimeInputBinding list \<Rightarrow>
    RuntimeOutputDraft list \<Rightarrow> event list \<Rightarrow> bool" where
  "delivered request step ins drafts tr \<longleftrightarrow>
     (\<exists>sp adm response result cap. outputDrafts cap step result = Inr drafts \<and>
        parseActorStepResult (xr_parse request) response = Inr result \<and>
        EDeliver sp (ps_method step) (step_payload request step ins adm) (Inr response) \<in> set tr)"

text \<open>What must have happened before an event: a spawn follows the authorizer's grant of this very spawn and the
  factory's admission with the capability; a delivery follows the spawn of a fitting actor and the grant of this
  very invocation with these inputs; a publication follows the delivery of the drafts it contains.\<close>

fun justified :: "'w PhysicalProgramExecutionRequest \<Rightarrow> event list \<Rightarrow> event \<Rightarrow> bool" where
  "justified request tr (ESpawn factory sr adm _) =
     (\<exists>step\<in>set (pp_steps (xr_program request)). \<exists>t ins grant.
        target step = FromFactory t \<and> fc_factoryId t = factory \<and> sr = spawn_request request step t ins grant \<and>
        EDecide (spawn_question request step t ins) (Inr (Allow grant)) \<in> set tr \<and>
        EAssess factory sr (Inr (Admitted adm)) \<in> set tr \<and> ps_capability step \<in> set (ad_grantedCapabilities adm))"
| "justified request tr (EDeliver sp m payload _) =
     (\<exists>step\<in>set (pp_steps (xr_program request)). \<exists>t ins adm grant sr.
        target step = FromFactory t \<and> m = ps_method step \<and> payload = step_payload request step ins adm \<and>
        satisfies_step (xr_program request) step t sp \<and>
        EDecide (invoke_question request step t ins adm sp) (Inr (Allow grant)) \<in> set tr \<and>
        ESpawn (fc_factoryId t) sr adm (Inr sp) \<in> set tr)"
| "justified request tr (EPublish pub _) =
     (\<exists>step\<in>set (pp_steps (xr_program request)). \<exists>ins drafts.
        pub = step_publication request step ins drafts \<and> delivered request step ins drafts tr)"
| "justified request tr _ = True"

definition obeys :: "'w PhysicalProgramExecutionRequest \<Rightarrow> event list \<Rightarrow> bool" where
  "obeys request tr \<longleftrightarrow> (\<forall>i<length tr. justified request (take i tr) (tr ! i))"

fun spawned_of :: "event \<Rightarrow> SpawnedActor list" where
  "spawned_of (ESpawn _ _ _ (Inr sp)) = [sp]"
| "spawned_of _ = []"

fun released_of :: "event \<Rightarrow> SpawnedActor list" where
  "released_of (ERelease sp _) = [sp]"
| "released_of _ = []"

fun publication_of :: "event \<Rightarrow> string list" where
  "publication_of (EPublish pub _) = [pb_stepId pub]"
| "publication_of _ = []"

definition collect :: "(event \<Rightarrow> 'a list) \<Rightarrow> event list \<Rightarrow> 'a list" where
  "collect f tr = concat (map f tr)"

lemma collect_snoc [simp]: "collect f (tr @ [e]) = collect f tr @ f e"
  by (simp add: collect_def)

lemma obeys_snoc [simp]: "obeys request (tr @ [e]) \<longleftrightarrow> obeys request tr \<and> justified request tr e"
  unfolding obeys_def using all_prefixes_snoc [of tr e "\<lambda>t i e. justified request t e"] by simp

text \<open>The trace so far, with the actors that are spawned and not yet released and the steps published.\<close>

definition safe :: "'w PhysicalProgramExecutionRequest \<Rightarrow> SpawnedActor list \<Rightarrow> string list \<Rightarrow> event list \<Rightarrow> bool" where
  "safe request held pubs tr \<longleftrightarrow>
     obeys request tr \<and> collect spawned_of tr = collect released_of tr @ held \<and> collect publication_of tr = pubs"

lemma deliveredI:
  "parseActorStepResult (xr_parse request) response = Inr result \<Longrightarrow> outputDrafts cap step result = Inr drafts \<Longrightarrow>
   EDeliver sp (ps_method step) (step_payload request step ins adm) (Inr response) \<in> set tr \<Longrightarrow>
   delivered request step ins drafts tr"
  unfolding delivered_def by blast

lemma delivered_snoc: "delivered request step ins drafts tr \<Longrightarrow> delivered request step ins drafts (tr @ [e])"
  unfolding delivered_def by (metis Un_iff set_append)

lemma safe_other:
  "safe request held pubs tr \<Longrightarrow> justified request tr e \<Longrightarrow> spawned_of e = [] \<Longrightarrow> released_of e = [] \<Longrightarrow>
   publication_of e = [] \<Longrightarrow> safe request held pubs (tr @ [e])"
  by (simp add: safe_def)

lemma safe_spawn:
  assumes "safe request [] pubs tr" "\<And>r. justified request tr (ESpawn f sr adm r)"
  shows "safe request [sp] pubs (tr @ [ESpawn f sr adm (Inr sp)])" "safe request [] pubs (tr @ [ESpawn f sr adm (Inl e)])"
  using assms unfolding safe_def by simp_all

lemma safe_release: "safe request [sp] pubs tr \<Longrightarrow> safe request [] pubs (tr @ [ERelease sp r])"
  by (simp add: safe_def)

lemma safe_publish:
  "safe request [] pubs tr \<Longrightarrow> justified request tr (EPublish pub r) \<Longrightarrow>
   safe request [] (pubs @ [pb_stepId pub]) (tr @ [EPublish pub r])"
  by (simp add: safe_def)

section \<open>One step\<close>

lemma use_spawned_safe:
  assumes step: "step \<in> set (pp_steps (xr_program request))" "target step = FromFactory t"
  shows "triple (on_trace (\<lambda>tr. safe request [sp] pubs tr \<and> (\<exists>sr. ESpawn (fc_factoryId t) sr adm (Inr sp) \<in> set tr)))
     (use_spawned request step cap t ins adm ids sp)
     (\<lambda>out. on_trace (\<lambda>tr. safe request [sp] pubs tr \<and> delivered request step ins (so_drafts out) tr))
     (\<lambda>_. on_trace (safe request [sp] pubs))"
proof (cases "satisfies_step (xr_program request) step t sp")
  case False
  then show ?thesis
    unfolding use_spawned_def by (simp only: simp_thms if_True) (rule trace_throw, simp)
next
  case fits: True
  let ?q = "invoke_question request step t ins adm sp" and ?payload = "step_payload request step ins adm"
  let ?asked = "\<lambda>decision tr. safe request [sp] pubs tr \<and> (\<exists>sr. ESpawn (fc_factoryId t) sr adm (Inr sp) \<in> set tr) \<and>
      EDecide ?q (Inr decision) \<in> set tr"
  have just: "justified request tr (EDeliver sp (ps_method step) ?payload r)" if "?asked (Allow grant) tr" for grant tr r
    using that step fits unfolding justified.simps by blast
  show ?thesis
    unfolding use_spawned_def Let_def using fits
    apply (simp only: simp_thms if_False)
    apply (rule trace_call [where p' = ?asked])
    subgoal by (auto intro: safe_other)
    subgoal by (auto intro: safe_other)
    subgoal for decision
      by (cases decision)
        (auto intro!: trace_throw trace_lift trace_return safe_other just
          trace_call [where p' = "\<lambda>response tr. safe request [sp] pubs tr \<and>
              EDeliver sp (ps_method step) ?payload (Inr response) \<in> set tr"] intro: deliveredI)
    done
qed

lemma spawn_step_safe:
  assumes step: "step \<in> set (pp_steps (xr_program request))" "target step = FromFactory t"
  shows "triple (on_trace (\<lambda>tr. safe request [] pubs tr \<and> EDecide (spawn_question request step t ins) (Inr (Allow grant)) \<in> set tr))
     (spawn_step request step cap t ins ids grant)
     (\<lambda>out. on_trace (\<lambda>tr. safe request [] pubs tr \<and> delivered request step ins (so_drafts out) tr))
     (\<lambda>_. on_trace (safe request [] pubs))"
proof -
  let ?sr = "spawn_request request step t ins grant" and ?f = "fc_factoryId t"
  let ?P = "\<lambda>tr. safe request [] pubs tr \<and> EDecide (spawn_question request step t ins) (Inr (Allow grant)) \<in> set tr"
  let ?held = "\<lambda>adm sp tr. safe request [sp] pubs tr \<and> (\<exists>sr. ESpawn ?f sr adm (Inr sp) \<in> set tr)"
  have used: "triple (on_trace (?held adm sp))
      (try_finally (use_spawned request step cap t ins adm ids' sp) (call (fp_release (xr_factories request) sp) (ERelease sp)))
      (\<lambda>out. on_trace (\<lambda>tr. safe request [] pubs tr \<and> delivered request step ins (so_drafts out) tr))
      (\<lambda>_. on_trace (safe request [] pubs))" for sp adm ids'
    by (rule triple_finally [OF use_spawned_safe [OF step]])
      (auto intro!: trace_call_last safe_release delivered_snoc)
  have just: "justified request tr (ESpawn ?f ?sr adm r)"
    if "?P tr" "EAssess ?f ?sr (Inr (Admitted adm)) \<in> set tr" "ps_capability step \<in> set (ad_grantedCapabilities adm)" for adm tr r
    using that step unfolding justified.simps by blast
  show ?thesis
    unfolding spawn_step_def Let_def
    apply (rule trace_call [where p' = "\<lambda>a tr. ?P tr \<and> EAssess ?f ?sr (Inr a) \<in> set tr"])
    subgoal by (auto intro: safe_other)
    subgoal by (auto intro: safe_other)
    subgoal for a
    proof (cases a)
      case (Admitted adm)
      show ?thesis
        unfolding Admitted ActorAdmissionDecision.case
      proof (intro triple_if trace_throw, simp, rule trace_call [where p' = "?held adm", OF _ _ used])
        fix tr sp
        assume granted: "\<not> ps_capability step \<notin> set (ad_grantedCapabilities adm)"
          and tr: "?P tr \<and> EAssess ?f ?sr (Inr (Admitted adm)) \<in> set tr"
        have "justified request tr (ESpawn ?f ?sr adm r)" for r using just tr granted by blast
        with tr have "safe request [sp] pubs (tr @ [ESpawn ?f ?sr adm (Inr sp)])" by (intro safe_spawn(1)) blast
        then show "?held adm sp (tr @ [ESpawn ?f ?sr adm (Inr sp)])" by auto
      next
        fix tr e
        assume granted: "\<not> ps_capability step \<notin> set (ad_grantedCapabilities adm)"
          and tr: "?P tr \<and> EAssess ?f ?sr (Inr (Admitted adm)) \<in> set tr"
        have "justified request tr (ESpawn ?f ?sr adm r)" for r using just tr granted by blast
        with tr show "safe request [] pubs (tr @ [ESpawn ?f ?sr adm (Inl e)])" by (intro safe_spawn(2)) blast
      qed
    next
      case (NotAdmitted i reason)
      show ?thesis
        unfolding NotAdmitted ActorAdmissionDecision.case by (rule trace_throw) blast
    qed
    done
qed

lemma executeFactoryStep_safe:
  assumes "step \<in> set (pp_steps (xr_program request))"
  shows "triple (on_trace (safe request [] pubs)) (executeFactoryStep request step cap ins ids)
     (\<lambda>out. on_trace (\<lambda>tr. safe request [] pubs tr \<and> delivered request step ins (so_drafts out) tr))
     (\<lambda>_. on_trace (safe request [] pubs))"
proof (cases "target step")
  case (OnInstance i)
  then show ?thesis by (simp add: executeFactoryStep_def trace_throw)
next
  case (FromFactory t)
  let ?q = "spawn_question request step t ins"
  have decided: "triple (on_trace (\<lambda>tr. safe request [] pubs tr \<and> EDecide ?q (Inr d) \<in> set tr))
      (case d of Deny _ reason \<Rightarrow> throw (Err (''spawn denied: '' @ reason))
       | Allow grant \<Rightarrow> spawn_step request step cap t ins ids grant)
      (\<lambda>out. on_trace (\<lambda>tr. safe request [] pubs tr \<and> delivered request step ins (so_drafts out) tr))
      (\<lambda>_. on_trace (safe request [] pubs))" for d
    using spawn_step_safe [OF assms FromFactory] by (cases d) (auto intro!: trace_throw)
  show ?thesis
    unfolding executeFactoryStep_def FromFactory AuthorizedActorTarget.case Let_def
    apply (rule trace_call [where p' = "\<lambda>_. safe request [] pubs"])
    subgoal by (simp add: safe_other)
    subgoal by (simp add: safe_other)
    subgoal
      apply (intro triple_if trace_throw, assumption)
      apply (rule trace_call [where p' = "\<lambda>d tr. safe request [] pubs tr \<and> EDecide ?q (Inr d) \<in> set tr", OF _ _ decided])
       apply (simp_all add: safe_other)
      done
    done
qed

section \<open>The program\<close>

abbreviation step_ids :: "'w PhysicalProgramExecutionRequest \<Rightarrow> string list" where
  "step_ids request \<equiv> map ps_id (pp_steps (xr_program request))"

text \<open>The state of a finished execution: nothing is left running, and the published steps are the first ones.\<close>

definition finished :: "'w PhysicalProgramExecutionRequest \<Rightarrow> event list \<Rightarrow> bool" where
  "finished request tr \<longleftrightarrow> (\<exists>n. safe request [] (take n (step_ids request)) tr)"

lemma resolveValue_safe:
  "triple (on_trace (safe request [] pubs)) (resolveValue store vals v)
     (\<lambda>_. on_trace (safe request [] pubs)) (\<lambda>_. on_trace (safe request [] pubs))"
proof (cases "pv_source v")
  case (FromStep sid k)
  then show ?thesis
    by (cases "map_of vals (stepValueKey sid k)")
      (simp_all add: resolveValue_def trace_throw trace_return)
next
  case (FromIngredient a)
  show ?thesis
  proof (cases "truthy a")
    case (Some i)
    have found: "triple (on_trace (safe request [] pubs))
        (case found of None \<Rightarrow> throw e | Some artifact \<Rightarrow> if b artifact then throw (e' artifact) else return artifact)
        (\<lambda>_. on_trace (safe request [] pubs)) (\<lambda>_. on_trace (safe request [] pubs))"
      for found :: "RuntimeArtifact option" and e b e'
      by (cases found) (auto intro!: trace_throw trace_return)
    show ?thesis
      unfolding resolveValue_def FromIngredient Some plan_source.case option.case(2)
      by (rule trace_call [where p' = "\<lambda>_. safe request [] pubs", OF _ _ found]) (simp_all add: safe_other)
  qed (simp add: resolveValue_def FromIngredient trace_throw)
qed

lemma resolveInputs_safe:
  "triple (on_trace (safe request [] pubs)) (resolveInputs ins vals store)
     (\<lambda>_. on_trace (safe request [] pubs)) (\<lambda>_. on_trace (safe request [] pubs))"
proof -
  have "triple (on_trace (safe request [] pubs)) m
     (\<lambda>x w. on_trace (safe request [] pubs) w \<and> True) (\<lambda>_. on_trace (safe request [] pubs))"
    if "m \<in> set (map (resolveValue store vals) ins)" for m
  proof -
    from that obtain v where "m = resolveValue store vals v" by auto
    then show ?thesis by (simp add: resolveValue_safe)
  qed
  then show ?thesis
    unfolding resolveInputs_def by (rule triple_weaken [OF triple_all [where R = "\<lambda>_. True"]]) simp_all
qed

lemma store_output_completed:
  "triple (on_trace p) (store_output step drafts x s) (\<lambda>s' w. on_trace p w \<and> es_completed s' = es_completed s) (\<lambda>_. on_trace p)"
  unfolding store_output_def
  by (cases x) (auto intro!: trace_lift triple_return)

lemma publish_step_safe:
  assumes "step \<in> set (pp_steps (xr_program request))" "pubs @ [ps_id step] = take n (step_ids request)"
  shows "triple (on_trace (\<lambda>tr. safe request [] pubs tr \<and> delivered request step ins drafts tr))
     (publish_step request step ins drafts s)
     (\<lambda>s' w. on_trace (safe request [] (pubs @ [ps_id step])) w \<and> es_completed s' = es_completed s @ [ps_id step])
     (\<lambda>_. on_trace (finished request))"
proof -
  let ?pub = "step_publication request step ins drafts" and ?p = "safe request [] (pubs @ [ps_id step])"
  have fin: "?p tr \<Longrightarrow> finished request tr" for tr using assms(2) by (auto simp: finished_def)
  have pub: "?p (tr @ [EPublish ?pub r])" if "safe request [] pubs tr" "delivered request step ins drafts tr" for tr r
  proof -
    have "justified request tr (EPublish ?pub r)" using that(2) assms(1) unfolding justified.simps by blast
    from safe_publish [OF that(1) this] show ?thesis by (simp add: step_publication_def)
  qed
  have loop: "triple (on_trace ?p) (for_io (store_output step drafts) xs s)
      (\<lambda>s' w. on_trace ?p w \<and> es_completed s' = es_completed s) (\<lambda>_. on_trace (finished request))" for xs
  proof (rule triple_weaken [OF triple_for
      [where I = "\<lambda>s' w. on_trace ?p w \<and> es_completed s' = es_completed s" and E = "\<lambda>_. on_trace ?p"]])
    fix x s' 
    have "triple (on_trace ?p) (store_output step drafts x s')
        (\<lambda>s'' w. on_trace ?p w \<and> es_completed s'' = es_completed s') (\<lambda>_. on_trace ?p)"
      by (rule store_output_completed)
    then show "triple (\<lambda>w. on_trace ?p w \<and> es_completed s' = es_completed s) (store_output step drafts x s')
        (\<lambda>s'' w. on_trace ?p w \<and> es_completed s'' = es_completed s) (\<lambda>_. on_trace ?p)"
      by (cases "es_completed s' = es_completed s") (simp_all add: triple_def)
  qed (auto simp: on_trace_def intro: fin)
  show ?thesis
    unfolding publish_step_def Let_def
    apply (rule trace_call [where p' = "\<lambda>_. ?p"])
    subgoal using pub by blast
    subgoal using pub fin by blast
    subgoal
      by (intro triple_if trace_throw fin, assumption, rule triple_bind [OF loop], rule triple_return) simp
    done
qed

lemma execute_step_safe:
  assumes prog: "pp_steps (xr_program request) = front @ step # rest"
  shows "triple (\<lambda>w. on_trace (safe request [] (map ps_id front)) w \<and> es_completed s = map ps_id front)
     (execute_step request step s)
     (\<lambda>s' w. on_trace (safe request [] (map ps_id (front @ [step]))) w \<and> es_completed s' = map ps_id (front @ [step]))
     (\<lambda>_. on_trace (finished request))"
proof (cases "es_completed s = map ps_id front")
  case False
  then show ?thesis by (simp add: triple_def)
next
  case True
  let ?p = "safe request [] (map ps_id front)"
  have step: "step \<in> set (pp_steps (xr_program request))" using prog by simp
  have pubs: "map ps_id front @ [ps_id step] = take (Suc (length front)) (step_ids request)" using prog by simp
  have fin: "?p tr \<Longrightarrow> finished request tr" for tr
    using prog by (auto simp: finished_def intro!: exI [of _ "length front"])
  have run: "triple (on_trace ?p)
      (bind_io (executeFactoryStep request step cap ins ids) (\<lambda>outcome.
          publish_step request step ins (so_drafts outcome)
            (s\<lparr>es_policyDecisionIds := so_policyDecisionIds outcome, es_warnings := es_warnings s @ so_warnings outcome\<rparr>)))
      (\<lambda>s' w. on_trace (safe request [] (map ps_id (front @ [step]))) w \<and> es_completed s' = map ps_id (front @ [step]))
      (\<lambda>_. on_trace (finished request))" for cap ins ids
    apply (rule triple_bind [OF triple_weaken [OF executeFactoryStep_safe [OF step]]])
       apply assumption
      apply assumption
    subgoal by (auto simp: on_trace_def intro: fin)
    subgoal by (rule triple_weaken [OF publish_step_safe [OF step pubs]]) (simp_all add: True)
    done
  have "triple (on_trace ?p) (execute_step request step s)
     (\<lambda>s' w. on_trace (safe request [] (map ps_id (front @ [step]))) w \<and> es_completed s' = map ps_id (front @ [step]))
     (\<lambda>_. on_trace (finished request))"
  proof -
    have resolved: "triple (on_trace ?p) (resolveInputs ins vals store) (\<lambda>_. on_trace ?p) (\<lambda>_. on_trace (finished request))"
      for ins vals store
      by (rule triple_weaken [OF resolveInputs_safe]) (auto simp: on_trace_def intro: fin)
    show ?thesis
      unfolding execute_step_def Let_def
      apply (intro triple_if trace_throw fin, assumption)
      apply (cases "truthy (find (\<lambda>dependency. dependency \<notin> set (es_completed s)) (ps_dependsOn step))")
      subgoal
        by (simp only: option.case) (intro trace_lift fin triple_bind [OF resolved] run)
      subgoal
        by (simp only: option.case) (intro trace_throw fin)
      done
  qed
  with True show ?thesis by simp
qed

lemma executePhysicalProgram_safe:
  fixes request :: "'w PhysicalProgramExecutionRequest"
  shows "triple (on_trace (\<lambda>tr. tr = [])) (executePhysicalProgram request)
     (\<lambda>result w. on_trace (safe request [] (step_ids request)) w \<and> xo_completedStepIds result = step_ids request)
     (\<lambda>_. on_trace (finished request))"
proof -
  let ?I = "(\<lambda>front s w. on_trace (safe request [] (map ps_id front)) w \<and> es_completed s = map ps_id front)
    :: PhysicalPlanStep list \<Rightarrow> exec_state \<Rightarrow> event list \<times> 'w \<Rightarrow> bool"
  let ?s0 = "\<lparr>es_values = [], es_completed = [], es_published = [], es_policyDecisionIds = [], es_warnings = []\<rparr>"
  have start: "safe request [] [] []" by (simp add: safe_def obeys_def collect_def)
  have loop: "triple (?I [] ?s0) (for_io (execute_step request) (pp_steps (xr_program request)) ?s0)
      (?I (pp_steps (xr_program request))) (\<lambda>_. on_trace (finished request))"
    by (rule triple_for_processed [where I = ?I]) (rule execute_step_safe)
  have fin: "safe request [] (step_ids request) tr \<Longrightarrow> finished request tr" for tr
    unfolding finished_def by (rule exI [of _ "length (pp_steps (xr_program request))"]) simp
  have last: "triple (?I (pp_steps (xr_program request)) s)
      (bind_io (resolveInputs (pp_results (xr_program request)) (es_values s) (xr_artifacts request)) (\<lambda>results.
        let fulfilled = map art_predicate results in
        return \<lparr>xo_completedStepIds = es_completed s, xo_artifacts = es_published s, xo_fulfilledPredicates = fulfilled,
          xo_remainingGoals = filter (\<lambda>goal. \<not> list_ex (unifiable goal) fulfilled) (pp_goals (xr_program request)),
          xo_registryRevision = pp_registryRevision (xr_program request), xo_policyDecisionIds = sort (es_policyDecisionIds s),
          xo_warnings = es_warnings s\<rparr>))
      (\<lambda>result w. on_trace (safe request [] (step_ids request)) w \<and> xo_completedStepIds result = step_ids request)
      (\<lambda>_. on_trace (finished request))" for s
  proof (cases "es_completed s = step_ids request")
    case True
    have resolved: "triple (on_trace (safe request [] (step_ids request)))
        (resolveInputs ins vals store) (\<lambda>_. on_trace (safe request [] (step_ids request))) (\<lambda>_. on_trace (finished request))"
      for ins vals store
      by (rule triple_weaken [OF resolveInputs_safe]) (auto simp: on_trace_def intro: fin)
    show ?thesis
      unfolding Let_def
      by (rule triple_weaken [OF triple_bind [OF resolved triple_return]]) (use True in auto)
  qed (simp add: triple_def)
  have "triple (?I [] ?s0) (executePhysicalProgram request)
      (\<lambda>result w. on_trace (safe request [] (step_ids request)) w \<and> xo_completedStepIds result = step_ids request)
      (\<lambda>_. on_trace (finished request))"
    unfolding executePhysicalProgram_def Let_def
    apply (rule triple_bind_lift)
    subgoal by (rule triple_bind [OF loop last [unfolded Let_def]])
    subgoal by (auto simp: on_trace_def finished_def intro: exI [of _ 0])
    done
  then show ?thesis by (rule triple_weaken) (auto simp: on_trace_def start)
qed

text \<open>The calls an execution makes, in order, in the world \<open>w\<close>.\<close>

definition execution_trace :: "'w PhysicalProgramExecutionRequest \<Rightarrow> 'w \<Rightarrow> event list" where
  "execution_trace request w = fst (snd (executePhysicalProgram request ([], w)))"

lemma execution_finished: "finished request (execution_trace request w)"
proof -
  obtain r tr w' where run: "executePhysicalProgram request ([], w) = (r, (tr, w'))"
    by (cases "executePhysicalProgram request ([], w)") auto
  have start: "on_trace (\<lambda>tr. tr = []) ([], w)" by simp
  have "finished request tr"
  proof (cases r)
    case (Inl e)
    with run have "executePhysicalProgram request ([], w) = (Inl e, (tr, w'))" by simp
    from triple_Inl [OF executePhysicalProgram_safe start this] show ?thesis by simp
  next
    case (Inr result)
    with run have "executePhysicalProgram request ([], w) = (Inr result, (tr, w'))" by simp
    from triple_Inr [OF executePhysicalProgram_safe start this] have "safe request [] (step_ids request) tr" by simp
    then show ?thesis unfolding finished_def by (intro exI [of _ "length (step_ids request)"]) simp
  qed
  with run show ?thesis by (simp add: execution_trace_def)
qed

section \<open>Properties\<close>

text \<open>C15. Whatever the ports do and however the execution ends, every actor it spawned has been released, in the
  order of the spawns, before it ends.\<close>

theorem execution_releases:
  "collect spawned_of (execution_trace request w) = collect released_of (execution_trace request w)"
  using execution_finished [of request w] by (auto simp: finished_def safe_def)

text \<open>C14. Every spawn follows the authorizer's grant of exactly that spawn and the factory's admission with the
  capability; every invocation follows the spawn of a fitting actor and the authorizer's grant for that instance
  with exactly the inputs it is given; every publication contains what an actor delivered for that step.\<close>

theorem execution_authorized: "obeys request (execution_trace request w)"
  using execution_finished [of request w] by (auto simp: finished_def safe_def)

text \<open>The steps are published in the order of the program, each at most once, also when the execution
  fails.\<close>

theorem execution_publishes_in_order:
  "\<exists>n. collect publication_of (execution_trace request w) = take n (map ps_id (pp_steps (xr_program request)))"
  using execution_finished [of request w] by (auto simp: finished_def safe_def)

text \<open>An execution that returns has completed and published every step of the program.\<close>

theorem execution_completes:
  "executePhysicalProgram request ([], w) = (Inr result, (tr, w')) \<Longrightarrow>
   xo_completedStepIds result = map ps_id (pp_steps (xr_program request)) \<and>
   collect publication_of tr = map ps_id (pp_steps (xr_program request))"
  using triple_Inr [OF executePhysicalProgram_safe, of "([], w)" request result "(tr, w')"] by (simp add: safe_def)

section \<open>A concrete execution\<close>

definition demo_step :: PhysicalPlanStep where
  "demo_step = \<lparr>ps_id = ''step-1'', ps_capability = ''ocr'', ps_actor = ''u1'', ps_method = ''read'',
     ps_inputs = [\<lparr>pv_predicate = ''file(d)'', pv_source = FromIngredient (Some ''a'')\<rparr>],
     ps_outputs = [\<lparr>pv_predicate = ''text(d)'', pv_source = FromStep ''step-1'' 0\<rparr>], ps_dependsOn = [], ps_cost = 1,
     target = FromFactory \<lparr>fc_offerId = ''offer'', fc_factoryId = ''factory'', fc_definitionRef = ''ref'',
       fc_configuration = [], fc_executionEnvironment = Server, fc_cost = 0, fc_latencyMs = None,
       fc_authorization = demo_grant\<rparr>\<rparr>"

definition demo_slot :: "string \<Rightarrow> Predicate \<Rightarrow> CapabilitySlot" where
  "demo_slot name p = \<lparr>slot_name = name, slot_predicate = p, slot_schema = Some ''s'', slot_role = None,
     slot_cardinality = One, slot_sensitive = None\<rparr>"

definition demo_ocr :: Capability where
  "demo_ocr = (cap_of ''ocr'' [''file(D)''] [''text(D)''] 1)
     \<lparr>c_inputSlots := Some [demo_slot ''source'' ''file(D)''], c_outputSlots := Some [demo_slot ''text'' ''text(D)'']\<rparr>"

definition demo_artifact :: "string \<Rightarrow> Predicate \<Rightarrow> RuntimeArtifact" where
  "demo_artifact i p = \<lparr>art_artifactId = i, art_predicate = p, art_schema = ''s'', art_typeKey = ''t'',
     art_schemaVersion = 1, art_contentDigest = ''c'', art_value = of_json (JStr ''v'')\<rparr>"

definition demo_spawned :: SpawnedActor where
  "demo_spawned = \<lparr>sp_uuid = ''u1'', sp_advertisement = \<lparr>ai_instanceId = ''u1'', ai_definitionRef = ''ref'', ai_label = [],
     ai_address = LocalAddress ''u1'', ai_capabilityIds = [''ocr''], ai_status = Available, ai_executionEnvironment = Server,
     ai_locality = None, ai_trustDomain = None, ai_cost = None, ai_latencyMs = None, ai_expiresAt = None,
     ai_metadata = None\<rparr>\<rparr>"

definition demo_request :: "unit PhysicalProgramExecutionRequest" where
  "demo_request = \<lparr>xr_runId = ''run'',
     xr_program = \<lparr>pp_goals = [''text(d)''], pp_totalCost = 1, pp_results = ps_outputs demo_step, pp_registryRevision = 1,
       pp_subjectId = ''alice'', pp_tenantId = None, pp_executionEnvironment = Server, pp_steps = [demo_step]\<rparr>,
     xr_registry = \<lparr>sn_revision = 1, sn_capturedAt = [], sn_definitions = [\<lparr>ad_ref = ''ref'', ad_id = ''i'', ad_version = [],
       ad_label = [], ad_description = [], ad_tags = [], ad_manifest = demo_manifest, ad_capabilities = [demo_ocr]\<rparr>],
       sn_instances = [], sn_offers = []\<rparr>,
     xr_principal = demo_principal, xr_access = no_access, xr_authorizer = of_policy (\<lambda>_. Allow demo_grant),
     xr_factories = \<lparr>
       fp_resolve = \<lambda>_. return (Some \<lparr>ao_offerId = ''offer'', ao_factoryId = ''factory'', ao_definitionRef = ''ref'',
         ao_label = [], ao_capabilityIds = [''ocr''], ao_executionEnvironment = Server, ao_configurationSchema = None,
         ao_defaultConfiguration = None, ao_locality = None, ao_trustDomain = None, ao_cost = None, ao_latencyMs = None,
         ao_lifetime = None, ao_metadata = None\<rparr>),
       fp_assess = \<lambda>_ _. return (Admitted \<lparr>ad_admissionId = ''m'', ad_expiresAt = [], ad_grantedCapabilities = [''ocr''],
         ad_normalizedConfiguration = [], ad_constraints = None, ad_obligations = None\<rparr>),
       fp_spawn = \<lambda>_ _ _. return demo_spawned,
       fp_deliver = \<lambda>_ _ _. return \<lparr>hr_record = ''r'', hr_wire = ''w''\<rparr>,
       fp_release = \<lambda>_. return ()\<rparr>,
     xr_artifacts = \<lparr>ap_resolve = \<lambda>i p. return (Some (demo_artifact i p)),
       ap_publish = \<lambda>pub. return (map (\<lambda>d. demo_artifact (dr_slot d) (dr_predicate d)) (pb_outputs pub))\<rparr>,
     xr_parse = \<lambda>_. Inr (JObj [(''ok'', JBool True), (''outputs'', JObj [(''text'', JStr ''v'')])]),
     xr_parameters = [], xr_resource = None\<rparr>"

lemma demo_execution_returns: "\<not> isl (fst (executePhysicalProgram demo_request ([], ())))"
  by code_simp

theorem execution_completes_witness:
  "\<exists>result. \<exists>tr. executePhysicalProgram demo_request ([], ()) = (Inr result, (tr, ())) \<and>
     xo_completedStepIds (result :: PhysicalProgramExecutionResult) = [''step-1''] \<and> collect publication_of tr = [''step-1'']"
proof -
  obtain result :: PhysicalProgramExecutionResult and tr
    where run: "executePhysicalProgram demo_request ([], ()) = (Inr result, (tr, ()))"
    using demo_execution_returns
    by (cases "executePhysicalProgram demo_request ([], ())"; cases "fst (executePhysicalProgram demo_request ([], ()))") auto
  have "map ps_id (pp_steps (xr_program demo_request)) = [''step-1'']"
    by (simp add: demo_request_def demo_step_def)
  with execution_completes [OF run] run show ?thesis by simp
qed

end
