(* ===== verification/Plan_Executor.thy ===== *)
theory Plan_Executor
  imports Executor_Safety Affordances
begin

text \<open>
  libs/aven-actors/src/executor.ts, the plan executor a host composes: authorize the registry for planning,
  plan in the host's environment, execute the physical program, describe what was understood.  The host's
  ports are parameters; each rejects rather than throws while the array of a \<open>Promise.all\<close> is built, so the
  other ports of that array are called too.
\<close>

section \<open>Ports\<close>

record 'w ActorExecutionHost =
  ho_executionEnvironment :: ExecutionEnvironment
  ho_registry :: "PlanRunStartRequest \<Rightarrow> ('w, ActorRegistrySnapshot) io"
  ho_authorizer :: "PlanRunStartRequest \<Rightarrow> ('w, 'w authorizer) io"
  ho_factories :: "PlanRunStartRequest \<Rightarrow> ('w, 'w factories) io"
  ho_artifacts :: "PlanRunStartRequest \<Rightarrow> ('w, 'w artifacts) io"
  ho_resource :: "PlanRunStartRequest \<Rightarrow> ('w, json_record option) io"
  ho_affordances :: "PlanRunStartRequest \<Rightarrow> ('w, AffordanceDefinition list) io"
  ho_relatedIngredients :: "PlanRunStartRequest \<Rightarrow> ('w, Ingredient list) io"
  ho_parse :: "string \<Rightarrow> json res"
  ho_collation :: collation

text \<open>A port of the host; a part of the run with a trace of its own, which is appended.\<close>

definition on_world :: "('w, 'a) io \<Rightarrow> ('w, 'a) run" where
  "on_world m = (\<lambda>(tr, w). case m w of (r, w') \<Rightarrow> (r, (tr, w')))"

definition appending :: "('e \<Rightarrow> event) \<Rightarrow> ('e list \<times> 'w, 'a) io \<Rightarrow> ('w, 'a) run" where
  "appending f m = (\<lambda>(tr, w). case m ([], w) of (r, (tr', w')) \<Rightarrow> (r, (tr @ map f tr', w')))"

fun decide_event :: "answer \<Rightarrow> event" where
  "decide_event (Answered question r) = EDecide question r"

text \<open>\<open>Promise.all\<close> of two and of three computations.\<close>

definition both :: "('w, 'a) io \<Rightarrow> ('w, 'b) io \<Rightarrow> ('w, 'a \<times> 'b) io" where
  "both m n = (\<lambda>w. case m w of (r, w1) \<Rightarrow> (case n w1 of (s, w2) \<Rightarrow>
     (rbind r (\<lambda>x. rbind s (\<lambda>y. Inr (x, y))), w2)))"

section \<open>The request\<close>

fun goal_subject :: "PlanRunGoalSpec option \<Rightarrow> (Ingredient \<times> string list) option" where
  "goal_subject (Some (Explore subject families)) = Some (subject, families)"
| "goal_subject (Some (ExactThenEnrich subject families)) = Some (subject, families)"
| "goal_subject _ = None"

fun explores :: "PlanRunGoalSpec option \<Rightarrow> bool" where
  "explores (Some (Explore _ _)) = True"
| "explores _ = False"

definition assertGoalRequest :: "PlanRunStartRequest \<Rightarrow> unit res" where
  "assertGoalRequest request =
     rbind (throw_if (explores (rs_goalSpec request) \<and> rs_goals request \<noteq> [])
       (Err ''exploration cannot include exact goals'')) (\<lambda>_.
     rbind (throw_if (\<not> explores (rs_goalSpec request) \<and> rs_goals request = [])
       (Err ''exact execution requires at least one goal'')) (\<lambda>_.
     case goal_subject (rs_goalSpec request) of
       None \<Rightarrow> Inr ()
     | Some (subject, _) \<Rightarrow>
         rbind (throw_if (truthy (in_artifactId subject) = None) (Err ''exploration subject requires an artifact'')) (\<lambda>_.
         throw_if (\<not> list_ex (\<lambda>i. in_predicate i = in_predicate subject \<and> in_artifactId i = in_artifactId subject)
             (rs_ingredients request))
           (Err ''exploration subject is not an admitted ingredient''))))"

definition uniqueIngredients :: "Ingredient list \<Rightarrow> Ingredient list" where
  "uniqueIngredients ingredients =
     map_values (map_from (map (\<lambda>i. (in_predicate i @ NUL @ orelse (in_artifactId i) [], i)) ingredients))"

section \<open>Planning\<close>

definition environment_options :: "ExecutionEnvironment \<Rightarrow> PhysicalPlanningOptions" where
  "environment_options env = \<lparr>ph_options = no_solve_options, ph_environment = env\<rparr>"

text \<open>The program the goal specification asks for; a plan that is not \<open>ok\<close> is thrown with its reason.\<close>

definition enrichment_program :: "PhysicalEnrichmentResult \<Rightarrow> PhysicalProgram res" where
  "enrichment_program planned =
     (case planned of PhysicalEnrichOk program _ \<Rightarrow> Inr program | PhysicalEnrichFail reason _ \<Rightarrow> Inl (Err reason))"

definition solved_program :: "PhysicalPlanResult \<Rightarrow> PhysicalProgram res" where
  "solved_program planned =
     (case planned of PhysicalOk program _ \<Rightarrow> Inr program | PhysicalFail _ _ reason \<Rightarrow> Inl (Err reason))"

definition plan_program :: "collation \<Rightarrow> ExecutionEnvironment \<Rightarrow> PlanRunStartRequest \<Rightarrow> AuthorizedRegistryView \<Rightarrow>
    PhysicalProgram res" where
  "plan_program ck env request view =
     (case rs_goalSpec request of
        Some (ExactThenEnrich _ families) \<Rightarrow>
          rbind (enrichAfterGoalsAuthorized ck view (rs_ingredients request) (rs_goals request) families
            (environment_options env)) enrichment_program
      | Some (Explore _ families) \<Rightarrow>
          rbind (enrichAuthorized ck view (rs_ingredients request) families (environment_options env)) enrichment_program
      | _ \<Rightarrow>
          rbind (solveAuthorized ck view (rs_ingredients request) (rs_goals request) (environment_options env))
            solved_program)"

section \<open>What was understood\<close>

record understanding_fact =
  uf_predicate :: Predicate
  uf_artifactId :: string
  uf_schema :: "string option"

record PlanRunUnderstandingOutput =
  uo_subjectArtifactId :: string
  uo_facts :: "understanding_fact list"
  uo_affordances :: "AvailableAffordance list"

definition understood_fact :: "RuntimeArtifact list \<Rightarrow> Ingredient \<Rightarrow> understanding_fact list" where
  "understood_fact artifacts ingredient =
     (case truthy (in_artifactId ingredient) of
        None \<Rightarrow> []
      | Some i \<Rightarrow> [\<lparr>uf_predicate = in_predicate ingredient, uf_artifactId = i,
          uf_schema = map_option art_schema (find (\<lambda>candidate. art_artifactId candidate = i) artifacts)\<rparr>])"

definition artifact_ingredient :: "RuntimeArtifact \<Rightarrow> Ingredient" where
  "artifact_ingredient a = \<lparr>in_predicate = art_predicate a, in_artifactId = Some (art_artifactId a)\<rparr>"

definition environment_capabilities :: "ExecutionEnvironment \<Rightarrow> AuthorizedRegistryView \<Rightarrow> Capability list" where
  "environment_capabilities env view =
     concat (map (\<lambda>ac. if list_ex (\<lambda>t. target_environment t = env) (ac_targets ac) then [ac_capability ac] else [])
       (v_capabilities view))"

definition understandingOutput :: "'w ActorExecutionHost \<Rightarrow> PlanRunStartRequest \<Rightarrow> AuthorizedRegistryView \<Rightarrow>
    RuntimeArtifact list \<Rightarrow> Ingredient \<Rightarrow> ('w, PlanRunUnderstandingOutput) run" where
  "understandingOutput host request view artifacts subject =
     (case truthy (in_artifactId subject) of
        None \<Rightarrow> throw (Err ''exploration subject requires an artifact'')
      | Some subjectArtifactId \<Rightarrow>
          let currentFacts = rs_ingredients request @ map artifact_ingredient artifacts in
          bind_io (both (on_world (ho_affordances host request)) (on_world (ho_relatedIngredients host request)))
            (\<lambda>(definitions, related).
          let facts = uniqueIngredients (currentFacts @ related) in
          return \<lparr>uo_subjectArtifactId = subjectArtifactId,
            uo_facts = concat (map (understood_fact artifacts) (uniqueIngredients currentFacts)),
            uo_affordances = discoverAffordances (ho_collation host) definitions facts
              (environment_capabilities (ho_executionEnvironment host) view)\<rparr>))"

text \<open>The output as the record a checkpoint keeps.\<close>

definition ingredient_json :: "Ingredient \<Rightarrow> json" where
  "ingredient_json i = JObj ((''predicate'', JStr (in_predicate i)) #
     (case in_artifactId i of None \<Rightarrow> [] | Some a \<Rightarrow> [(''artifactId'', JStr a)]))"

fun effect_text :: "affordance_effect \<Rightarrow> string" where
  "effect_text NoEffect = ''none''"
| "effect_text PrepareEffect = ''prepare''"
| "effect_text CommitEffect = ''commit''"

definition affordance_json :: "AvailableAffordance \<Rightarrow> json" where
  "affordance_json a = JObj [(''id'', JStr (av_id a)), (''label'', JStr (av_label a)),
     (''description'', JStr (av_description a)), (''goals'', JArr (map JStr (av_goals a))),
     (''effect'', JStr (effect_text (av_effect a))), (''ingredients'', JArr (map ingredient_json (av_ingredients a)))]"

definition fact_json :: "understanding_fact \<Rightarrow> json" where
  "fact_json f = JObj ([(''predicate'', JStr (uf_predicate f)), (''artifactId'', JStr (uf_artifactId f))] @
     (case uf_schema f of None \<Rightarrow> [] | Some s \<Rightarrow> [(''schema'', JStr s)]))"

definition understanding_record :: "PlanRunUnderstandingOutput \<Rightarrow> js_record" where
  "understanding_record understood = map (\<lambda>(k, j). (k, of_json j))
     [(''kind'', JStr ''artifact-understanding''), (''status'', JStr ''complete''),
      (''stoppingReason'', JStr ''saturated''), (''subjectArtifactId'', JStr (uo_subjectArtifactId understood)),
      (''facts'', JArr (map fact_json (uo_facts understood))), (''affordances'', JArr (map affordance_json (uo_affordances understood)))]"

section \<open>The executor\<close>

definition run_output :: "'w ActorExecutionHost \<Rightarrow> PlanRunStartRequest \<Rightarrow> AuthorizedRegistryView \<Rightarrow>
    RuntimeArtifact list \<Rightarrow> ('w, js_record option) run" where
  "run_output host request view artifacts =
     (case goal_subject (rs_goalSpec request) of
        None \<Rightarrow> return None
      | Some (subject, _) \<Rightarrow>
          bind_io (understandingOutput host request view artifacts subject) (\<lambda>understood. return (Some (understanding_record understood))))"

definition unmet_goals :: "PlanRunStartRequest \<Rightarrow> Predicate list" where
  "unmet_goals request =
     filter (\<lambda>goal. \<not> list_ex (\<lambda>i. unifiable goal (in_predicate i)) (rs_ingredients request)) (rs_goals request)"

definition execution_request :: "'w ActorExecutionHost \<Rightarrow> PlanRunStartRequest \<Rightarrow> ActorRegistrySnapshot \<Rightarrow>
    'w authorizer \<Rightarrow> PhysicalProgram \<Rightarrow> 'w factories \<Rightarrow> 'w artifacts \<Rightarrow> json_record option \<Rightarrow>
    'w PhysicalProgramExecutionRequest" where
  "execution_request host request registry authorizer program fp ap resource =
     \<lparr>xr_runId = rs_idempotencyKey request, xr_program = program, xr_registry = registry,
      xr_principal = sc_principal (rs_security request), xr_access = sc_access (rs_security request),
      xr_authorizer = authorizer, xr_factories = fp, xr_artifacts = ap, xr_parse = ho_parse host,
      xr_parameters = rs_parameters request, xr_resource = resource\<rparr>"

definition run_program :: "'w ActorExecutionHost \<Rightarrow> PlanRunStartRequest \<Rightarrow> ActorRegistrySnapshot \<Rightarrow>
    'w authorizer \<Rightarrow> AuthorizedRegistryView \<Rightarrow> PhysicalProgram \<Rightarrow> ('w, PlanRunExecutionResult) run" where
  "run_program host request registry authorizer view program =
     (if pp_steps program = [] then
        bind_io (run_output host request view []) (\<lambda>output.
        return \<lparr>x_artifactIds = Some [], x_completedStepIds = Some [],
          x_remainingGoals = Some (if goal_subject (rs_goalSpec request) = None then [] else unmet_goals request),
          x_registryRevision = Some (sn_revision registry), x_policyDecisionIds = Some [], x_output = output,
          x_continuation = None\<rparr>)
      else
        bind_io (both (on_world (ho_factories host request))
          (both (on_world (ho_artifacts host request)) (on_world (ho_resource host request)))) (\<lambda>(fp, ap, resource).
        bind_io (appending id (executePhysicalProgram (execution_request host request registry authorizer program fp ap resource)))
          (\<lambda>result.
        bind_io (run_output host request view (xo_artifacts result)) (\<lambda>output.
        return \<lparr>x_artifactIds = Some (map art_artifactId (xo_artifacts result)),
          x_completedStepIds = Some (xo_completedStepIds result), x_remainingGoals = Some (xo_remainingGoals result),
          x_registryRevision = Some (xo_registryRevision result),
          x_policyDecisionIds = Some (xo_policyDecisionIds result), x_output = output, x_continuation = None\<rparr>))))"

definition run_planning_options :: "PlanRunStartRequest \<Rightarrow> PlanningAuthorizationOptions" where
  "run_planning_options request =
     \<lparr>po_access = Some (sc_access (rs_security request)), po_configurationByOffer = [], po_resource = None\<rparr>"

fun environment_text :: "ExecutionEnvironment \<Rightarrow> string" where
  "environment_text Local = ''local''"
| "environment_text Server = ''server''"

definition createActorPlanExecutor :: "'w ActorExecutionHost \<Rightarrow> PlanRunStartRequest \<Rightarrow> ('w, PlanRunExecutionResult) run" where
  "createActorPlanExecutor host request =
     (if rs_executionEnvironment request \<noteq> ho_executionEnvironment host
      then throw (Err (environment_text (ho_executionEnvironment host) @ '' execution host cannot run '' @
             environment_text (rs_executionEnvironment request) @ '' placement''))
      else
        bind_io (lift (assertGoalRequest request)) (\<lambda>_.
        bind_io (both (on_world (ho_registry host request)) (on_world (ho_authorizer host request))) (\<lambda>(registry, authorizer).
        bind_io (appending decide_event (authorizeRegistryForPlanning (ho_collation host) registry
          (sc_principal (rs_security request)) authorizer (run_planning_options request))) (\<lambda>view.
        bind_io (lift (plan_program (ho_collation host) (ho_executionEnvironment host) request view)) (\<lambda>program.
        run_program host request registry authorizer view program)))))"

section \<open>What a run does\<close>

lemma portable_understanding: "portable_record (understanding_record understood) path = Inr ()"
  unfolding portable_record_def understanding_record_def of_json.simps [symmetric] by (rule portable_of_json)

lemma planned_program_iff:
  "enrichment_program r = Inr p \<longleftrightarrow> (\<exists>n. r = PhysicalEnrichOk p n)"
  "solved_program q = Inr p \<longleftrightarrow> (\<exists>n. q = PhysicalOk p n)"
  by (auto simp: enrichment_program_def solved_program_def split: PhysicalEnrichmentResult.split PhysicalPlanResult.split)

lemma plan_program_placed:
  assumes "plan_program ck env request view = Inr p" "st \<in> set (pp_steps p)"
  shows "placed_in view env st"
proof -
  have env: "ph_environment (environment_options env) = env" by (simp add: environment_options_def)
  show ?thesis
    using assms unfolding plan_program_def
    by (auto simp: env planned_program_iff dest: placed_results split: option.split_asm PlanRunGoalSpec.split_asm)
qed

lemma triple_on_world: "triple (on_trace p) (on_world m) (\<lambda>_. on_trace p) (\<lambda>_. on_trace p)"
  by (auto simp: triple_def on_world_def split: prod.splits sum.splits)

lemma triple_both:
  assumes "triple P m (\<lambda>_. P) (\<lambda>_. P)" "triple P n (\<lambda>_. P) (\<lambda>_. P)"
  shows "triple P (both m n) (\<lambda>_. P) (\<lambda>_. P)"
proof -
  have after: "P w1" if "triple P k (\<lambda>_. P) (\<lambda>_. P)" "P w0" "k w0 = (r, w1)" for k :: "('a, 'd) io" and w0 w1 r
    using that by (cases r) (auto dest: triple_Inr triple_Inl)
  have "P (snd (both m n w0))" if "P w0" for w0
    using after [OF assms(1) that] after [OF assms(2)] by (auto simp: both_def split: prod.splits)
  then show ?thesis by (auto simp: triple_def split: prod.splits sum.splits) (metis snd_conv)+
qed

lemma triple_appending:
  assumes "triple (on_trace (\<lambda>tr. tr = [])) m (\<lambda>x. on_trace (q x)) (\<lambda>_. on_trace e)"
  shows "triple (on_trace p) (appending f m)
     (\<lambda>x. on_trace (\<lambda>tr. \<exists>tr0 tr'. p tr0 \<and> tr = tr0 @ map f tr' \<and> q x tr'))
     (\<lambda>_. on_trace (\<lambda>tr. \<exists>tr0 tr'. p tr0 \<and> tr = tr0 @ map f tr' \<and> e tr'))"
proof (rule tripleI; clarify)
  show "on_trace (\<lambda>tr. \<exists>tr0 tr'. p tr0 \<and> tr = tr0 @ map f tr' \<and> q x tr') (tr1, w1)"
    if "on_trace p (tr0, w0)" "appending f m (tr0, w0) = (Inr x, (tr1, w1))" for tr0 w0 x tr1 w1
    using that triple_Inr [OF assms, of "([], w0)" x] by (auto simp: appending_def split: prod.splits)
  show "on_trace (\<lambda>tr. \<exists>tr0 tr'. p tr0 \<and> tr = tr0 @ map f tr' \<and> e tr') (tr1, w1)"
    if "on_trace p (tr0, w0)" "appending f m (tr0, w0) = (Inl er, (tr1, w1))" for tr0 w0 er tr1 w1
    using that triple_Inl [OF assms, of "([], w0)" er] by (auto simp: appending_def split: prod.splits)
qed

text \<open>The calls of a run: the authorizer's answers while planning, then the execution of a program whose steps
  are placed on targets of the view those answers allowed.\<close>

definition accounted :: "'w ActorExecutionHost \<Rightarrow> PlanRunStartRequest \<Rightarrow> event list \<Rightarrow> bool" where
  "accounted host request tr \<longleftrightarrow>
     (\<exists>answers. tr = map decide_event answers) \<or>
     (\<exists>answers tr' registry authorizer view program fp ap resource.
        tr = map decide_event answers @ tr' \<and>
        view_inv registry (sc_principal (rs_security request)) (run_planning_options request) (v_capabilities view) answers \<and>
        (\<forall>st\<in>set (pp_steps program). placed_in view (ho_executionEnvironment host) st) \<and>
        finished (execution_request host request registry authorizer program fp ap resource :: 'w PhysicalProgramExecutionRequest) tr')"

lemma understandingOutput_trace:
  "triple (on_trace p) (understandingOutput host request view artifacts subject) (\<lambda>_. on_trace p) (\<lambda>_. on_trace p)"
  unfolding understandingOutput_def Let_def
  by (cases "truthy (in_artifactId subject)")
    (auto intro!: trace_throw trace_return triple_bind [OF triple_both [OF triple_on_world triple_on_world]])

lemma run_output_trace:
  "triple (on_trace p) (run_output host request view artifacts) (\<lambda>_. on_trace p) (\<lambda>_. on_trace p)"
  unfolding run_output_def
  by (cases "goal_subject (rs_goalSpec request)")
    (auto intro!: trace_return triple_bind [OF understandingOutput_trace])

lemma finished_safe: "safe request [] (step_ids request) tr \<Longrightarrow> finished request tr"
  unfolding finished_def by (rule exI [of _ "length (step_ids request)"]) simp

lemma execution_finishes:
  "triple (on_trace (\<lambda>tr. tr = [])) (executePhysicalProgram request) (\<lambda>_. on_trace (finished request)) (\<lambda>_. on_trace (finished request))"
  by (rule triple_weaken [OF executePhysicalProgram_safe]) (auto simp: on_trace_def intro: finished_safe)

lemma run_program_accounted:
  fixes host :: "'w ActorExecutionHost" and request registry
  assumes placed: "\<forall>st\<in>set (pp_steps program). placed_in view (ho_executionEnvironment host) st"
  defines "asked tr \<equiv> \<exists>answers. tr = map decide_event answers \<and>
      view_inv registry (sc_principal (rs_security request)) (run_planning_options request) (v_capabilities view) answers"
  shows "triple (on_trace asked) (run_program host request registry authorizer view program)
     (\<lambda>_. on_trace (accounted host request)) (\<lambda>_. on_trace (accounted host request))"
proof -
  have planned: "accounted host request tr" if "asked tr" for tr
    using that unfolding asked_def accounted_def by blast
  have executed: "accounted host request (tr0 @ tr')"
    if "asked tr0" "finished (execution_request host request registry authorizer program fp ap resource) tr'"
    for tr0 tr' and fp :: "'w factories" and ap :: "'w artifacts" and resource
    using that placed unfolding asked_def accounted_def by blast
  have described: "triple (on_trace p) (run_output host request view artifacts) (\<lambda>_. on_trace q) (\<lambda>_. on_trace q)"
    if "\<And>tr. p tr \<Longrightarrow> q tr" for p q artifacts
    by (rule triple_weaken [OF run_output_trace]) (auto simp: on_trace_def that)
  show ?thesis
  proof (cases "pp_steps program = []")
    case True
    show ?thesis
      unfolding run_program_def if_P [OF True]
      by (rule triple_bind [OF described triple_return]) (auto simp: planned)
  next
    case False
    have ports: "triple (on_trace asked) (both (on_world a) (both (on_world b) (on_world c)))
        (\<lambda>_. on_trace asked) (\<lambda>_. on_trace (accounted host request))"
      for a :: "('w, 'w factories) io" and b :: "('w, 'w artifacts) io" and c :: "('w, json_record option) io"
      by (rule triple_weaken [OF triple_both [OF triple_on_world [where p = asked] triple_both [OF triple_on_world triple_on_world]]])
        (auto simp: on_trace_def planned)
    have run: "triple (on_trace asked)
        (appending id (executePhysicalProgram (execution_request host request registry authorizer program fp ap resource)))
        (\<lambda>_. on_trace (accounted host request)) (\<lambda>_. on_trace (accounted host request))"
      for fp :: "'w factories" and ap :: "'w artifacts" and resource
      by (rule triple_weaken [OF triple_appending [OF execution_finishes]]) (auto simp: on_trace_def executed)
    show ?thesis
      unfolding run_program_def if_not_P [OF False]
      by (rule triple_bind [OF ports]) (auto intro!: triple_bind [OF run] triple_bind [OF described] triple_return)
  qed
qed

lemma executor_accounted:
  "triple (on_trace (\<lambda>tr. tr = [])) (createActorPlanExecutor host request)
     (\<lambda>_. on_trace (accounted host request)) (\<lambda>_. on_trace (accounted host request))"
proof -
  let ?none = "\<lambda>tr :: event list. tr = []"
  have none: "accounted host request []" unfolding accounted_def by auto
  have ports: "triple (on_trace ?none) (both (on_world a) (on_world b)) (\<lambda>_. on_trace ?none) (\<lambda>_. on_trace (accounted host request))"
    for a :: "('b, ActorRegistrySnapshot) io" and b :: "('b, 'b authorizer) io"
    by (rule triple_weaken [OF triple_both [OF triple_on_world [where p = ?none] triple_on_world]])
      (auto simp: on_trace_def none)
  have view: "triple (on_trace ?none)
      (appending decide_event (authorizeRegistryForPlanning ck registry who authorizer options))
      (\<lambda>view. on_trace (\<lambda>tr. \<exists>answers. tr = map decide_event answers \<and> view_inv registry who options (v_capabilities view) answers))
      (\<lambda>_. on_trace (accounted host request))"
    for ck registry who options and authorizer :: "'b authorizer"
  proof -
    have "triple (on_trace (\<lambda>tr. tr = [])) (authorizeRegistryForPlanning ck registry who authorizer options)
       (\<lambda>v. on_trace (view_inv registry who options (v_capabilities v))) (\<lambda>_. on_trace (\<lambda>_. True))"
      by (rule triple_weaken [OF authorize_ok]) (auto simp: on_trace_def)
    from triple_appending [OF this] show ?thesis
      by (rule triple_weaken) (auto simp: on_trace_def accounted_def)
  qed
  have run: "triple (on_trace (\<lambda>tr. \<exists>answers. tr = map decide_event answers \<and>
        view_inv registry (sc_principal (rs_security request)) (run_planning_options request) (v_capabilities view) answers))
      (bind_io (lift (plan_program (ho_collation host) (ho_executionEnvironment host) request view))
        (run_program host request registry authorizer view))
      (\<lambda>_. on_trace (accounted host request)) (\<lambda>_. on_trace (accounted host request))" for registry authorizer view
    by (rule trace_lift, rule run_program_accounted) (auto dest: plan_program_placed simp: accounted_def)
  show ?thesis
    unfolding createActorPlanExecutor_def
    by (cases "rs_executionEnvironment request = ho_executionEnvironment host")
      (auto intro!: trace_throw trace_lift triple_bind [OF ports] triple_bind [OF view] run simp: none)
qed

text \<open>The calls of a run, in order, in the world \<open>w\<close>.\<close>

definition run_trace :: "'w ActorExecutionHost \<Rightarrow> PlanRunStartRequest \<Rightarrow> 'w \<Rightarrow> event list" where
  "run_trace host request w = fst (snd (createActorPlanExecutor host request ([], w)))"

lemma run_accounted: "accounted host request (run_trace host request w)"
proof -
  obtain r tr w' where run: "createActorPlanExecutor host request ([], w) = (r, (tr, w'))"
    by (cases "createActorPlanExecutor host request ([], w)") auto
  have start: "on_trace (\<lambda>tr. tr = []) ([], w)" by simp
  have "accounted host request tr"
    using triple_Inl [OF executor_accounted start] triple_Inr [OF executor_accounted start] run
    by (cases r) fastforce+
  with run show ?thesis by (simp add: run_trace_def)
qed

section \<open>Spawns are authorized twice\<close>

text \<open>Before a spawn the authorizer allowed its placement while planning and the spawn itself while executing, for
  the principal of the request and the same capability of the same definition on the same factory.\<close>

fun twice_authorized :: "PlanRunStartRequest \<Rightarrow> event list \<Rightarrow> event \<Rightarrow> bool" where
  "twice_authorized request tr (ESpawn factory sr adm _) =
     (\<exists>plan g1 spawn g2 cap.
        EDecide plan (Inr (Allow g1)) \<in> set tr \<and> rq_action plan = Plan \<and>
        EDecide spawn (Inr (Allow g2)) \<in> set tr \<and> rq_action spawn = Spawn \<and>
        rq_principal plan = sc_principal (rs_security request) \<and> rq_principal spawn = sc_principal (rs_security request) \<and>
        rq_access plan = sc_access (rs_security request) \<and> rq_access spawn = sc_access (rs_security request) \<and>
        rq_target plan = Some (FactoryTarget (sq_offerId sr) factory) \<and>
        rq_target spawn = Some (FactoryTarget (sq_offerId sr) factory) \<and>
        rq_definitionRef plan = rq_definitionRef spawn \<and> rq_inputs spawn = Some (sq_inputs sr) \<and>
        rq_capabilityId plan = Some cap \<and> rq_capabilityId spawn = Some cap \<and> sq_requestedCapabilities sr = [cap] \<and>
        cap \<in> set (ad_grantedCapabilities adm))"
| "twice_authorized request tr _ = True"

definition spawns_authorized :: "PlanRunStartRequest \<Rightarrow> event list \<Rightarrow> bool" where
  "spawns_authorized request tr \<longleftrightarrow> (\<forall>i<length tr. twice_authorized request (take i tr) (tr ! i))"

lemma placed_factory_allowed:
  assumes view: "view_inv registry who options (v_capabilities view) answers"
    and placed: "placed_in view env step" "target step = FromFactory t"
  shows "\<exists>plan grant. Answered plan (Inr (Allow grant)) \<in> set answers \<and> rq_action plan = Plan \<and> rq_principal plan = who \<and>
    rq_access plan = orelse (po_access options) no_access \<and> rq_definitionRef plan = fc_definitionRef t \<and>
    rq_capabilityId plan = Some (ps_capability step) \<and> rq_target plan = Some (FactoryTarget (fc_offerId t) (fc_factoryId t))"
proof -
  from placed obtain ac where ac: "ac \<in> set (v_capabilities view)" "c_id (ac_capability ac) = ps_capability step"
    "FromFactory t \<in> set (ac_targets ac)" by (auto simp: placed_in_def)
  with view obtain ref where "target_ok registry who options ref (ac_capability ac) (FromFactory t) answers"
    unfolding view_inv_def capability_ok_def by blast
  with ac(2) show ?thesis
    unfolding target_ok_def allowed_def
    by (force simp: instanceTarget_def factoryTarget_def planning_request_def)
qed

lemma spawn_twice_authorized:
  assumes view: "view_inv registry (sc_principal (rs_security request)) (run_planning_options request) (v_capabilities view) answers"
    and placed: "\<forall>st\<in>set (pp_steps program). placed_in view env st"
    and just: "justified (execution_request host request registry authorizer program fp ap resource) tr e"
  shows "twice_authorized request (map decide_event answers @ tr) e"
proof (cases e)
  case (ESpawn factory sr adm r)
  let ?xr = "execution_request host request registry authorizer program fp ap resource"
  from just ESpawn obtain step t ins grant where step: "step \<in> set (pp_steps program)" "target step = FromFactory t"
    and sr: "fc_factoryId t = factory" "sr = spawn_request ?xr step t ins grant"
    and asked: "EDecide (spawn_question ?xr step t ins) (Inr (Allow grant)) \<in> set tr"
    and cap: "ps_capability step \<in> set (ad_grantedCapabilities adm)"
    by (auto simp: execution_request_def)
  from placed_factory_allowed [OF view bspec [OF placed step(1)] step(2)] obtain plan g
    where plan: "Answered plan (Inr (Allow g)) \<in> set answers" "rq_action plan = Plan"
      "rq_principal plan = sc_principal (rs_security request)"
      "rq_access plan = sc_access (rs_security request)" "rq_definitionRef plan = fc_definitionRef t"
      "rq_capabilityId plan = Some (ps_capability step)" "rq_target plan = Some (FactoryTarget (fc_offerId t) (fc_factoryId t))"
    by (auto simp: run_planning_options_def)
  then have "EDecide plan (Inr (Allow g)) \<in> set (map decide_event answers)"
    by (metis decide_event.simps image_eqI set_map)
  with plan(2-) asked cap show ?thesis
    unfolding ESpawn twice_authorized.simps
    by (intro exI [of _ plan] exI [of _ g] exI [of _ "spawn_question ?xr step t ins"] exI [of _ grant] exI [of _ "ps_capability step"])
      (simp add: sr spawn_question_def spawn_request_def execution_request_def)
qed simp_all

lemma decided_authorized: "spawns_authorized request (map decide_event answers)"
proof -
  have "twice_authorized request tr (decide_event a)" for tr a by (cases a) simp
  then show ?thesis by (simp add: spawns_authorized_def)
qed

lemma collect_append [simp]: "collect f (tr @ tr') = collect f tr @ collect f tr'"
  by (simp add: collect_def)

lemma collect_decided:
  "collect spawned_of (map decide_event answers) = []" "collect released_of (map decide_event answers) = []"
  "collect publication_of (map decide_event answers) = []"
proof -
  have "spawned_of (decide_event a) = [] \<and> released_of (decide_event a) = [] \<and> publication_of (decide_event a) = []" for a
    by (cases a) simp
  then show "collect spawned_of (map decide_event answers) = []" "collect released_of (map decide_event answers) = []"
    "collect publication_of (map decide_event answers) = []" by (simp_all add: collect_def)
qed

lemma accounted_authorized:
  assumes "accounted host request tr"
  shows "spawns_authorized request tr \<and> collect spawned_of tr = collect released_of tr"
  using assms unfolding accounted_def
proof (elim disjE exE conjE)
  fix answers tr' registry authorizer view program fp ap resource
  let ?xr = "execution_request host request registry authorizer program fp ap resource"
  assume tr: "tr = map decide_event answers @ tr'"
    and view: "view_inv registry (sc_principal (rs_security request)) (run_planning_options request) (v_capabilities view) answers"
    and placed: "\<forall>st\<in>set (pp_steps program). placed_in view (ho_executionEnvironment host) st"
    and fin: "finished ?xr tr'"
  from fin have ob: "obeys ?xr tr'" and rel: "collect spawned_of tr' = collect released_of tr'"
    by (auto simp: finished_def safe_def)
  have "twice_authorized request (take i tr) (tr ! i)" if "i < length tr" for i
  proof (cases "i < length answers")
    case True
    then show ?thesis using decided_authorized [of request answers] by (simp add: tr nth_append spawns_authorized_def)
  next
    case False
    with that have "i - length answers < length tr'" by (simp add: tr)
    with ob have "justified ?xr (take (i - length answers) tr') (tr' ! (i - length answers))" by (simp add: obeys_def)
    from spawn_twice_authorized [OF view placed this] False show ?thesis by (simp add: tr nth_append)
  qed
  with rel show ?thesis by (simp add: spawns_authorized_def tr collect_decided)
qed (auto simp: decided_authorized collect_decided)

text \<open>C16. Every actor a plan run spawns was authorized twice for the principal of the request: its placement when the
  run was planned and the spawn itself with its very inputs; and every spawned actor is released, however the run
  ends and whatever its ports do.\<close>

theorem run_spawns_authorized:
  "spawns_authorized request (run_trace host request w) \<and>
   collect spawned_of (run_trace host request w) = collect released_of (run_trace host request w)"
  by (rule accounted_authorized) (rule run_accounted)

section \<open>What a run returns\<close>

definition output_ok :: "PlanRunStartRequest \<Rightarrow> js_record option \<Rightarrow> bool" where
  "output_ok request output \<longleftrightarrow>
     (case output of
        None \<Rightarrow> goal_subject (rs_goalSpec request) = None
      | Some entries \<Rightarrow> goal_subject (rs_goalSpec request) \<noteq> None \<and> (\<forall>path. portable_record entries path = Inr ()))"

definition reported :: "PlanRunStartRequest \<Rightarrow> PlanRunExecutionResult \<Rightarrow> event list \<Rightarrow> bool" where
  "reported request result tr \<longleftrightarrow>
     x_completedStepIds result = Some (collect publication_of tr) \<and> output_ok request (x_output result)"

lemma run_output_ok:
  "triple (on_trace p) (run_output host request view artifacts)
     (\<lambda>output. on_trace (\<lambda>tr. p tr \<and> output_ok request output)) (\<lambda>_. on_trace (\<lambda>_. True))"
proof (cases "goal_subject (rs_goalSpec request)")
  case None
  then show ?thesis unfolding run_output_def by (auto intro!: trace_return simp: output_ok_def)
next
  case (Some s)
  obtain subject families where s: "s = (subject, families)" by (cases s)
  have ok: "output_ok request (Some (understanding_record u))" for u
    by (simp add: output_ok_def Some portable_understanding)
  have "triple (on_trace p) (understandingOutput host request view artifacts subject) (\<lambda>_. on_trace p) (\<lambda>_. on_trace (\<lambda>_. True))"
    for subject by (rule triple_weaken [OF understandingOutput_trace]) (auto simp: on_trace_def)
  with Some show ?thesis
    unfolding run_output_def
    by (auto intro!: triple_bind trace_return simp: s ok)
qed

lemma execution_reports:
  "triple (on_trace (\<lambda>tr. tr = [])) (executePhysicalProgram request)
     (\<lambda>result. on_trace (\<lambda>tr. xo_completedStepIds result = collect publication_of tr)) (\<lambda>_. on_trace (\<lambda>_. True))"
  by (rule triple_weaken [OF executePhysicalProgram_safe]) (auto simp: on_trace_def safe_def)

lemma run_program_reported:
  fixes host :: "'w ActorExecutionHost"
  shows "triple (on_trace (\<lambda>tr. collect publication_of tr = [])) (run_program host request registry authorizer view program)
     (\<lambda>result. on_trace (reported request result)) (\<lambda>_. on_trace (\<lambda>_. True))"
proof (cases "pp_steps program = []")
  case True
  show ?thesis
    unfolding run_program_def if_P [OF True]
    by (rule triple_bind [OF run_output_ok triple_return]) (auto simp: reported_def on_trace_def)
next
  case False
  have ports: "triple (on_trace (\<lambda>tr. collect publication_of tr = [])) (both (on_world a) (both (on_world b) (on_world c)))
      (\<lambda>_. on_trace (\<lambda>tr. collect publication_of tr = [])) (\<lambda>_. on_trace (\<lambda>_. True))"
    for a :: "('w, 'w factories) io" and b :: "('w, 'w artifacts) io" and c :: "('w, json_record option) io"
    by (rule triple_weaken [OF triple_both [OF triple_on_world [where p = "\<lambda>tr. collect publication_of tr = []"]
          triple_both [OF triple_on_world triple_on_world]]]) (auto simp: on_trace_def)
  have run: "triple (on_trace (\<lambda>tr. collect publication_of tr = []))
      (appending id (executePhysicalProgram (execution_request host request registry authorizer program fp ap resource)))
      (\<lambda>result. on_trace (\<lambda>tr. xo_completedStepIds result = collect publication_of tr)) (\<lambda>_. on_trace (\<lambda>_. True))"
    for fp :: "'w factories" and ap :: "'w artifacts" and resource
    by (rule triple_weaken [OF triple_appending [OF execution_reports]]) (auto simp: on_trace_def)
  have finish: "triple (on_trace (\<lambda>tr. xo_completedStepIds result = collect publication_of tr))
      (bind_io (run_output host request view (xo_artifacts result)) (\<lambda>output.
        return \<lparr>x_artifactIds = Some (map art_artifactId (xo_artifacts result)),
          x_completedStepIds = Some (xo_completedStepIds result), x_remainingGoals = Some (xo_remainingGoals result),
          x_registryRevision = Some (xo_registryRevision result),
          x_policyDecisionIds = Some (xo_policyDecisionIds result), x_output = output, x_continuation = None\<rparr>))
      (\<lambda>r. on_trace (reported request r)) (\<lambda>_. on_trace (\<lambda>_. True))" for result
    by (rule triple_bind [OF run_output_ok triple_return]) (auto simp: reported_def on_trace_def)
  show ?thesis
    unfolding run_program_def if_not_P [OF False]
    by (rule triple_bind [OF ports]) (auto intro!: triple_bind [OF run] finish)
qed

lemma executor_reported:
  "triple (on_trace (\<lambda>tr. tr = [])) (createActorPlanExecutor host request)
     (\<lambda>result. on_trace (reported request result)) (\<lambda>_. on_trace (\<lambda>_. True))"
proof -
  let ?none = "\<lambda>tr :: event list. tr = []" and ?unpublished = "\<lambda>tr. collect publication_of tr = []"
  have ports: "triple (on_trace ?none) (both (on_world a) (on_world b)) (\<lambda>_. on_trace ?none) (\<lambda>_. on_trace (\<lambda>_. True))"
    for a :: "('b, ActorRegistrySnapshot) io" and b :: "('b, 'b authorizer) io"
    by (rule triple_weaken [OF triple_both [OF triple_on_world [where p = ?none] triple_on_world]]) (auto simp: on_trace_def)
  have asked: "triple (on_trace (\<lambda>tr. tr = [])) (authorizeRegistryForPlanning ck registry who authorizer options)
       (\<lambda>v. on_trace (\<lambda>_. True)) (\<lambda>_. on_trace (\<lambda>_. True))" for ck registry who options and authorizer :: "'b authorizer"
    by (rule triple_weaken [OF authorize_ok]) (auto simp: on_trace_def)
  have view: "triple (on_trace ?none)
      (appending decide_event (authorizeRegistryForPlanning ck registry who authorizer options))
      (\<lambda>view. on_trace ?unpublished) (\<lambda>_. on_trace (\<lambda>_. True))" for ck registry who options and authorizer :: "'b authorizer"
    by (rule triple_weaken [OF triple_appending [OF asked]]) (auto simp: on_trace_def collect_decided)
  show ?thesis
    unfolding createActorPlanExecutor_def
    by (cases "rs_executionEnvironment request = ho_executionEnvironment host")
      (auto intro!: trace_throw trace_lift triple_bind [OF ports] triple_bind [OF view] run_program_reported)
qed

text \<open>A plan run that returns reports as completed exactly the steps it published, in order; it carries an output
  exactly when the request asks for enrichment, and the output is portable, so a runner can commit it.\<close>

theorem run_reports:
  "case createActorPlanExecutor host request ([], w) of
     (Inl e, _) \<Rightarrow> True
   | (Inr result, (tr, w')) \<Rightarrow>
       x_completedStepIds result = Some (collect publication_of tr) \<and> output_ok request (x_output result)"
  using executor_reported [of host request] by (auto simp: triple_def reported_def split: prod.splits sum.splits)

end
