(* ===== verification/Machine.thy ===== *)
theory Machine
  imports Contracts
begin

text \<open>
  libs/aven-actors/src/machine.ts: a fact-only Prolog reader that turns a \<open>.pl\<close> source into a
  state machine, and the queries the application gates its moves with.
\<close>

section \<open>Reading a program\<close>

text \<open>\<open>line.replace(/%.*$/, '')\<close>: the first percent sign from which the dot reaches the end of the
  line, which a carriage return stops.\<close>

fun strip_comment :: "string \<Rightarrow> string" where
  "strip_comment [] = []"
| "strip_comment (c # s) =
     (if c = CHR ''%'' \<and> list_all (\<lambda>d. of_char d \<notin> {10::nat, 13}) s then []
      else c # strip_comment s)"

text \<open>\<open>clause.replace(/\s+/g, ' ')\<close>.\<close>

fun collapse_space :: "string \<Rightarrow> string" where
  "collapse_space [] = []"
| "collapse_space (c # s) =
     (if js_space c then
        (case s of d # _ \<Rightarrow> if js_space d then collapse_space s else CHR '' '' # collapse_space s
         | [] \<Rightarrow> [CHR '' ''])
      else c # collapse_space s)"

definition newline :: char where "newline = char_of (10 :: nat)"

definition parseProgram :: "string \<Rightarrow> string list" where
  "parseProgram source =
     (let text = join [newline] (map strip_comment (split_on newline source))
      in filter (\<lambda>clause. clause \<noteq> [])
           (map (\<lambda>clause. trim (collapse_space clause)) (split_on CHR ''.'' text)))"

text \<open>\<open>^name\((.+)\)$\<close> and its only group, trimmed; the group is greedy, so it ends at the last
  character of the clause.\<close>

definition pick_fact :: "string \<Rightarrow> string \<Rightarrow> string list" where
  "pick_fact name clause =
     (let pre = name @ ''(''; body = drop (length pre) clause in
      if startsWith pre clause \<and> body \<noteq> [] \<and> last body = CHR '')'' \<and> butlast body \<noteq> []
         \<and> list_all (\<lambda>d. of_char d \<notin> {10::nat, 13}) (butlast body)
      then [trim (butlast body)] else [])"

definition contractsOf :: "string list \<Rightarrow> iface" where
  "contractsOf db =
     \<lparr>if_requires = concat (map (pick_fact ''requires'') db),
      if_produces = concat (map (pick_fact ''produces'') db)\<rparr>"

definition query :: "string list \<Rightarrow> string \<Rightarrow> bindings list" where
  "query db goal = List.map_filter (\<lambda>clause. unify goal clause []) db"

section \<open>The machine\<close>

record Transition =
  tr_event :: string
  tr_from :: string
  tr_to :: string

record Guard =
  g_event :: string
  g_cond :: string

record Machine =
  db :: "string list"
  states :: "string list"
  initial :: "string list"
  terminal :: "string list"
  transitions :: "Transition list"
  views :: "string list"
  shows_in :: "(string \<times> string) list"
  guards :: "Guard list"
  cycles :: "(string \<times> string) list"
  contracts :: iface

definition one :: "string list \<Rightarrow> string \<Rightarrow> string \<Rightarrow> string list" where
  "one d goal v = map (resolve v) (query d goal)"

definition readTransition :: "bindings \<Rightarrow> Transition" where
  "readTransition b = \<lparr>tr_event = resolve ''E'' b, tr_from = resolve ''F'' b, tr_to = resolve ''T'' b\<rparr>"

definition loadMachine :: "string \<Rightarrow> Machine" where
  "loadMachine source =
     (let d = parseProgram source in
      \<lparr>db = d,
       states = one d ''state(S)'' ''S'',
       initial = one d ''initial(S)'' ''S'',
       terminal = one d ''terminal(S)'' ''S'',
       transitions = map readTransition (query d ''transition(E, F, T)''),
       views = one d ''view(V)'' ''V'',
       shows_in = map (\<lambda>b. (resolve ''V'' b, resolve ''S'' b)) (query d ''shows(V, S)''),
       guards = map (\<lambda>b. \<lparr>g_event = resolve ''E'' b, g_cond = resolve ''C'' b\<rparr>) (query d ''guard(E, C)''),
       cycles = map (\<lambda>b. (resolve ''F'' b, resolve ''T'' b)) (query d ''cycle(F, T)''),
       contracts = contractsOf d\<rparr>)"

definition legal :: "Machine \<Rightarrow> string \<Rightarrow> string \<Rightarrow> string \<Rightarrow> bool" where
  "legal m event from to =
     list_ex (\<lambda>t. tr_event t = event \<and> tr_from t = from \<and> tr_to t = to) (transitions m)"

definition nextStates :: "Machine \<Rightarrow> string \<Rightarrow> (string \<times> string) list" where
  "nextStates m from =
     map (\<lambda>t. (tr_event t, tr_to t)) (filter (\<lambda>t. tr_from t = from) (transitions m))"

definition statusMoves :: "Machine \<Rightarrow> (string \<times> string) list" where
  "statusMoves m =
     map (\<lambda>t. (tr_from t, tr_to t))
       (filter (\<lambda>t. tr_from t \<in> set (states m) \<and> tr_to t \<in> set (states m)) (transitions m))"

definition legalStatus :: "Machine \<Rightarrow> string \<Rightarrow> string \<Rightarrow> bool" where
  "legalStatus m from to = list_ex (\<lambda>mv. fst mv = from \<and> snd mv = to) (statusMoves m)"

definition nextStatus :: "Machine \<Rightarrow> string \<Rightarrow> string" where
  "nextStatus m from = (case find (\<lambda>c. fst c = from) (cycles m) of Some c \<Rightarrow> snd c | None \<Rightarrow> from)"

section \<open>What a loaded machine says\<close>

definition ground_args :: "string list \<Rightarrow> bool" where
  "ground_args as \<longleftrightarrow> (\<forall>a\<in>set as. \<not> isVariable a)"

text \<open>The discipline of machine.ts: the clauses of the given functor are ground facts.\<close>

definition ground_facts :: "string \<Rightarrow> string list \<Rightarrow> bool" where
  "ground_facts fn d \<longleftrightarrow> (\<forall>c\<in>set d. term_functor (parseTerm c) = fn \<longrightarrow> ground_args (term_args (parseTerm c)))"

lemma resolve_bound:
  "map_of b x = Some v \<Longrightarrow> isVariable x \<Longrightarrow> \<not> isVariable v \<Longrightarrow> resolve x b = v"
  by (simp add: resolve_def resolve_loop.simps)

lemma resolve_unbound: "map_of b x = None \<Longrightarrow> resolve x b = x"
  by (simp add: resolve_def resolve_loop.simps)

lemma parse_goals:
  "parseTerm ''transition(E, F, T)'' = \<lparr>term_functor = ''transition'', term_args = [''E'', ''F'', ''T'']\<rparr>"
  "parseTerm ''state(S)'' = \<lparr>term_functor = ''state'', term_args = [''S'']\<rparr>"
  by code_simp+

lemma vars_EFT: "isVariable ''E''" "isVariable ''F''" "isVariable ''T''" "isVariable ''S''"
  by (simp_all add: isVariable_def)

lemma unify_ground_3:
  assumes "ground_args [e, f, t]"
  shows "unify_args [''E'', ''F'', ''T''] [e, f, t] [] = Some [(''E'', e), (''F'', f), (''T'', t)]"
proof -
  from assms have g: "\<not> isVariable e" "\<not> isVariable f" "\<not> isVariable t"
    by (simp_all add: ground_args_def)
  then have "e \<noteq> ''_''" "f \<noteq> ''_''" "t \<noteq> ''_''" "''E'' \<noteq> e" "''F'' \<noteq> f" "''T'' \<noteq> t"
    by (auto simp: isVariable_def)
  with g show ?thesis
    by (simp add: unify_args.simps Let_def resolve_unbound resolve_const vars_EFT)
qed

text \<open>A clause is the fact \<open>fn(as)\<close>.\<close>

definition fact_of :: "string \<Rightarrow> string list \<Rightarrow> string \<Rightarrow> bool" where
  "fact_of fn as c \<longleftrightarrow> term_functor (parseTerm c) = fn \<and> term_args (parseTerm c) = as"

lemma unify_transition:
  assumes "term_functor (parseTerm c) = ''transition'' \<Longrightarrow> ground_args (term_args (parseTerm c))"
  shows "unify ''transition(E, F, T)'' c [] = Some b \<longleftrightarrow>
    (\<exists>e f t. fact_of ''transition'' [e, f, t] c \<and> [(''E'', e), (''F'', f), (''T'', t)] = b)"
proof (cases "term_functor (parseTerm c) = ''transition'' \<and> length (term_args (parseTerm c)) = 3")
  case True
  then obtain e f t where as: "term_args (parseTerm c) = [e, f, t]"
    by (auto simp: numeral_3_eq_3 length_Suc_conv)
  with assms True have "ground_args [e, f, t]" by simp
  note u = unify_ground_3 [OF this]
  have "unify ''transition(E, F, T)'' c [] = Some [(''E'', e), (''F'', f), (''T'', t)]"
    using True unfolding unify_def parse_goals Let_def Term.simps as u by simp
  with True as show ?thesis by (simp add: fact_of_def)
next
  case False
  then have "\<not> (\<exists>e f t. fact_of ''transition'' [e, f, t] c)"
    by (auto simp: fact_of_def)
  moreover have "length [''E'', ''F'', ''T''] = 3" by simp
  with False have "unify ''transition(E, F, T)'' c [] = None"
    unfolding unify_def parse_goals Let_def Term.simps by metis
  ultimately show ?thesis by simp
qed

lemma set_transitions:
  assumes "ground_facts ''transition'' d"
  shows "readTransition ` set (query d ''transition(E, F, T)'') =
    {\<lparr>tr_event = e, tr_from = f, tr_to = t\<rparr> | e f t. \<exists>c\<in>set d. fact_of ''transition'' [e, f, t] c}"
    (is "?L = ?R")
proof -
  have q: "b \<in> set (query d ''transition(E, F, T)'') \<longleftrightarrow>
      (\<exists>c\<in>set d. \<exists>e f t. fact_of ''transition'' [e, f, t] c \<and> [(''E'', e), (''F'', f), (''T'', t)] = b)" for b
    using unify_transition assms unfolding query_def set_map_filter ground_facts_def by blast
  have r: "readTransition [(''E'', e), (''F'', f), (''T'', t)] = \<lparr>tr_event = e, tr_from = f, tr_to = t\<rparr>"
    if "c \<in> set d" "fact_of ''transition'' [e, f, t] c" for c e f t
  proof -
    have "ground_args [e, f, t]" using assms that by (force simp: ground_facts_def fact_of_def)
    then show ?thesis by (simp add: readTransition_def ground_args_def resolve_bound vars_EFT)
  qed
  have "x \<in> ?L \<longleftrightarrow> x \<in> ?R" for x
    unfolding image_iff Bex_def q using r by (simp only: mem_Collect_eq) metis
  then show ?thesis by (rule set_eqI)
qed

lemma Transition_eq:
  "tr_event x = e \<and> tr_from x = f \<and> tr_to x = t \<longleftrightarrow> x = \<lparr>tr_event = e, tr_from = f, tr_to = t\<rparr>"
  by (cases x) auto

lemma legal_iff:
  assumes "ground_facts ''transition'' (parseProgram src)"
  shows "legal (loadMachine src) e f t \<longleftrightarrow>
    (\<exists>c\<in>set (parseProgram src). fact_of ''transition'' [e, f, t] c)"
proof -
  have "legal (loadMachine src) e f t \<longleftrightarrow> \<lparr>tr_event = e, tr_from = f, tr_to = t\<rparr> \<in>
      readTransition ` set (query (parseProgram src) ''transition(E, F, T)'')"
  proof -
    have "transitions (loadMachine src) =
        map readTransition (query (parseProgram src) ''transition(E, F, T)'')"
      by (simp add: loadMachine_def Let_def)
    then show ?thesis by (auto simp: legal_def list_ex_iff Transition_eq)
  qed
  then show ?thesis unfolding set_transitions [OF assms] by simp
qed


definition todo_source :: string where
  "todo_source = ''state(open).  state(done). % columns'' @ [newline] @
     ''transition(finish,  open, done).'' @ [newline] @ ''cycle(open, done).''"

lemma todo_program:
  "parseProgram todo_source =
   [''state(open)'', ''state(done)'', ''transition(finish, open, done)'', ''cycle(open, done)'']"
  by code_simp

lemma todo_ground: "ground_facts ''transition'' (parseProgram todo_source)"
  unfolding todo_program ground_facts_def ground_args_def by code_simp


lemma legalStatus_iff:
  "legalStatus m from to \<longleftrightarrow> from \<in> set (states m) \<and> to \<in> set (states m) \<and> (\<exists>e. legal m e from to)"
  by (auto simp: legalStatus_def statusMoves_def legal_def list_ex_iff)

lemma nextStates_iff: "(e, to) \<in> set (nextStates m from) \<longleftrightarrow> legal m e from to"
  by (auto simp: nextStates_def legal_def list_ex_iff image_iff)

end
