(* ===== verification/Runner.thy ===== *)
theory Runner
  imports Run Effects
begin

text \<open>
  services/actor-runner/src/memory-runner.ts: the reference runner of plan runs.  Its methods are
  asynchronous; the code between two \<open>await\<close>s is one step, and the steps of different calls interleave.  The
  times and random identities a step reads are its parameters.
\<close>

section \<open>Commands\<close>

text \<open>\<open>stableJson\<close>: JSON with the keys of every object sorted.\<close>

definition by_key :: "collation \<Rightarrow> string \<times> 'a \<Rightarrow> string \<times> 'a \<Rightarrow> int" where
  "by_key ck l r = localeCompare ck (fst l) (fst r)"

fun number_text :: "jsnum \<Rightarrow> string" where
  "number_text (Finite n) = string_of_int n"
| "number_text NotFinite = ''null''"

text \<open>The members of an object are printed first and sorted then, which is the same order.\<close>

fun stableJson :: "collation \<Rightarrow> js \<Rightarrow> string" where
  "stableJson ck JsNull = ''null''"
| "stableJson ck (JsBool b) = (if b then ''true'' else ''false'')"
| "stableJson ck (JsNum n) = number_text n"
| "stableJson ck (JsStr s) = quote_string s"
| "stableJson ck JsOther = ''undefined''"
| "stableJson ck (JsArr items) = ''['' @ join '','' (map (stableJson ck) items) @ '']''"
| "stableJson ck (JsObj _ entries) =
     ''{'' @ join '','' (map (\<lambda>(k, text). quote_string k @ '':'' @ text)
       (sort_by (by_key ck) (map (\<lambda>(k, item). (k, stableJson ck item)) entries))) @ ''}''"

fun environment_name :: "ExecutionEnvironment \<Rightarrow> string" where
  "environment_name Local = ''local''"
| "environment_name Server = ''server''"

definition ingredient_js :: "Ingredient \<Rightarrow> js" where
  "ingredient_js i = JsObj True ((''predicate'', JsStr (in_predicate i)) #
     (case in_artifactId i of None \<Rightarrow> [] | Some a \<Rightarrow> [(''artifactId'', JsStr a)]))"

fun goalSpec_js :: "PlanRunGoalSpec \<Rightarrow> js" where
  "goalSpec_js (Explore subject families) = JsObj True
     [(''mode'', JsStr ''explore''), (''subject'', ingredient_js subject), (''factFamilies'', JsArr (map JsStr families))]"
| "goalSpec_js ExactGoalOnly = JsObj True [(''mode'', JsStr ''exact''), (''completion'', JsStr ''goal_only'')]"
| "goalSpec_js (ExactThenEnrich subject families) = JsObj True
     [(''mode'', JsStr ''exact''), (''completion'', JsStr ''goal_then_enrich''), (''subject'', ingredient_js subject),
      (''factFamilies'', JsArr (map JsStr families))]"

definition materialCommand :: "collation \<Rightarrow> PlanRunStartRequest \<Rightarrow> string" where
  "materialCommand ck request = stableJson ck (JsObj True
     ([(''protocol'', JsStr (rs_protocol request)), (''skillRef'', JsStr (rs_skillRef request)),
       (''executionEnvironment'', JsStr (environment_name (rs_executionEnvironment request))),
       (''ingredients'', JsArr (map ingredient_js (rs_ingredients request))),
       (''goals'', JsArr (map JsStr (rs_goals request)))] @
      (case rs_goalSpec request of None \<Rightarrow> [] | Some spec \<Rightarrow> [(''goalSpec'', goalSpec_js spec)]) @
      [(''parameters'', JsObj True (rs_parameters request))]))"

definition idempotency_key :: "PlanRunStartRequest \<Rightarrow> string" where
  "idempotency_key request =
     subjectId (sc_principal (rs_security request)) @ NUL @ orelse (tenantId (sc_access (rs_security request))) [] @ NUL @
     rs_skillRef request @ NUL @ rs_idempotencyKey request"

section \<open>Records\<close>

text \<open>A step on one record; when it throws, the changes made before stay.\<close>

type_synonym 'a record_step = "(PlanRunRecord, 'a) io"

definition handle :: "PlanRunRecord \<Rightarrow> PlanRunHandle" where
  "handle r = \<lparr>h_runId = h_runId r, h_revision = h_revision r, h_state = h_state r,
     h_executionEnvironment = h_executionEnvironment r\<rparr>"

definition modify :: "(PlanRunRecord \<Rightarrow> PlanRunRecord) \<Rightarrow> unit record_step" where
  "modify f = (\<lambda>r. (Inr (), f r))"

definition the_record :: "PlanRunRecord record_step" where
  "the_record = (\<lambda>r. (Inr r, r))"

definition transition :: "string \<Rightarrow> PlanRunState \<Rightarrow> unit record_step" where
  "transition now state =
     bind_io the_record (\<lambda>r.
     bind_io (lift (assertPlanRunTransition (h_state r) state)) (\<lambda>_.
     modify (\<lambda>r. r\<lparr>h_state := state, h_revision := h_revision r + 1, r_updatedAt := now\<rparr>)))"

definition open_continuation :: "string \<Rightarrow> PlanRunContinuation \<Rightarrow> bool" where
  "open_continuation i c \<longleftrightarrow> co_continuationId c = i \<and> (co_state c = OpenContinuation \<or> co_state c = Postponed)"

text \<open>The position of the first element that satisfies a condition.\<close>

fun position :: "('a \<Rightarrow> bool) \<Rightarrow> 'a list \<Rightarrow> nat option" where
  "position p [] = None"
| "position p (x # xs) = (if p x then Some 0 else map_option Suc (position p xs))"

text \<open>A continuation of a record is a reference to an element of its list.\<close>

definition requiredContinuation :: "PlanRunRecord \<Rightarrow> string \<Rightarrow> nat res" where
  "requiredContinuation r i =
     (case position (open_continuation i) (r_continuations r) of
        None \<Rightarrow> Inl (Err ''continuation is not open'')
      | Some index \<Rightarrow> Inr index)"

definition set_continuation_state :: "nat \<Rightarrow> continuation_state \<Rightarrow> PlanRunRecord \<Rightarrow> PlanRunRecord" where
  "set_continuation_state index state r =
     r\<lparr>r_continuations := (r_continuations r)[index := (r_continuations r ! index)\<lparr>co_state := state\<rparr>]\<rparr>"

definition assertContinuation :: "PlanRunContinuation \<Rightarrow> unit res" where
  "assertContinuation c =
     rbind (throw_if (co_state c \<noteq> OpenContinuation) (Err ''executor continuation must be open'')) (\<lambda>_.
     throw_if (co_kind c = SecretContinuation \<and> co_persistence c \<noteq> MetadataOnly)
       (Err ''secret continuation metadata cannot request artifact persistence''))"

definition upsertContinuation :: "PlanRunContinuation \<Rightarrow> PlanRunRecord \<Rightarrow> PlanRunRecord" where
  "upsertContinuation c r =
     (case position (\<lambda>candidate. co_continuationId candidate = co_continuationId c) (r_continuations r) of
        None \<Rightarrow> r\<lparr>r_continuations := r_continuations r @ [c]\<rparr>
      | Some index \<Rightarrow> r\<lparr>r_continuations := (r_continuations r)[index := c]\<rparr>)"

definition portable_output :: "js_record option \<Rightarrow> unit res" where
  "portable_output output = (case output of None \<Rightarrow> Inr () | Some entries \<Rightarrow> portable_record entries ''$'')"

definition appendCheckpoint :: "string \<Rightarrow> string \<Rightarrow> PlanRunExecutionResult \<Rightarrow> unit record_step" where
  "appendCheckpoint checkpointId committedAt result =
     bind_io (lift (portable_output (x_output result))) (\<lambda>_.
     modify (\<lambda>r. r\<lparr>r_checkpoints := r_checkpoints r @
       [\<lparr>cp_checkpointId = checkpointId, cp_ordinal = length (r_checkpoints r), cp_committedAt = committedAt,
         cp_completedStepIds = orelse (x_completedStepIds result) [], cp_artifactIds = orelse (x_artifactIds result) [],
         cp_remainingGoals = orelse (x_remainingGoals result) [], cp_registryRevision = orelse (x_registryRevision result) 0,
         cp_policyDecisionIds = orelse (x_policyDecisionIds result) [], cp_output = x_output result\<rparr>]\<rparr>))"

text \<open>What a step reads: the identity and the time of a checkpoint, the time of its transition.\<close>

record stamps =
  st_checkpointId :: string
  st_committedAt :: string
  st_now :: string

definition resolve_other :: "nat option \<Rightarrow> PlanRunContinuation \<Rightarrow> PlanRunRecord \<Rightarrow> PlanRunRecord" where
  "resolve_other resolved c r =
     (case resolved of
        Some index \<Rightarrow> if co_continuationId (r_continuations r ! index) \<noteq> co_continuationId c
                      then set_continuation_state index Resolved r else r
      | None \<Rightarrow> r)"

definition applyResult :: "stamps \<Rightarrow> PlanRunExecutionResult \<Rightarrow> nat option \<Rightarrow> unit record_step" where
  "applyResult st result resolved =
     (let remainingGoals = orelse (x_remainingGoals result) [] in
      case x_continuation result of
        Some c \<Rightarrow>
          bind_io (lift (assertContinuation c)) (\<lambda>_.
          bind_io (lift (throw_if (remainingGoals = []) (Err ''a continuation must retain at least one unfinished goal''))) (\<lambda>_.
          bind_io (modify (resolve_other resolved c)) (\<lambda>_.
          bind_io (modify (upsertContinuation c)) (\<lambda>_.
          bind_io (appendCheckpoint (st_checkpointId st) (st_committedAt st) result) (\<lambda>_.
          transition (st_now st) WaitingForInput)))))
      | None \<Rightarrow>
          bind_io (lift (throw_if (remainingGoals \<noteq> []) (Err (''executor left unmet goals: '' @ join '', '' remainingGoals)))) (\<lambda>_.
          bind_io (modify (\<lambda>r. case resolved of Some index \<Rightarrow> set_continuation_state index Resolved r | None \<Rightarrow> r)) (\<lambda>_.
          bind_io (appendCheckpoint (st_checkpointId st) (st_committedAt st) result) (\<lambda>_.
          transition (st_now st) Succeeded))))"

section \<open>The runner\<close>

record MemoryPlanRunner =
  ru_records :: "(string, PlanRunRecord) jsmap"
  ru_idempotency :: "(string, string \<times> string) jsmap"

type_synonym 'a runner_step = "(MemoryPlanRunner, 'a) io"

text \<open>A step on the record \<open>#required(runId)\<close>.\<close>

definition on_record :: "string \<Rightarrow> 'a record_step \<Rightarrow> 'a runner_step" where
  "on_record runId m = (\<lambda>s.
     case map_of (ru_records s) runId of
       None \<Rightarrow> (Inl (Err ''run not found''), s)
     | Some r \<Rightarrow> (case m r of (x, r') \<Rightarrow> (x, s\<lparr>ru_records := AList.update runId r' (ru_records s)\<rparr>)))"

definition new_record :: "string \<Rightarrow> string \<Rightarrow> PlanRunStartRequest \<Rightarrow> PlanRunRecord" where
  "new_record now runId request =
     \<lparr>h_runId = runId, h_revision = 1, h_state = Accepted, h_executionEnvironment = rs_executionEnvironment request,
      r_protocol = rs_protocol request, r_requestId = rs_requestId request, r_idempotencyKey = rs_idempotencyKey request,
      r_requestedAt = rs_requestedAt request, r_skillRef = rs_skillRef request, r_security = rs_security request,
      r_createdAt = now, r_updatedAt = now, r_ingredients = rs_ingredients request, r_goals = rs_goals request,
      r_goalSpec = rs_goalSpec request, r_parameters = rs_parameters request, r_checkpoints = [], r_progress = None,
      r_continuations = [], r_failure = None\<rparr>"

text \<open>\<open>start\<close>: the second component says whether a new run was queued.\<close>

definition start :: "collation \<Rightarrow> string \<Rightarrow> string \<Rightarrow> PlanRunStartRequest \<Rightarrow> (PlanRunHandle \<times> bool) runner_step" where
  "start ck now runId request =
     bind_io (lift (portable_record (rs_parameters request) ''$.parameters'')) (\<lambda>_.
     bind_io (lift (throw_if (rs_executionEnvironment request \<noteq> Server)
       (Err ''the server runner accepts only server placement''))) (\<lambda>_ s.
     let key = idempotency_key request; material = materialCommand ck request in
     case map_of (ru_idempotency s) key of
       Some (previous, bound) \<Rightarrow>
         if bound \<noteq> material then (Inl (Err ''the idempotency key is already bound to another command''), s)
         else (case map_of (ru_records s) previous of
                 None \<Rightarrow> (Inl (Err ''the idempotency index references a missing run''), s)
               | Some r \<Rightarrow> (Inr (handle r, False), s))
     | None \<Rightarrow>
         let r = new_record now runId request in
         (Inr (handle r, True),
          s\<lparr>ru_records := AList.update runId r (ru_records s),
            ru_idempotency := AList.update key (runId, material) (ru_idempotency s)\<rparr>)))"

definition status :: "string \<Rightarrow> MemoryPlanRunner \<Rightarrow> PlanRunRecord option" where
  "status runId s = map_of (ru_records s) runId"

fun error_message :: "err \<Rightarrow> string" where
  "error_message (Err m) = m"
| "error_message SearchLimit = ''requirement search limit reached''"
| "error_message (Coded http code m) = m"

definition fail_run :: "string \<Rightarrow> string \<Rightarrow> unit record_step" where
  "fail_run now message =
     bind_io (modify (\<lambda>r. r\<lparr>r_failure := Some \<lparr>fl_code = ''EXECUTION_FAILED'', fl_message = message, fl_retryable = False\<rparr>\<rparr>))
       (\<lambda>_. transition now Failed)"

definition unless_cancelled :: "unit record_step \<Rightarrow> unit record_step" where
  "unless_cancelled m = bind_io the_record (\<lambda>r. if h_state r = Cancelled then return () else m)"

text \<open>\<open>#run\<close> up to the call of the executor; it answers whether the executor is called.\<close>

definition begin_body :: "string \<Rightarrow> string \<Rightarrow> bool record_step" where
  "begin_body planned now = catch
     (bind_io the_record (\<lambda>r.
      if h_state r \<noteq> Accepted then return False
      else bind_io (transition planned Planning) (\<lambda>_. bind_io (transition now Running) (\<lambda>_. return True))))
     (\<lambda>e. bind_io (unless_cancelled (fail_run now (error_message e))) (\<lambda>_. return False))"

definition begin_run :: "string \<Rightarrow> string \<Rightarrow> string \<Rightarrow> bool runner_step" where
  "begin_run planned now runId = on_record runId (begin_body planned now)"

definition progress_body :: "string \<Rightarrow> js_record \<Rightarrow> unit record_step" where
  "progress_body now progress = bind_io the_record (\<lambda>r.
     if h_state r \<noteq> Running then throw (Err ''the actor run is no longer active'')
     else bind_io (lift (portable_record progress ''$'')) (\<lambda>_.
       modify (\<lambda>r. r\<lparr>r_progress := Some progress, h_revision := h_revision r + 1, r_updatedAt := now\<rparr>)))"

definition report_progress :: "string \<Rightarrow> string \<Rightarrow> js_record \<Rightarrow> unit runner_step" where
  "report_progress now runId progress = on_record runId (progress_body now progress)"

text \<open>The rest of \<open>#run\<close>, when the executor has thrown the message or returned the result.\<close>

type_synonym outcome = "string + PlanRunExecutionResult"

definition apply_outcome :: "stamps \<Rightarrow> outcome \<Rightarrow> nat option \<Rightarrow> unit record_step" where
  "apply_outcome st outcome resolved =
     (case outcome of Inl message \<Rightarrow> throw (Err message) | Inr result \<Rightarrow> applyResult st result resolved)"

definition settle_body :: "stamps \<Rightarrow> outcome \<Rightarrow> unit record_step" where
  "settle_body st outcome =
     catch (unless_cancelled (apply_outcome st outcome None))
       (\<lambda>e. unless_cancelled (fail_run (st_now st) (error_message e)))"

definition settle_run :: "stamps \<Rightarrow> string \<Rightarrow> outcome \<Rightarrow> unit runner_step" where
  "settle_run st runId outcome = on_record runId (settle_body st outcome)"

text \<open>An admitted resumption: the revision, the position and the kind of the continuation it submits to.\<close>

record resumption =
  re_revision :: nat
  re_index :: nat
  re_kind :: continuation_kind

definition portable_submission :: "js \<Rightarrow> unit res" where
  "portable_submission v = portableTree v ''$.value''"

definition resume_body :: "string \<Rightarrow> PlanRunContinuationSubmission \<Rightarrow> (PlanRunHandle + resumption) record_step" where
  "resume_body now submission =
     (bind_io the_record (\<lambda>r.
      if h_state r \<noteq> WaitingForInput then throw (Err ''the run is not waiting for input'')
      else case submission of
        Postpone _ i \<Rightarrow>
          bind_io (lift (requiredContinuation r i)) (\<lambda>index.
          bind_io (modify (set_continuation_state index Postponed)) (\<lambda>_.
          bind_io (transition now WaitingForInput) (\<lambda>_.
          bind_io the_record (\<lambda>r'. return (Inl (handle r'))))))
      | Submit _ i kind v \<Rightarrow>
          bind_io (lift (requiredContinuation r i)) (\<lambda>index.
          let expected = co_kind (r_continuations r ! index) in
          bind_io (lift (throw_if (kind \<noteq> expected) (Err ''continuation kind mismatch''))) (\<lambda>_.
          bind_io (lift (portable_submission v)) (\<lambda>_.
          bind_io (transition now Running) (\<lambda>_.
          bind_io the_record (\<lambda>r'. return (Inr \<lparr>re_revision = h_revision r', re_index = index, re_kind = expected\<rparr>))))))))"

definition begin_resume :: "string \<Rightarrow> string \<Rightarrow> PlanRunContinuationSubmission \<Rightarrow> (PlanRunHandle + resumption) runner_step" where
  "begin_resume now runId submission = on_record runId (resume_body now submission)"

definition resumed_outcome :: "stamps \<Rightarrow> resumption \<Rightarrow> outcome \<Rightarrow> unit record_step" where
  "resumed_outcome st re outcome =
     (case outcome of
        Inl message \<Rightarrow> throw (Err message)
      | Inr result \<Rightarrow> unless_cancelled (bind_io the_record (\<lambda>r.
          if h_revision r \<noteq> re_revision re \<or> h_state r \<noteq> Running
          then throw (Err ''the actor run changed concurrently'')
          else applyResult st result (Some (re_index re)))))"

definition settle_resume_body :: "stamps \<Rightarrow> resumption \<Rightarrow> outcome \<Rightarrow> PlanRunHandle record_step" where
  "settle_resume_body st re outcome =
     bind_io
       (catch (resumed_outcome st re outcome)
         (\<lambda>e. bind_io the_record (\<lambda>r.
            if h_state r \<noteq> Cancelled \<and> h_state r = Running
            then fail_run (st_now st)
              (if re_kind re = SecretContinuation then ''Secret continuation execution failed.'' else error_message e)
            else return ())))
       (\<lambda>_. bind_io the_record (\<lambda>r. return (handle r)))"

definition settle_resume :: "stamps \<Rightarrow> string \<Rightarrow> resumption \<Rightarrow> outcome \<Rightarrow> PlanRunHandle runner_step" where
  "settle_resume st runId re outcome = on_record runId (settle_resume_body st re outcome)"

definition cancel_body :: "string \<Rightarrow> PlanRunHandle record_step" where
  "cancel_body now =
     (bind_io the_record (\<lambda>r.
      if h_state r = Cancelled then return (handle r)
      else bind_io (transition now Cancelled) (\<lambda>_. bind_io the_record (\<lambda>r'. return (handle r')))))"

definition cancel :: "string \<Rightarrow> string \<Rightarrow> PlanRunHandle runner_step" where
  "cancel now runId = on_record runId (cancel_body now)"

definition request_of :: "PlanRunRecord \<Rightarrow> PlanRunStartRequest" where
  "request_of r =
     \<lparr>rs_protocol = r_protocol r, rs_requestId = r_requestId r, rs_idempotencyKey = r_idempotencyKey r,
      rs_requestedAt = r_requestedAt r, rs_skillRef = r_skillRef r, rs_executionEnvironment = h_executionEnvironment r,
      rs_ingredients = r_ingredients r, rs_goals = r_goals r, rs_goalSpec = r_goalSpec r,
      rs_parameters = r_parameters r, rs_security = r_security r\<rparr>"

section \<open>Interleavings\<close>

text \<open>Calls that wait: a queued \<open>#run\<close>, and those whose executor is running.\<close>

datatype attempt = Queued | Executing | Resuming resumption

record runner_system =
  sy_runner :: MemoryPlanRunner
  sy_attempts :: "(string \<times> attempt) list"

datatype runner_op =
    Start string string PlanRunStartRequest
  | BeginRun string string string
  | Progress string string js_record
  | SettleRun stamps string outcome
  | Resume string string PlanRunContinuationSubmission
  | SettleResume stamps string resumption outcome
  | Cancel string string

text \<open>A step of some call; there is none when the call does not wait at this point, and a random identity is
  not one in use.  A progress report may come at any time, also when its run has long been settled.\<close>

fun perform :: "collation \<Rightarrow> runner_op \<Rightarrow> runner_system \<Rightarrow> runner_system option" where
  "perform ck (Start now runId request) s =
     (if has (ru_records (sy_runner s)) runId then None
      else case start ck now runId request (sy_runner s) of
        (Inr (_, True), r) \<Rightarrow> Some \<lparr>sy_runner = r, sy_attempts = sy_attempts s @ [(runId, Queued)]\<rparr>
      | (_, r) \<Rightarrow> Some (s\<lparr>sy_runner := r\<rparr>))"
| "perform ck (BeginRun planned now runId) s =
     (if (runId, Queued) \<notin> set (sy_attempts s) then None
      else case begin_run planned now runId (sy_runner s) of
        (Inr True, r) \<Rightarrow>
          Some \<lparr>sy_runner = r, sy_attempts = remove1 (runId, Queued) (sy_attempts s) @ [(runId, Executing)]\<rparr>
      | (_, r) \<Rightarrow> Some \<lparr>sy_runner = r, sy_attempts = remove1 (runId, Queued) (sy_attempts s)\<rparr>)"
| "perform ck (Progress now runId progress) s =
     Some (s\<lparr>sy_runner := snd (report_progress now runId progress (sy_runner s))\<rparr>)"
| "perform ck (SettleRun st runId outcome) s =
     (if (runId, Executing) \<notin> set (sy_attempts s) then None
      else Some \<lparr>sy_runner = snd (settle_run st runId outcome (sy_runner s)),
             sy_attempts = remove1 (runId, Executing) (sy_attempts s)\<rparr>)"
| "perform ck (Resume now runId submission) s =
     (case begin_resume now runId submission (sy_runner s) of
        (Inr (Inr re), r) \<Rightarrow> Some \<lparr>sy_runner = r, sy_attempts = sy_attempts s @ [(runId, Resuming re)]\<rparr>
      | (_, r) \<Rightarrow> Some (s\<lparr>sy_runner := r\<rparr>))"
| "perform ck (SettleResume st runId re outcome) s =
     (if (runId, Resuming re) \<notin> set (sy_attempts s) then None
      else Some \<lparr>sy_runner = snd (settle_resume st runId re outcome (sy_runner s)),
             sy_attempts = remove1 (runId, Resuming re) (sy_attempts s)\<rparr>)"
| "perform ck (Cancel now runId) s = Some (s\<lparr>sy_runner := snd (cancel now runId (sy_runner s))\<rparr>)"

definition new_system :: runner_system where
  "new_system = \<lparr>sy_runner = \<lparr>ru_records = [], ru_idempotency = []\<rparr>, sy_attempts = []\<rparr>"

inductive runner_reachable :: "collation \<Rightarrow> runner_system \<Rightarrow> bool" for ck where
  initially: "runner_reachable ck new_system"
| performed: "runner_reachable ck s \<Longrightarrow> perform ck op s = Some s' \<Longrightarrow> runner_reachable ck s'"

end
