(* ===== verification/Runner_Safety.thy ===== *)
theory Runner_Safety
  imports Runner
begin

text \<open>
  What one step of the runner does to one record: a well-formed record stays well formed, a change raises its
  revision, and a finished record is not touched.
\<close>

section \<open>Well-formed records\<close>

definition continuations_ok :: "PlanRunContinuation list \<Rightarrow> bool" where
  "continuations_ok cs \<longleftrightarrow> distinct (map co_continuationId cs) \<and>
     (\<forall>c\<in>set cs. co_kind c = SecretContinuation \<longrightarrow> co_persistence c = MetadataOnly)"

definition last_remaining :: "PlanRunRecord \<Rightarrow> Predicate list" where
  "last_remaining r = cp_remainingGoals (last (r_checkpoints r))"

definition waits_open :: "PlanRunRecord \<Rightarrow> bool" where
  "waits_open r \<longleftrightarrow> r_checkpoints r \<noteq> [] \<and> last_remaining r \<noteq> [] \<and>
     (\<exists>c\<in>set (r_continuations r). co_state c = OpenContinuation \<or> co_state c = Postponed)"

definition state_ok :: "PlanRunRecord \<Rightarrow> bool" where
  "state_ok r \<longleftrightarrow> (case h_state r of
       Accepted \<Rightarrow> r_failure r = None \<and> r_checkpoints r = []
     | Planning \<Rightarrow> False
     | Running \<Rightarrow> r_failure r = None
     | WaitingForInput \<Rightarrow> r_failure r = None \<and> waits_open r
     | Succeeded \<Rightarrow> r_failure r = None \<and> r_checkpoints r \<noteq> [] \<and> last_remaining r = []
     | Failed \<Rightarrow> r_failure r \<noteq> None
     | Cancelled \<Rightarrow> True)"

definition record_ok :: "PlanRunRecord \<Rightarrow> bool" where
  "record_ok r \<longleftrightarrow> continuations_ok (r_continuations r) \<and>
     map cp_ordinal (r_checkpoints r) = [0..<length (r_checkpoints r)] \<and> state_ok r"

text \<open>A later version of the same run.\<close>

definition same_run :: "PlanRunRecord \<Rightarrow> PlanRunRecord \<Rightarrow> bool" where
  "same_run r r' \<longleftrightarrow> h_runId r' = h_runId r \<and> request_of r' = request_of r \<and>
     take (length (r_checkpoints r)) (r_checkpoints r') = r_checkpoints r"

definition advances :: "PlanRunRecord \<Rightarrow> PlanRunRecord \<Rightarrow> bool" where
  "advances r r' \<longleftrightarrow> r' = r \<or> (same_run r r' \<and> h_revision r < h_revision r')"

lemma position_Some: "position p xs = Some i \<Longrightarrow> i < length xs \<and> p (xs ! i)"
  by (induction xs arbitrary: i) (auto split: if_splits)

lemma position_None: "position p xs = None \<longleftrightarrow> (\<forall>x\<in>set xs. \<not> p x)"
  by (induction xs) auto

lemma distinct_update_key:
  "distinct (map f xs) \<Longrightarrow> i < length xs \<Longrightarrow> f y = f (xs ! i) \<Longrightarrow> distinct (map f (xs[i := y]))"
  by (metis list_update_id map_update)

lemma continuations_ok_update:
  assumes "continuations_ok cs" "i < length cs" "co_continuationId c = co_continuationId (cs ! i)"
    "co_kind c = SecretContinuation \<Longrightarrow> co_persistence c = MetadataOnly"
  shows "continuations_ok (cs[i := c])"
  unfolding continuations_ok_def
proof (intro conjI ballI impI)
  show "distinct (map co_continuationId (cs[i := c]))"
    using assms(1,2,3) by (auto simp: continuations_ok_def intro: distinct_update_key)
next
  fix d assume "d \<in> set (cs[i := c])" "co_kind d = SecretContinuation"
  then show "co_persistence d = MetadataOnly"
    using assms(1,4) set_update_subset_insert [of cs i c] by (auto simp: continuations_ok_def)
qed

lemma continuations_ok_state:
  assumes "continuations_ok (r_continuations r)" "i < length (r_continuations r)"
  shows "continuations_ok (r_continuations (set_continuation_state i st r))"
proof -
  have "r_continuations r ! i \<in> set (r_continuations r)" using assms(2) by simp
  with assms show ?thesis
    unfolding set_continuation_state_def
    by (auto intro!: continuations_ok_update simp: continuations_ok_def [of "r_continuations r"])
qed

lemma continuations_ok_resolve:
  "continuations_ok (r_continuations r) \<Longrightarrow> (\<And>i. resolved = Some i \<Longrightarrow> i < length (r_continuations r)) \<Longrightarrow>
   continuations_ok (r_continuations (resolve_other resolved c r))"
  unfolding resolve_other_def by (auto simp: continuations_ok_state split: option.split)

lemma continuations_ok_upsert:
  assumes "continuations_ok (r_continuations r)" "assertContinuation c = Inr ()"
  shows "continuations_ok (r_continuations (upsertContinuation c r)) \<and> c \<in> set (r_continuations (upsertContinuation c r))"
proof (cases "position (\<lambda>candidate. co_continuationId candidate = co_continuationId c) (r_continuations r)")
  case None
  then have "upsertContinuation c r = r\<lparr>r_continuations := r_continuations r @ [c]\<rparr>" by (simp add: upsertContinuation_def)
  moreover from None have "\<forall>d\<in>set (r_continuations r). co_continuationId d \<noteq> co_continuationId c" by (simp only: position_None)
  ultimately show ?thesis
    using assms by (auto simp: continuations_ok_def assertContinuation_def)
next
  case (Some i)
  from position_Some [OF Some] have i: "i < length (r_continuations r)" "co_continuationId (r_continuations r ! i) = co_continuationId c"
    by auto
  with assms show ?thesis
    by (auto simp: upsertContinuation_def Some set_update_memI assertContinuation_def intro: continuations_ok_update)
qed

section \<open>Results\<close>

text \<open>A running record whose result is being applied: changed in its continuations only.\<close>

definition applying :: "PlanRunRecord \<Rightarrow> PlanRunRecord \<Rightarrow> bool" where
  "applying r r' \<longleftrightarrow> record_ok r' \<and> h_state r' = Running \<and> h_revision r' = h_revision r \<and> h_runId r' = h_runId r \<and>
     request_of r' = request_of r \<and> r_checkpoints r' = r_checkpoints r"

definition applied :: "PlanRunRecord \<Rightarrow> PlanRunRecord \<Rightarrow> bool" where
  "applied r r' \<longleftrightarrow> record_ok r' \<and> same_run r r' \<and> h_revision r' = Suc (h_revision r) \<and>
     h_state r' \<in> {WaitingForInput, Succeeded}"

lemma applying_refl: "record_ok r \<Longrightarrow> h_state r = Running \<Longrightarrow> applying r r"
  by (simp add: applying_def)

lemma running_ok: "h_state r = Running \<Longrightarrow> record_ok r \<longleftrightarrow>
   continuations_ok (r_continuations r) \<and> map cp_ordinal (r_checkpoints r) = [0..<length (r_checkpoints r)] \<and> r_failure r = None"
  by (simp add: record_ok_def state_ok_def)

lemma applying_resolve:
  assumes "record_ok r" "h_state r = Running" "\<And>i. resolved = Some i \<Longrightarrow> i < length (r_continuations r)"
  shows "applying r (resolve_other resolved c r)"
    "applying r (case resolved of Some i \<Rightarrow> set_continuation_state i Resolved r | None \<Rightarrow> r)"
proof -
  have "applying r (set_continuation_state i Resolved r)" if "i < length (r_continuations r)" for i
    using assms(1,2) continuations_ok_state [OF _ that, of Resolved]
    by (simp add: applying_def running_ok) (simp add: running_ok set_continuation_state_def request_of_def)
  with assms show "applying r (resolve_other resolved c r)"
    "applying r (case resolved of Some i \<Rightarrow> set_continuation_state i Resolved r | None \<Rightarrow> r)"
    by (auto simp: resolve_other_def applying_refl split: option.split)
qed

lemma applying_upsert:
  "applying r x \<Longrightarrow> assertContinuation c = Inr () \<Longrightarrow> applying r (upsertContinuation c x) \<and> c \<in> set (r_continuations (upsertContinuation c x))"
  using continuations_ok_upsert [of x c]
  by (auto simp: applying_def running_ok upsertContinuation_def request_of_def split: option.splits)

lemma bind_the_record [simp]: "bind_io the_record f r = f r r"
  by (simp add: bind_io_def the_record_def)

named_theorems steps \<open>evaluation of the steps on a record\<close>

lemma run_lift [steps]: "bind_io (lift (Inl e)) f = throw e" "bind_io (lift (Inr x)) f = f x"
  by (simp_all add: bind_io_def lift_def throw_def fun_eq_iff)

lemma run_modify [steps]: "bind_io (modify g) f r = f () (g r)"
  by (simp add: bind_io_def modify_def)

lemma run_end [steps]: "bind_io (return x) f = f x" "bind_io (throw e) g = throw e"
  by (simp_all add: bind_io_def return_def throw_def fun_eq_iff)

lemma run_last [steps]: "return x r = (Inr x, r)" "throw e r = (Inl e, r)"
  by (simp_all add: return_def throw_def)

lemma run_assoc [steps]: "bind_io (bind_io the_record f) g r = bind_io (f r) g r"
  by (simp add: bind_io_def [of "bind_io the_record f"]) (simp add: bind_io_def)

lemma run_done: "m r = (Inr x, r') \<Longrightarrow> bind_io m f r = f x r'"
  by (simp add: bind_io_def)

lemma run_catch: "bind_io (catch m h) f r = (case m r of (Inr x, r') \<Rightarrow> f x r' | (Inl e, r') \<Rightarrow> bind_io (h e) f r')"
  by (simp add: bind_io_def catch_def split: prod.split sum.split)

lemma run_transition:
  "may_move (h_state r) state \<Longrightarrow> transition now state r =
     (Inr (), r\<lparr>h_state := state, h_revision := h_revision r + 1, r_updatedAt := now\<rparr>)"
  by (simp add: transition_def bind_io_def the_record_def lift_def modify_def may_move_def)

lemma triple_modify: "(\<And>r. P r \<Longrightarrow> Q () (f r)) \<Longrightarrow> triple P (modify f) Q E"
  by (simp add: triple_def modify_def)

lemma apply_checkpoint:
  assumes "h_state r = Running" "\<And>x. P x \<Longrightarrow> applying r x" "\<And>e x. P x \<Longrightarrow> E e x"
    and "may_move Running state"
    and "\<And>x cps. P x \<Longrightarrow> map cp_ordinal cps = [0..<length cps] \<Longrightarrow> cps \<noteq> [] \<Longrightarrow>
      take (length (r_checkpoints r)) cps = r_checkpoints r \<Longrightarrow>
      cp_remainingGoals (last cps) = orelse (x_remainingGoals result) [] \<Longrightarrow>
      Q () (x\<lparr>r_checkpoints := cps, h_state := state, h_revision := Suc (h_revision x), r_updatedAt := now\<rparr>)"
  shows "triple P (bind_io (appendCheckpoint i t result) (\<lambda>_. transition now state)) Q E"
proof (rule tripleI)
  fix x y z assume x: "P x" and run: "bind_io (appendCheckpoint i t result) (\<lambda>_. transition now state) x = (Inr y, z)"
  from assms(2) [OF x] have ap: "applying r x" .
  then have ord: "map cp_ordinal (r_checkpoints r) = [0..<length (r_checkpoints r)]" and cps: "r_checkpoints x = r_checkpoints r"
    by (auto simp: applying_def record_ok_def)
  from ap assms(4) have "assertPlanRunTransition (h_state x) state = Inr ()" by (simp add: applying_def may_move_def)
  with run ap show "Q y z"
    unfolding appendCheckpoint_def transition_def
    by (auto simp: bind_io_def lift_def modify_def the_record_def cps ord split: sum.splits intro!: assms(5) [OF x, simplified])
next
  fix x e z assume x: "P x" and run: "bind_io (appendCheckpoint i t result) (\<lambda>_. transition now state) x = (Inl e, z)"
  from assms(2) [OF x] assms(4) have "assertPlanRunTransition (h_state x) state = Inr ()" by (simp add: applying_def may_move_def)
  with run have "z = x"
    unfolding appendCheckpoint_def transition_def
    by (auto simp: bind_io_def lift_def modify_def the_record_def split: sum.splits)
  with assms(3) [OF x] show "E e z" by simp
qed

lemma applyResult_ok:
  assumes ok: "record_ok r" "h_state r = Running" and res: "\<And>i. resolved = Some i \<Longrightarrow> i < length (r_continuations r)"
  shows "triple (\<lambda>x. x = r) (applyResult st result resolved) (\<lambda>_. applied r) (\<lambda>_. applying r)"
proof (cases "x_continuation result")
  case None
  have fin: "applied r (x\<lparr>r_checkpoints := cps, h_state := Succeeded, h_revision := Suc (h_revision x), r_updatedAt := now\<rparr>)"
    if "applying r x" "map cp_ordinal cps = [0..<length cps]" "cps \<noteq> []" "take (length (r_checkpoints r)) cps = r_checkpoints r"
      "cp_remainingGoals (last cps) = []" for x cps now
    using that by (auto simp: applied_def applying_def record_ok_def state_ok_def same_run_def last_remaining_def request_of_def)
  show ?thesis
    unfolding applyResult_def Let_def None option.case
    apply (rule triple_bind_lift)
    subgoal
      apply (rule triple_bind [where R = "\<lambda>_. applying r"])
      subgoal by (rule triple_modify) (hypsubst, rule applying_resolve(2) [OF ok res])
      subgoal by (rule apply_checkpoint [OF ok(2)]) (auto simp: may_move_iff fin)
      done
    subgoal by (simp add: applying_refl ok)
    done
next
  case (Some c)
  have fin: "applied r (x\<lparr>r_checkpoints := cps, h_state := WaitingForInput, h_revision := Suc (h_revision x), r_updatedAt := now\<rparr>)"
    if "applying r x" "c \<in> set (r_continuations x)" "co_state c = OpenContinuation"
      "map cp_ordinal cps = [0..<length cps]" "cps \<noteq> []" "take (length (r_checkpoints r)) cps = r_checkpoints r"
      "cp_remainingGoals (last cps) \<noteq> []" for x cps now
    using that
    by (auto simp: applied_def applying_def record_ok_def state_ok_def same_run_def last_remaining_def waits_open_def request_of_def)
  show ?thesis
    unfolding applyResult_def Let_def Some option.case
    apply (rule triple_bind_lift)
    subgoal premises c
      apply (rule triple_bind_lift)
      subgoal
        apply (rule triple_bind [where R = "\<lambda>_. applying r"])
        subgoal by (rule triple_modify) (hypsubst, rule applying_resolve(1) [OF ok res])
        subgoal
          apply (rule triple_bind [where R = "\<lambda>_ x. applying r x \<and> c \<in> set (r_continuations x)"])
          subgoal by (rule triple_modify) (use applying_upsert c in auto)
          subgoal by (rule apply_checkpoint [OF ok(2)]) (use c in \<open>auto simp: may_move_iff assertContinuation_def intro!: fin\<close>)
          done
        done
      subgoal by (simp add: applying_refl ok)
      done
    subgoal by (simp add: applying_refl ok)
    done
qed

section \<open>Steps on one record\<close>

text \<open>What every step does to a well-formed record: it stays well formed, a change raises the revision and keeps the
  command and the committed checkpoints, and a finished run is not touched.\<close>

definition finished_state :: "PlanRunState \<Rightarrow> bool" where
  "finished_state st \<longleftrightarrow> st = Succeeded \<or> st = Cancelled"

definition step_ok :: "PlanRunRecord \<Rightarrow> PlanRunRecord \<Rightarrow> bool" where
  "step_ok r r' \<longleftrightarrow> record_ok r' \<and> advances r r' \<and> (finished_state (h_state r) \<longrightarrow> r' = r)"

lemma step_ok_refl: "record_ok r \<Longrightarrow> step_ok r r"
  by (simp add: step_ok_def advances_def)

lemma applied_step: "applied r r' \<Longrightarrow> h_state r = Running \<Longrightarrow> step_ok r r'"
  by (auto simp: applied_def step_ok_def advances_def finished_state_def)

lemma failed_step:
  assumes "applying r x" "h_state r = Running"
  shows "\<exists>r'. fail_run now m x = (Inr (), r') \<and> step_ok r r' \<and> h_state r' = Failed \<and>
    r_failure r' = Some \<lparr>fl_code = ''EXECUTION_FAILED'', fl_message = m, fl_retryable = False\<rparr>"
  using assms
  by (auto simp: fail_run_def bind_io_def modify_def run_transition may_move_iff applying_def step_ok_def advances_def
      record_ok_def state_ok_def same_run_def finished_state_def request_of_def)

lemma run_transition':
  "may_move (h_state r) state \<Longrightarrow> bind_io (transition now state) f r =
     f () (r\<lparr>h_state := state, h_revision := h_revision r + 1, r_updatedAt := now\<rparr>)"
  by (simp add: bind_io_def run_transition)

lemma begin_body_run:
  "h_state r = Accepted \<Longrightarrow> begin_body planned now r =
     (Inr True, r\<lparr>h_state := Running, h_revision := h_revision r + 2, r_updatedAt := now\<rparr>)"
  "h_state r \<noteq> Accepted \<Longrightarrow> begin_body planned now r = (Inr False, r)"
  by (simp_all add: begin_body_def catch_def run_transition' may_move_iff return_def)

lemma begin_step:
  assumes "record_ok r" "begin_body planned now r = (x, r')"
  shows "step_ok r r' \<and> (if h_state r = Accepted then x = Inr True \<and> h_state r' = Running else x = Inr False \<and> r' = r)"
proof (cases "h_state r = Accepted")
  case True
  with assms show ?thesis
    by (auto simp: begin_body_run step_ok_def advances_def same_run_def record_ok_def state_ok_def request_of_def finished_state_def)
next
  case False
  with assms show ?thesis by (auto simp: begin_body_run step_ok_refl)
qed

lemma progress_step:
  assumes "record_ok r" "progress_body now progress r = (x, r')"
  shows "step_ok r r' \<and> h_state r' = h_state r \<and> r_continuations r' = r_continuations r"
  using assms
  by (auto simp: progress_body_def bind_io_def the_record_def throw_def lift_def modify_def step_ok_refl
      split: if_splits sum.splits)
    (auto simp: step_ok_def advances_def same_run_def record_ok_def state_ok_def request_of_def finished_state_def)

lemma unless_cancelled_run:
  "unless_cancelled m r = (if h_state r = Cancelled then (Inr (), r) else m r)"
  by (simp add: unless_cancelled_def bind_io_def the_record_def return_def)

lemma outcome_ok:
  assumes "record_ok r" "h_state r = Running" "\<And>i. resolved = Some i \<Longrightarrow> i < length (r_continuations r)"
  shows "case apply_outcome st outcome resolved r of (Inr _, r') \<Rightarrow> applied r r' | (Inl e, r') \<Rightarrow> applying r r'"
proof (cases outcome)
  case (Inl m)
  then show ?thesis using assms by (simp add: apply_outcome_def throw_def applying_refl)
next
  case (Inr result)
  have "triple (\<lambda>x. x = r) (applyResult st result resolved) (\<lambda>_. applied r) (\<lambda>_. applying r)"
    by (rule applyResult_ok [OF assms])
  with Inr show ?thesis
    by (auto simp: apply_outcome_def triple_def split: prod.splits sum.splits)
qed

lemma settle_step:
  assumes "record_ok r" "h_state r = Running \<or> h_state r = Cancelled" "settle_body st outcome r = (x, r')"
  shows "step_ok r r' \<and> h_state r' \<noteq> Running \<and> h_state r' \<noteq> Accepted"
proof (cases "h_state r = Cancelled")
  case True
  with assms show ?thesis by (auto simp: settle_body_def catch_def unless_cancelled_run step_ok_refl)
next
  case False
  with assms(2) have running: "h_state r = Running" by simp
  obtain y r1 where run: "apply_outcome st outcome None r = (y, r1)" by (cases "apply_outcome st outcome None r")
  show ?thesis
  proof (cases y)
    case (Inl e)
    with outcome_ok [OF assms(1) running, of None st outcome] run have ap: "applying r r1" by simp
    then have "h_state r1 \<noteq> Cancelled" by (simp add: applying_def)
    with failed_step [OF ap running, of "st_now st" "error_message e"] assms(3) running run Inl show ?thesis
      by (auto simp: settle_body_def catch_def unless_cancelled_run)
  next
    case (Inr u)
    with outcome_ok [OF assms(1) running, of None st outcome] run have ap: "applied r r1" by simp
    with applied_step [OF ap running] assms(3) running run Inr show ?thesis
      by (auto simp: settle_body_def catch_def unless_cancelled_run applied_def)
  qed
qed

lemma resume_step:
  assumes ok: "record_ok r" and run: "resume_body now submission r = (x, r')"
  shows "step_ok r r' \<and> (case x of
      Inr (Inr re) \<Rightarrow> h_state r' = Running \<and> h_state r = WaitingForInput \<and> re_index re < length (r_continuations r')
    | _ \<Rightarrow> h_state r' = h_state r \<and> (h_state r \<noteq> WaitingForInput \<longrightarrow> r' = r))"
proof (cases "h_state r = WaitingForInput")
  case False
  with ok run show ?thesis by (auto simp: resume_body_def steps step_ok_refl)
next
  case waiting: True
  have postponed: "step_ok r (r'\<lparr>h_state := WaitingForInput, h_revision := Suc (h_revision r'), r_updatedAt := now\<rparr>)"
    if r': "r' = set_continuation_state i Postponed r" and i: "i < length (r_continuations r)" for i r'
  proof -
    have "\<exists>c\<in>set (r_continuations r'). co_state c = Postponed"
      using i unfolding r' set_continuation_state_def
      by (auto intro!: bexI [of _ "(r_continuations r ! i)\<lparr>co_state := Postponed\<rparr>"] set_update_memI)
    with ok waiting continuations_ok_state [OF _ i, of Postponed] show ?thesis
      unfolding r' step_ok_def advances_def record_ok_def state_ok_def waits_open_def
      by (auto simp: finished_state_def same_run_def request_of_def last_remaining_def set_continuation_state_def)
  qed
  have resumed: "step_ok r (r\<lparr>h_state := Running, h_revision := Suc (h_revision r), r_updatedAt := now\<rparr>)"
    using ok waiting
    by (auto simp: step_ok_def advances_def record_ok_def state_ok_def same_run_def request_of_def finished_state_def)
  have may: "may_move WaitingForInput Running" "may_move WaitingForInput WaitingForInput" by (simp_all add: may_move_iff)
  have found: "i < length (r_continuations r)" if "requiredContinuation r c = Inr i" for c i
    using that position_Some by (fastforce simp: requiredContinuation_def split: option.splits)
  show ?thesis
  proof (cases submission)
    case (Postpone q c)
    show ?thesis
    proof (cases "requiredContinuation r c")
      case (Inl e)
      with run waiting Postpone ok show ?thesis by (auto simp: resume_body_def steps step_ok_refl)
    next
      case (Inr i)
      have state: "h_state (set_continuation_state i Postponed r) = WaitingForInput" by (simp add: set_continuation_state_def waiting)
      from run waiting Postpone Inr may postponed [OF refl found [OF Inr]] show ?thesis
        by (auto simp: resume_body_def steps run_transition' state)
    qed
  next
    case (Submit q c k v)
    show ?thesis
    proof (cases "requiredContinuation r c")
      case (Inl e)
      with run waiting Submit ok show ?thesis by (auto simp: resume_body_def steps step_ok_refl)
    next
      case (Inr i)
      from run waiting Submit Inr may resumed found [OF Inr] ok show ?thesis
        by (cases "portable_submission v")
          (auto simp: resume_body_def steps throw_if_def run_transition' Let_def step_ok_refl split: if_splits)
    qed
  qed
qed

lemma settle_resume_step:
  assumes ok: "record_ok r" and state: "h_state r = Running \<or> h_state r = Cancelled"
    and index: "re_index re < length (r_continuations r)"
    and run: "settle_resume_body st re outcome r = (x, r')"
  shows "step_ok r r' \<and> h_state r' \<noteq> Running \<and> h_state r' \<noteq> Accepted"
proof (cases "h_state r = Cancelled")
  case True
  with run ok show ?thesis
    by (cases outcome)
      (auto simp: settle_resume_body_def resumed_outcome_def run_catch unless_cancelled_run steps step_ok_refl)
next
  case False
  with state have running: "h_state r = Running" by simp
  obtain y r1 where out: "resumed_outcome st re outcome r = (y, r1)" by (cases "resumed_outcome st re outcome r")
  have res: "case y of Inr _ \<Rightarrow> applied r r1 | Inl e \<Rightarrow> applying r r1"
  proof (cases "\<exists>result. outcome = Inr result \<and> h_revision r = re_revision re")
    case True
    then obtain result where "outcome = Inr result" "h_revision r = re_revision re" by blast
    with out running have "apply_outcome st outcome (Some (re_index re)) r = (y, r1)"
      by (simp add: resumed_outcome_def apply_outcome_def unless_cancelled_run)
    with outcome_ok [OF ok running, of "Some (re_index re)" st outcome] index show ?thesis by (auto split: sum.splits)
  next
    case False
    with out running applying_refl [OF ok running] show ?thesis
      by (cases outcome) (auto simp: resumed_outcome_def unless_cancelled_run steps)
  qed
  show ?thesis
  proof (cases y)
    case (Inl e)
    let ?m = "if re_kind re = SecretContinuation then ''Secret continuation execution failed.'' else error_message e"
    from res Inl have ap: "applying r r1" by simp
    then have "h_state r1 = Running" by (simp add: applying_def)
    with failed_step [OF ap running, of "st_now st" ?m] run running out Inl show ?thesis
      by (auto simp: settle_resume_body_def run_catch steps run_done)
  next
    case (Inr u)
    from res Inr have ap: "applied r r1" by simp
    with applied_step [OF ap running] run running out Inr show ?thesis
      by (auto simp: settle_resume_body_def run_catch steps applied_def)
  qed
qed

lemma cancel_step:
  assumes "record_ok r" "cancel_body now r = (x, r')"
  shows "step_ok r r' \<and> (r' = r \<or> h_state r' = Cancelled) \<and> r_continuations r' = r_continuations r"
proof (cases "h_state r = Cancelled")
  case True
  with assms show ?thesis by (auto simp: cancel_body_def steps step_ok_refl)
next
  case False
  show ?thesis
  proof (cases "may_move (h_state r) Cancelled")
    case True
    with False have "\<not> finished_state (h_state r)" by (auto simp: finished_state_def may_move_iff)
    with assms False True show ?thesis
      by (auto simp: cancel_body_def run_transition' steps step_ok_def advances_def same_run_def request_of_def
          record_ok_def state_ok_def)
  next
    case no: False
    then obtain e where "assertPlanRunTransition (h_state r) Cancelled = Inl e"
      by (cases "assertPlanRunTransition (h_state r) Cancelled") (auto simp: may_move_def)
    with assms False show ?thesis
      by (auto simp: cancel_body_def transition_def bind_io_def lift_def the_record_def step_ok_refl)
  qed
qed

end
