(* ===== verification/Runner_Invariant.thy ===== *)
theory Runner_Invariant
  imports Runner_Safety
begin

text \<open>
  The runner under every interleaving of its calls: an invariant of all reachable states, the stability of
  finished runs, optimistic revisions, idempotent starts and the secrecy of submitted secrets.
\<close>

section \<open>The invariant of the system\<close>

fun fits :: "attempt \<Rightarrow> PlanRunRecord \<Rightarrow> bool" where
  "fits Queued r \<longleftrightarrow> h_state r = Accepted \<or> h_state r = Cancelled"
| "fits Executing r \<longleftrightarrow> h_state r = Running \<or> h_state r = Cancelled"
| "fits (Resuming re) r \<longleftrightarrow> (h_state r = Running \<or> h_state r = Cancelled) \<and> re_index re < length (r_continuations r)"

text \<open>Exactly the commands of the runs are bound to their keys.\<close>

definition bindings_ok :: "collation \<Rightarrow> MemoryPlanRunner \<Rightarrow> bool" where
  "bindings_ok ck ru \<longleftrightarrow> distinct (map fst (ru_idempotency ru)) \<and>
     (\<forall>key runId material. map_of (ru_idempotency ru) key = Some (runId, material) \<longleftrightarrow>
        (\<exists>r. map_of (ru_records ru) runId = Some r \<and> idempotency_key (request_of r) = key \<and>
             materialCommand ck (request_of r) = material))"

text \<open>Every waiting call has its run, every run that is accepted or running has a call that will move it, and
  no run has two.\<close>

definition attempts_ok :: "(string, PlanRunRecord) jsmap \<Rightarrow> (string \<times> attempt) list \<Rightarrow> bool" where
  "attempts_ok recs atts \<longleftrightarrow> distinct (map fst atts) \<and>
     (\<forall>(runId, a)\<in>set atts. \<exists>r. map_of recs runId = Some r \<and> fits a r) \<and>
     (\<forall>runId r. map_of recs runId = Some r \<longrightarrow> h_state r = Accepted \<or> h_state r = Running \<longrightarrow> runId \<in> fst ` set atts)"

definition system_ok :: "collation \<Rightarrow> runner_system \<Rightarrow> bool" where
  "system_ok ck s \<longleftrightarrow> keyed h_runId record_ok (ru_records (sy_runner s)) \<and> bindings_ok ck (sy_runner s) \<and>
     attempts_ok (ru_records (sy_runner s)) (sy_attempts s)"

lemma on_record_run:
  "map_of (ru_records ru) runId = Some r \<Longrightarrow> m r = (x, r') \<Longrightarrow>
   on_record runId m ru = (x, ru\<lparr>ru_records := AList.update runId r' (ru_records ru)\<rparr>)"
  by (simp add: on_record_def)

lemma on_record_none: "map_of (ru_records ru) runId = None \<Longrightarrow> on_record runId m ru = (Inl (Err ''run not found''), ru)"
  by (simp add: on_record_def)

lemma step_ok_same: "step_ok r r' \<Longrightarrow> h_runId r' = h_runId r \<and> request_of r' = request_of r \<and> record_ok r'"
  by (auto simp: step_ok_def advances_def same_run_def)

lemma update_bindings:
  assumes "bindings_ok ck ru" "map_of (ru_records ru) runId = Some r" "request_of r' = request_of r"
  shows "bindings_ok ck (ru\<lparr>ru_records := AList.update runId r' (ru_records ru)\<rparr>)"
  using assms unfolding bindings_ok_def by (auto simp: update_conv' split: if_splits)

text \<open>A step on one record, and what becomes of the calls that wait for its run.\<close>

lemma system_ok_step:
  assumes ok: "system_ok ck s" and r: "map_of (ru_records (sy_runner s)) runId = Some r" and step: "step_ok r r'"
    and atts: "distinct (map fst atts)"
      "\<And>a. (runId, a) \<in> set atts \<Longrightarrow> fits a r'"
      "h_state r' = Accepted \<or> h_state r' = Running \<Longrightarrow> runId \<in> fst ` set atts"
      "\<And>j a. j \<noteq> runId \<Longrightarrow> (j, a) \<in> set atts \<longleftrightarrow> (j, a) \<in> set (sy_attempts s)"
  shows "system_ok ck \<lparr>sy_runner = (sy_runner s)\<lparr>ru_records := AList.update runId r' (ru_records (sy_runner s))\<rparr>, sy_attempts = atts\<rparr>"
proof -
  let ?recs = "ru_records (sy_runner s)"
  note same = step_ok_same [OF step]
  from ok have keyed: "keyed h_runId record_ok ?recs" and bind: "bindings_ok ck (sy_runner s)"
    and att: "attempts_ok ?recs (sy_attempts s)" by (auto simp: system_ok_def)
  have "h_runId r = runId" using keyed_map_of [OF keyed r] by simp
  then have k: "keyed h_runId record_ok (AList.update runId r' ?recs)"
    using keyed same by (auto intro: keyed_update)
  have "attempts_ok (AList.update runId r' ?recs) atts"
    unfolding attempts_ok_def
  proof (intro conjI)
    show "\<forall>(j, a)\<in>set atts. \<exists>r''. map_of (AList.update runId r' ?recs) j = Some r'' \<and> fits a r''"
    proof clarify
      fix j a assume ja: "(j, a) \<in> set atts"
      show "\<exists>r''. map_of (AList.update runId r' ?recs) j = Some r'' \<and> fits a r''"
      proof (cases "j = runId")
        case True
        with atts(2) ja show ?thesis by (simp add: update_conv')
      next
        case False
        with atts(4) ja have "(j, a) \<in> set (sy_attempts s)" by blast
        with att have "\<exists>r''. map_of ?recs j = Some r'' \<and> fits a r''" unfolding attempts_ok_def by blast
        with False show ?thesis by (simp add: update_conv')
      qed
    qed
    show "\<forall>j r''. map_of (AList.update runId r' ?recs) j = Some r'' \<longrightarrow>
        h_state r'' = Accepted \<or> h_state r'' = Running \<longrightarrow> j \<in> fst ` set atts"
    proof (intro allI impI)
      fix j r'' assume j: "map_of (AList.update runId r' ?recs) j = Some r''" "h_state r'' = Accepted \<or> h_state r'' = Running"
      show "j \<in> fst ` set atts"
      proof (cases "j = runId")
        case True
        with j atts(3) show ?thesis by (simp add: update_conv')
      next
        case False
        with j(1) have "map_of ?recs j = Some r''" by (simp add: update_conv')
        with att j(2) have "j \<in> fst ` set (sy_attempts s)" unfolding attempts_ok_def by blast
        then obtain a where "(j, a) \<in> set (sy_attempts s)" by auto
        with atts(4) [OF False] have "(j, a) \<in> set atts" by blast
        then show ?thesis by (rule rev_image_eqI) simp
      qed
    qed
  qed (rule atts(1))
  with k update_bindings [OF bind r] same show ?thesis by (simp add: system_ok_def)
qed

section \<open>Every step keeps it\<close>

text \<open>What a step of the system does to the runs it has already.\<close>

definition runs_step :: "runner_system \<Rightarrow> runner_system \<Rightarrow> bool" where
  "runs_step s s' \<longleftrightarrow> (\<forall>runId r. map_of (ru_records (sy_runner s)) runId = Some r \<longrightarrow>
     (\<exists>r'. map_of (ru_records (sy_runner s')) runId = Some r' \<and> step_ok r r'))"

definition good_step :: "collation \<Rightarrow> runner_system \<Rightarrow> runner_system \<Rightarrow> bool" where
  "good_step ck s s' \<longleftrightarrow> system_ok ck s' \<and> runs_step s s'"

lemma system_record: "system_ok ck s \<Longrightarrow> map_of (ru_records (sy_runner s)) runId = Some r \<Longrightarrow> record_ok r"
  by (auto simp: system_ok_def dest: keyed_map_of)

lemma good_step_refl: "system_ok ck s \<Longrightarrow> good_step ck s s"
  by (auto simp: good_step_def runs_step_def step_ok_refl system_record)

lemma good_record_step:
  assumes "system_ok ck s" "map_of (ru_records (sy_runner s)) runId = Some r" "step_ok r r'"
    "distinct (map fst atts)" "\<And>a. (runId, a) \<in> set atts \<Longrightarrow> fits a r'"
    "h_state r' = Accepted \<or> h_state r' = Running \<Longrightarrow> runId \<in> fst ` set atts"
    "\<And>j a. j \<noteq> runId \<Longrightarrow> (j, a) \<in> set atts \<longleftrightarrow> (j, a) \<in> set (sy_attempts s)"
  shows "good_step ck s \<lparr>sy_runner = (sy_runner s)\<lparr>ru_records := AList.update runId r' (ru_records (sy_runner s))\<rparr>, sy_attempts = atts\<rparr>"
  unfolding good_step_def
proof
  show "runs_step s \<lparr>sy_runner = (sy_runner s)\<lparr>ru_records := AList.update runId r' (ru_records (sy_runner s))\<rparr>, sy_attempts = atts\<rparr>"
    using assms(1-3) by (auto simp: runs_step_def update_conv' step_ok_refl system_record)
qed (rule system_ok_step [OF assms])

lemma system_attempts:
  assumes "system_ok ck s"
  shows "distinct (map fst (sy_attempts s))"
    "(runId, a) \<in> set (sy_attempts s) \<Longrightarrow> \<exists>r. map_of (ru_records (sy_runner s)) runId = Some r \<and> fits a r"
    "map_of (ru_records (sy_runner s)) runId = Some r \<Longrightarrow> h_state r = Accepted \<or> h_state r = Running \<Longrightarrow>
       runId \<in> fst ` set (sy_attempts s)"
  using assms unfolding system_ok_def attempts_ok_def by blast+

text \<open>A step that leaves the waiting calls as they are.\<close>

lemma good_quiet_step:
  assumes ok: "system_ok ck s" and r: "map_of (ru_records (sy_runner s)) runId = Some r" and step: "step_ok r r'"
    and keep: "h_state r' = h_state r \<or> h_state r' = Cancelled" "length (r_continuations r') = length (r_continuations r)"
  shows "good_step ck s (s\<lparr>sy_runner := (sy_runner s)\<lparr>ru_records := AList.update runId r' (ru_records (sy_runner s))\<rparr>\<rparr>)"
proof -
  have fits: "fits a r'" if "(runId, a) \<in> set (sy_attempts s)" for a
    using system_attempts(2) [OF ok that] r keep by (cases a) auto
  have "good_step ck s \<lparr>sy_runner = (sy_runner s)\<lparr>ru_records := AList.update runId r' (ru_records (sy_runner s))\<rparr>,
      sy_attempts = sy_attempts s\<rparr>"
    by (rule good_record_step [OF ok r step system_attempts(1) [OF ok] fits])
      (use keep(1) system_attempts(3) [OF ok r] in auto)
  then show ?thesis by (cases s) simp
qed

lemma remove_attempt:
  assumes "distinct (map fst atts)" "(runId, a) \<in> set atts"
  shows "distinct (map fst (remove1 (runId, a) atts))" "runId \<notin> fst ` set (remove1 (runId, a) atts)"
    "j \<noteq> runId \<Longrightarrow> (j, b) \<in> set (remove1 (runId, a) atts) \<longleftrightarrow> (j, b) \<in> set atts"
  using assms(1) unfolding remove1_key [OF assms] by (auto simp: distinct_map_filter)

text \<open>A step that ends a waiting call, and one that turns it into another.\<close>

lemma good_final_step:
  assumes ok: "system_ok ck s" and att: "(runId, a) \<in> set (sy_attempts s)"
    and r: "map_of (ru_records (sy_runner s)) runId = Some r" and step: "step_ok r r'"
    and settled: "h_state r' \<noteq> Running" "h_state r' \<noteq> Accepted"
  shows "good_step ck s \<lparr>sy_runner = (sy_runner s)\<lparr>ru_records := AList.update runId r' (ru_records (sy_runner s))\<rparr>,
      sy_attempts = remove1 (runId, a) (sy_attempts s)\<rparr>"
proof -
  note rm = remove_attempt [OF system_attempts(1) [OF ok] att]
  have "(runId, b) \<notin> set (remove1 (runId, a) (sy_attempts s))" for b
    using rm(2) by force
  then show ?thesis
    by (intro good_record_step [OF ok r step rm(1)]) (use settled rm(3) in auto)
qed

lemma good_next_step:
  assumes ok: "system_ok ck s" and att: "(runId, a) \<in> set (sy_attempts s)"
    and r: "map_of (ru_records (sy_runner s)) runId = Some r" and step: "step_ok r r'" and fits: "fits b r'"
  shows "good_step ck s \<lparr>sy_runner = (sy_runner s)\<lparr>ru_records := AList.update runId r' (ru_records (sy_runner s))\<rparr>,
      sy_attempts = remove1 (runId, a) (sy_attempts s) @ [(runId, b)]\<rparr>"
proof -
  note rm = remove_attempt [OF system_attempts(1) [OF ok] att]
  have gone: "(runId, c) \<notin> set (remove1 (runId, a) (sy_attempts s))" for c
    using rm(2) by force
  show ?thesis
    by (intro good_record_step [OF ok r step]) (use gone rm(1,2) rm(3) fits in auto)
qed

text \<open>A new run.\<close>

lemma new_record_simps [simp]:
  "h_runId (new_record now runId request) = runId" "h_state (new_record now runId request) = Accepted"
  "request_of (new_record now runId request) = request" "record_ok (new_record now runId request)"
  by (simp_all add: new_record_def request_of_def record_ok_def state_ok_def continuations_ok_def)

lemma bind_new:
  assumes bind: "bindings_ok ck ru" and new: "\<not> has (ru_records ru) runId"
    "map_of (ru_idempotency ru) (idempotency_key request) = None"
  shows "bindings_ok ck (ru\<lparr>ru_records := AList.update runId (new_record now runId request) (ru_records ru),
      ru_idempotency := AList.update (idempotency_key request) (runId, materialCommand ck request) (ru_idempotency ru)\<rparr>)"
proof -
  from new(1) have unknown: "map_of (ru_records ru) runId = None" by (simp add: has_map_of)
  from bind new(2) have unbound: "idempotency_key (request_of r) \<noteq> idempotency_key request"
    if "map_of (ru_records ru) j = Some r" for j r
    using that unfolding bindings_ok_def by (metis option.distinct(1))
  have "(map_of (AList.update (idempotency_key request) (runId, materialCommand ck request) (ru_idempotency ru)) key = Some (j, m)) =
      (\<exists>r. map_of (AList.update runId (new_record now runId request) (ru_records ru)) j = Some r \<and>
         idempotency_key (request_of r) = key \<and> materialCommand ck (request_of r) = m)" for key j m
  proof (cases "key = idempotency_key request")
    case True
    then show ?thesis using unbound by (auto simp: update_conv')
  next
    case False
    have "(map_of (ru_idempotency ru) key = Some (j, m)) = (\<exists>r. map_of (ru_records ru) j = Some r \<and>
        idempotency_key (request_of r) = key \<and> materialCommand ck (request_of r) = m)"
      using bind by (simp add: bindings_ok_def)
    with False unknown show ?thesis by (auto simp: update_conv')
  qed
  then show ?thesis using bind by (simp add: bindings_ok_def distinct_update)
qed

lemma start_new:
  assumes ok: "system_ok ck s" and new: "\<not> has (ru_records (sy_runner s)) runId"
    "map_of (ru_idempotency (sy_runner s)) (idempotency_key request) = None"
  shows "good_step ck s \<lparr>sy_runner = (sy_runner s)\<lparr>
        ru_records := AList.update runId (new_record now runId request) (ru_records (sy_runner s)),
        ru_idempotency := AList.update (idempotency_key request) (runId, materialCommand ck request)
          (ru_idempotency (sy_runner s))\<rparr>,
      sy_attempts = sy_attempts s @ [(runId, Queued)]\<rparr>"
proof -
  let ?recs = "ru_records (sy_runner s)"
  from ok have keyed: "keyed h_runId record_ok ?recs" and bind: "bindings_ok ck (sy_runner s)" by (auto simp: system_ok_def)
  from new(1) have unknown: "map_of ?recs runId = None" by (simp add: has_map_of)
  note att = system_attempts [OF ok]
  have fresh: "runId \<notin> fst ` set (sy_attempts s)"
    using att(2) unknown by force
  have fits: "\<exists>r'. map_of (AList.update runId (new_record now runId request) ?recs) j = Some r' \<and> fits a r'"
    if "(j, a) \<in> set (sy_attempts s)" for j a
    using att(2) [OF that] unknown by (auto simp: update_conv')
  have "attempts_ok (AList.update runId (new_record now runId request) ?recs) (sy_attempts s @ [(runId, Queued)])"
    unfolding attempts_ok_def using att(1,3) fresh fits by (auto simp: update_conv' split: if_splits)
  moreover have "keyed h_runId record_ok (AList.update runId (new_record now runId request) ?recs)"
    using keyed by (auto intro: keyed_update)
  ultimately have "system_ok ck \<lparr>sy_runner = (sy_runner s)\<lparr>
        ru_records := AList.update runId (new_record now runId request) ?recs,
        ru_idempotency := AList.update (idempotency_key request) (runId, materialCommand ck request)
          (ru_idempotency (sy_runner s))\<rparr>,
      sy_attempts = sy_attempts s @ [(runId, Queued)]\<rparr>"
    using bind_new [OF bind new] by (simp add: system_ok_def)
  with unknown show ?thesis
    by (auto simp: good_step_def runs_step_def update_conv' step_ok_refl system_record [OF ok])
qed

lemma lift_cases: "bind_io (lift x) f ru = (case x of Inl e \<Rightarrow> (Inl e, ru) | Inr y \<Rightarrow> f y ru)"
  by (simp add: bind_io_def lift_def split: sum.split)

lemma start_cases:
  "start ck now runId request ru =
     (case portable_record (rs_parameters request) ''$.parameters'' of
        Inl e \<Rightarrow> (Inl e, ru)
      | Inr _ \<Rightarrow>
          if rs_executionEnvironment request \<noteq> Server then (Inl (Err ''the server runner accepts only server placement''), ru)
          else case map_of (ru_idempotency ru) (idempotency_key request) of
            None \<Rightarrow> (Inr (handle (new_record now runId request), True),
              ru\<lparr>ru_records := AList.update runId (new_record now runId request) (ru_records ru),
                 ru_idempotency := AList.update (idempotency_key request) (runId, materialCommand ck request) (ru_idempotency ru)\<rparr>)
          | Some (previous, bound) \<Rightarrow>
              if bound \<noteq> materialCommand ck request
              then (Inl (Err ''the idempotency key is already bound to another command''), ru)
              else (case map_of (ru_records ru) previous of
                None \<Rightarrow> (Inl (Err ''the idempotency index references a missing run''), ru)
              | Some r \<Rightarrow> (Inr (handle r, False), ru)))"
  by (simp add: start_def lift_cases throw_if_def Let_def split: sum.split option.split)

lemma perform_start: "system_ok ck s \<Longrightarrow> perform ck (Start now runId request) s = Some s' \<Longrightarrow> good_step ck s s'"
  by (auto simp: start_cases good_step_refl start_new split: if_splits sum.splits option.splits prod.splits)

lemma perform_quiet:
  fixes m :: "'a record_step"
  assumes ok: "system_ok ck s"
    and m: "\<And>r x r'. record_ok r \<Longrightarrow> m r = (x, r') \<Longrightarrow> step_ok r r' \<and> (h_state r' = h_state r \<or> h_state r' = Cancelled) \<and>
      length (r_continuations r') = length (r_continuations r)"
  shows "good_step ck s (s\<lparr>sy_runner := snd (on_record runId m (sy_runner s))\<rparr>)"
proof (cases "map_of (ru_records (sy_runner s)) runId")
  case None
  then show ?thesis using good_step_refl [OF ok] by (simp add: on_record_none)
next
  case (Some r)
  obtain x r' where run: "m r = (x, r')" by (cases "m r")
  from m [OF system_record [OF ok Some] run] good_quiet_step [OF ok Some] show ?thesis
    by (simp add: on_record_run [where m = m, OF Some run])
qed

lemma perform_progress: "system_ok ck s \<Longrightarrow> good_step ck s (s\<lparr>sy_runner := snd (report_progress now runId progress (sy_runner s))\<rparr>)"
  unfolding report_progress_def by (rule perform_quiet) (auto dest: progress_step)

lemma perform_cancel: "system_ok ck s \<Longrightarrow> good_step ck s (s\<lparr>sy_runner := snd (cancel now runId (sy_runner s))\<rparr>)"
  unfolding cancel_def by (rule perform_quiet) (auto dest: cancel_step)

lemma waiting_record:
  assumes "system_ok ck s" "(runId, a) \<in> set (sy_attempts s)"
  obtains r where "map_of (ru_records (sy_runner s)) runId = Some r" "record_ok r" "fits a r"
  using system_attempts(2) [OF assms] system_record [OF assms(1)] by blast

lemma perform_begin:
  assumes ok: "system_ok ck s" and run: "perform ck (BeginRun planned now runId) s = Some s'"
  shows "good_step ck s s'"
proof -
  from run have att: "(runId, Queued) \<in> set (sy_attempts s)" by (auto split: if_splits)
  from waiting_record [OF ok att] obtain r where r: "map_of (ru_records (sy_runner s)) runId = Some r" "record_ok r"
    and state: "h_state r = Accepted \<or> h_state r = Cancelled" by auto
  obtain x r' where body: "begin_body planned now r = (x, r')" by (cases "begin_body planned now r")
  note step = begin_step [OF r(2) body]
  note eq = on_record_run [where m = "begin_body planned now", OF r(1) body]
  show ?thesis
  proof (cases "h_state r = Accepted")
    case True
    with step have "x = Inr True" "step_ok r r'" "h_state r' = Running" by auto
    with good_next_step [OF ok att r(1), of r' Executing] run att eq show ?thesis by (simp add: begin_run_def)
  next
    case False
    with step state have "x = Inr False" "step_ok r r'" "h_state r' = Cancelled" by auto
    with good_final_step [OF ok att r(1), of r'] run att eq show ?thesis by (simp add: begin_run_def)
  qed
qed

lemma perform_settle:
  assumes ok: "system_ok ck s" and run: "perform ck (SettleRun st runId outcome) s = Some s'"
  shows "good_step ck s s'"
proof -
  from run have att: "(runId, Executing) \<in> set (sy_attempts s)" by (auto split: if_splits)
  from waiting_record [OF ok att] obtain r where r: "map_of (ru_records (sy_runner s)) runId = Some r" "record_ok r"
    and state: "h_state r = Running \<or> h_state r = Cancelled" by auto
  obtain x r' where body: "settle_body st outcome r = (x, r')" by (cases "settle_body st outcome r")
  from good_final_step [OF ok att r(1), of r'] settle_step [OF r(2) state body] run att
    on_record_run [where m = "settle_body st outcome", OF r(1) body] show ?thesis by (simp add: settle_run_def)
qed

lemma perform_settle_resume:
  assumes ok: "system_ok ck s" and run: "perform ck (SettleResume st runId re outcome) s = Some s'"
  shows "good_step ck s s'"
proof -
  from run have att: "(runId, Resuming re) \<in> set (sy_attempts s)" by (auto split: if_splits)
  from waiting_record [OF ok att] obtain r where r: "map_of (ru_records (sy_runner s)) runId = Some r" "record_ok r"
    and state: "h_state r = Running \<or> h_state r = Cancelled" "re_index re < length (r_continuations r)" by auto
  obtain x r' where body: "settle_resume_body st re outcome r = (x, r')" by (cases "settle_resume_body st re outcome r")
  from good_final_step [OF ok att r(1), of r'] settle_resume_step [OF r(2) state body] run att
    on_record_run [where m = "settle_resume_body st re outcome", OF r(1) body] show ?thesis by (simp add: settle_resume_def)
qed

lemma good_new_attempt:
  assumes ok: "system_ok ck s" and r: "map_of (ru_records (sy_runner s)) runId = Some r" and step: "step_ok r r'"
    and state: "h_state r = WaitingForInput" and fits: "fits b r'"
  shows "good_step ck s \<lparr>sy_runner = (sy_runner s)\<lparr>ru_records := AList.update runId r' (ru_records (sy_runner s))\<rparr>,
      sy_attempts = sy_attempts s @ [(runId, b)]\<rparr>"
proof -
  have idle: "(runId, a) \<notin> set (sy_attempts s)" for a
    using system_attempts(2) [OF ok, of runId a] r state by (cases a) auto
  then have "runId \<notin> fst ` set (sy_attempts s)" by force
  with idle show ?thesis
    by (intro good_record_step [OF ok r step]) (use system_attempts(1) [OF ok] fits in auto)
qed

lemma good_postponed:
  assumes ok: "system_ok ck s" and r: "map_of (ru_records (sy_runner s)) runId = Some r" and step: "step_ok r r'"
    and state: "h_state r' = h_state r" "h_state r \<noteq> WaitingForInput \<longrightarrow> r' = r"
  shows "good_step ck s (s\<lparr>sy_runner := (sy_runner s)\<lparr>ru_records := AList.update runId r' (ru_records (sy_runner s))\<rparr>\<rparr>)"
proof -
  have fits: "fits a r'" if "(runId, a) \<in> set (sy_attempts s)" for a
    using system_attempts(2) [OF ok that] r state by (cases a) auto
  have "good_step ck s \<lparr>sy_runner = (sy_runner s)\<lparr>ru_records := AList.update runId r' (ru_records (sy_runner s))\<rparr>,
      sy_attempts = sy_attempts s\<rparr>"
    by (rule good_record_step [OF ok r step system_attempts(1) [OF ok] fits])
      (use state(1) system_attempts(3) [OF ok r] in auto)
  then show ?thesis by (cases s) simp
qed

lemma perform_resume:
  assumes ok: "system_ok ck s" and run: "perform ck (Resume now runId submission) s = Some s'"
  shows "good_step ck s s'"
proof (cases "map_of (ru_records (sy_runner s)) runId")
  case None
  with run good_step_refl [OF ok] show ?thesis by (simp add: begin_resume_def on_record_none)
next
  case (Some r)
  obtain x r' where body: "resume_body now submission r = (x, r')" by (cases "resume_body now submission r")
  note step = resume_step [OF system_record [OF ok Some] body]
  note eq = on_record_run [where m = "resume_body now submission", OF Some body]
  show ?thesis
  proof (cases "\<exists>re. x = Inr (Inr re)")
    case True
    then obtain re where "x = Inr (Inr re)" by blast
    with step good_new_attempt [OF ok Some, of r' "Resuming re"] run eq show ?thesis by (simp add: begin_resume_def)
  next
    case False
    with step have "step_ok r r'" "h_state r' = h_state r" "h_state r \<noteq> WaitingForInput \<longrightarrow> r' = r"
      by (auto split: sum.splits)
    from good_postponed [OF ok Some this] run eq False show ?thesis by (auto simp: begin_resume_def split: sum.splits)
  qed
qed

lemma perform_good: "system_ok ck s \<Longrightarrow> perform ck op s = Some s' \<Longrightarrow> good_step ck s s'"
proof (cases op)
  case (Progress now runId progress)
  then show "system_ok ck s \<Longrightarrow> perform ck op s = Some s' \<Longrightarrow> ?thesis" using perform_progress by auto
next
  case (Cancel now runId)
  then show "system_ok ck s \<Longrightarrow> perform ck op s = Some s' \<Longrightarrow> ?thesis" using perform_cancel by auto
qed (simp_all only: perform_start perform_begin perform_settle perform_resume perform_settle_resume)

lemma reachable_ok: "runner_reachable ck s \<Longrightarrow> system_ok ck s"
proof (induction rule: runner_reachable.induct)
  case initially
  then show ?case by (simp add: new_system_def system_ok_def bindings_ok_def attempts_ok_def)
next
  case (performed s op s')
  then show ?case using perform_good by (auto simp: good_step_def)
qed

section \<open>Properties\<close>

text \<open>C17. In every reachable state, whatever the interleaving of the calls and the behaviour of the executors, every run
  record is well formed (numbered checkpoints, unique continuations, secrets only as metadata, a waiting run has an
  open continuation and unmet goals, a succeeded one has none, a failed one its failure), the idempotency index
  binds exactly the commands of the runs, and every accepted or running run has exactly one call that will move it.\<close>

theorem runner_invariant: "runner_reachable ck s \<Longrightarrow> system_ok ck s"
  by (rule reachable_ok)

text \<open>C18. No step loses a run: a changed record has a greater revision, the same command and the checkpoints it had,
  and a run that has succeeded or was cancelled is never changed again.\<close>

theorem runner_revisions:
  "runner_reachable ck s \<Longrightarrow> perform ck op s = Some s' \<Longrightarrow> status runId (sy_runner s) = Some r \<Longrightarrow>
   \<exists>r'. status runId (sy_runner s') = Some r' \<and>
     (r' = r \<or> h_revision r < h_revision r' \<and> request_of r' = request_of r \<and>
        take (length (r_checkpoints r)) (r_checkpoints r') = r_checkpoints r \<and>
        h_state r \<noteq> Succeeded \<and> h_state r \<noteq> Cancelled)"
  using perform_good [OF reachable_ok]
  unfolding good_step_def runs_step_def step_ok_def advances_def same_run_def status_def finished_state_def by blast

text \<open>Starting is idempotent: a command whose key is bound to a run with the same material is answered with that
  run and changes nothing; one with other material is refused and changes nothing.\<close>

theorem start_idempotent:
  "runner_reachable ck s \<Longrightarrow> status runId (sy_runner s) = Some r \<Longrightarrow>
   idempotency_key request = idempotency_key (request_of r) \<Longrightarrow>
   rs_executionEnvironment request = Server \<Longrightarrow> portable_record (rs_parameters request) ''$.parameters'' = Inr () \<Longrightarrow>
   start ck now fresh request (sy_runner s) =
     (if materialCommand ck request = materialCommand ck (request_of r) then Inr (handle r, False)
      else Inl (Err ''the idempotency key is already bound to another command''), sy_runner s)"
proof -
  assume reach: "runner_reachable ck s" and r: "status runId (sy_runner s) = Some r"
    and key: "idempotency_key request = idempotency_key (request_of r)"
    and ok: "rs_executionEnvironment request = Server" "portable_record (rs_parameters request) ''$.parameters'' = Inr ()"
  from reachable_ok [OF reach] have "bindings_ok ck (sy_runner s)" by (simp add: system_ok_def)
  with r have "map_of (ru_idempotency (sy_runner s)) (idempotency_key (request_of r)) =
      Some (runId, materialCommand ck (request_of r))"
    unfolding bindings_ok_def status_def by blast
  with r ok key show ?thesis by (simp add: start_cases status_def)
qed


text \<open>C20. No run gets stuck: in every reachable state an accepted or running run has an enabled step that takes it to
  another state.\<close>

theorem run_not_stuck:
  "runner_reachable ck s \<Longrightarrow> status runId (sy_runner s) = Some r \<Longrightarrow> h_state r = Accepted \<or> h_state r = Running \<Longrightarrow>
   \<exists>op s' r'. perform ck op s = Some s' \<and> status runId (sy_runner s') = Some r' \<and> h_state r' \<noteq> h_state r"
proof -
  assume reach: "runner_reachable ck s" and r: "status runId (sy_runner s) = Some r"
    and state: "h_state r = Accepted \<or> h_state r = Running"
  note ok = reachable_ok [OF reach]
  have r: "map_of (ru_records (sy_runner s)) runId = Some r" using r by (simp add: status_def)
  note rok = system_record [OF ok r]
  from system_attempts(3) [OF ok r state] obtain a where att: "(runId, a) \<in> set (sy_attempts s)" by auto
  from system_attempts(2) [OF ok this] r have fits: "fits a r" by simp
  show ?thesis
  proof (cases a)
    case Queued
    obtain x r' where body: "begin_body [] [] r = (x, r')" by (cases "begin_body [] [] r")
    from begin_step [OF rok body] Queued fits state att on_record_run [where m = "begin_body [] []", OF r body] show ?thesis
      by (intro exI [of _ "BeginRun [] [] runId"] exI [of _ r']) (auto simp: begin_run_def status_def update_conv')
  next
    case Executing
    let ?st = "\<lparr>st_checkpointId = [], st_committedAt = [], st_now = []\<rparr>"
    obtain x r' where body: "settle_body ?st (Inl []) r = (x, r')" by (cases "settle_body ?st (Inl []) r")
    from settle_step [OF rok _ body] Executing fits state att on_record_run [where m = "settle_body ?st (Inl [])", OF r body]
    show ?thesis
      by (intro exI [of _ "SettleRun ?st runId (Inl [])"] exI [of _ r']) (auto simp: settle_run_def status_def update_conv')
  next
    case (Resuming re)
    let ?st = "\<lparr>st_checkpointId = [], st_committedAt = [], st_now = []\<rparr>"
    obtain x r' where body: "settle_resume_body ?st re (Inl []) r = (x, r')" by (cases "settle_resume_body ?st re (Inl []) r")
    from settle_resume_step [OF rok _ _ body] Resuming fits state att
      on_record_run [where m = "settle_resume_body ?st re (Inl [])", OF r body]
    show ?thesis
      by (intro exI [of _ "SettleResume ?st runId re (Inl [])"] exI [of _ r']) (auto simp: settle_resume_def status_def update_conv')
  qed
qed

section \<open>A concrete history\<close>

fun perform_all :: "collation \<Rightarrow> runner_op list \<Rightarrow> runner_system \<Rightarrow> runner_system option" where
  "perform_all ck [] s = Some s"
| "perform_all ck (op # ops) s = (case perform ck op s of None \<Rightarrow> None | Some s' \<Rightarrow> perform_all ck ops s')"

lemma perform_all_reachable: "runner_reachable ck s \<Longrightarrow> perform_all ck ops s = Some s' \<Longrightarrow> runner_reachable ck s'"
  by (induction ops arbitrary: s) (auto split: option.splits intro: runner_reachable.performed)

definition demo_ordering :: collation where
  "demo_ordering = map of_char"

definition demo_start :: PlanRunStartRequest where
  "demo_start = \<lparr>rs_protocol = ''p'', rs_requestId = ''q'', rs_idempotencyKey = ''k'', rs_requestedAt = ''t'',
     rs_skillRef = ''s'', rs_executionEnvironment = Server, rs_ingredients = [], rs_goals = [''g(x)''], rs_goalSpec = None,
     rs_parameters = [], rs_security = \<lparr>sc_principal = demo_principal, sc_access = no_access, sc_establishedBy = ''h'',
       sc_authorizedAt = ''t''\<rparr>\<rparr>"

definition demo_secret :: PlanRunContinuation where
  "demo_secret = \<lparr>co_continuationId = ''c'', co_kind = SecretContinuation, co_schema = ''s'', co_subject = None,
     co_prompt = ''password'', co_persistence = MetadataOnly, co_state = OpenContinuation\<rparr>"

definition demo_result :: PlanRunExecutionResult where
  "demo_result = \<lparr>x_artifactIds = None, x_completedStepIds = None, x_remainingGoals = Some [''g(x)''],
     x_registryRevision = None, x_policyDecisionIds = None, x_output = None, x_continuation = Some demo_secret\<rparr>"

definition demo_stamps :: stamps where
  "demo_stamps = \<lparr>st_checkpointId = ''i'', st_committedAt = ''t'', st_now = ''t''\<rparr>"

definition demo_ops :: "runner_op list" where
  "demo_ops = [Start ''t'' ''r1'' demo_start, BeginRun ''t'' ''t'' ''r1'', SettleRun demo_stamps ''r1'' (Inr demo_result),
     Resume ''t'' ''r1'' (Submit ''q'' ''c'' SecretContinuation (JsStr ''hunter2''))]"

text \<open>The runner after the secret was submitted; the executor is running again.\<close>

definition demo_history :: runner_system where
  "demo_history = (case perform_all demo_ordering demo_ops new_system of Some s \<Rightarrow> s | None \<Rightarrow> new_system)"

definition demo_run :: PlanRunRecord where
  "demo_run = (case status ''r1'' (sy_runner demo_history) of Some r \<Rightarrow> r | None \<Rightarrow> new_record [] [] demo_start)"

lemma demo_reachable: "runner_reachable demo_ordering demo_history"
  unfolding demo_history_def
  by (auto intro: runner_reachable.initially perform_all_reachable split: option.split)

lemma demo_status: "status ''r1'' (sy_runner demo_history) = Some demo_run"
proof -
  have "status ''r1'' (sy_runner demo_history) \<noteq> None" by code_simp
  then show ?thesis by (auto simp: demo_run_def)
qed

lemma demo_running: "h_state demo_run = Running"
  by code_simp

lemma demo_command: "request_of demo_run = demo_start"
  by code_simp

theorem runner_invariant_witness: "system_ok demo_ordering demo_history"
  by (rule runner_invariant [OF demo_reachable])

theorem runner_revisions_witness:
  "\<exists>s'::runner_system. \<exists>r'::PlanRunRecord. perform demo_ordering (Cancel ''t'' ''r1'') demo_history = Some s' \<and>
     status ''r1'' (sy_runner s') = Some r' \<and> (r' = demo_run \<or> h_revision demo_run < h_revision r')"
proof -
  obtain s' where s': "perform demo_ordering (Cancel ''t'' ''r1'') demo_history = Some s'" by simp
  from runner_revisions [OF demo_reachable s' demo_status] s' show ?thesis by blast
qed

theorem start_idempotent_witness:
  "start demo_ordering ''u'' ''r2'' demo_start (sy_runner demo_history) = (Inr (handle demo_run, False), sy_runner demo_history)"
  using start_idempotent [OF demo_reachable demo_status, of demo_start]
  by (simp add: demo_command) (simp add: demo_start_def portable_record_def)


theorem run_not_stuck_witness:
  "\<exists>op::runner_op. \<exists>s'::runner_system. \<exists>r'::PlanRunRecord. perform demo_ordering op demo_history = Some s' \<and>
     status ''r1'' (sy_runner s') = Some r' \<and> h_state r' \<noteq> h_state demo_run"
  using run_not_stuck [OF demo_reachable demo_status] by (simp add: demo_running)

end
