(* ===== verification/Runner_Host.thy ===== *)
theory Runner_Host
  imports Plan_Executor Runner
begin

text \<open>
  services/actor-runner/src: the executors a server runner is composed of.  execution.ts (the zero-step
  reference), application-executor.ts (routing by skill) and host.ts (the server's execution host, which is
  closed until it is configured).
\<close>

section \<open>The zero-step executor\<close>

definition executeAlreadySatisfied :: "PlanRunStartRequest \<Rightarrow> PlanRunExecutionResult res" where
  "executeAlreadySatisfied request =
     (let facts = map in_predicate (rs_ingredients request);
          remainingGoals = filter (\<lambda>goal. goal \<notin> set facts) (rs_goals request) in
      if remainingGoals \<noteq> [] then Inl (Err ''no actor executor is registered for the requested goal'')
      else Inr \<lparr>x_artifactIds = None, x_completedStepIds = None, x_remainingGoals = Some [], x_registryRevision = None,
             x_policyDecisionIds = None, x_output = None, x_continuation = None\<rparr>)"

section \<open>Routing by skill\<close>

type_synonym ('w, 'c) executor = "PlanRunStartRequest \<Rightarrow> 'c \<Rightarrow> ('w, PlanRunExecutionResult) io"

record ('w, 'c) ApplicationSkillExecutor =
  ap_skillRef :: string
  ap_execute :: "('w, 'c) executor"

definition createApplicationExecutor :: "('w, 'c) ApplicationSkillExecutor list \<Rightarrow> ('w, 'c) executor \<Rightarrow> ('w, 'c) executor res" where
  "createApplicationExecutor applications fallback =
     (let bySkill = map_from (map (\<lambda>a. (ap_skillRef a, ap_execute a)) applications) in
      if length bySkill \<noteq> length applications then Inl (Err ''application skill executors must be unique'')
      else Inr (\<lambda>request context. orelse (map_of bySkill (rs_skillRef request)) fallback request context))"

section \<open>The server's host\<close>

record 'w ServerActorHostDependencies =
  registryFor :: "PlanRunStartRequest \<Rightarrow> ('w, ActorRegistrySnapshot) io"
  authorizerFor :: "PlanRunStartRequest \<Rightarrow> ('w, 'w authorizer) io"
  factoriesFor :: "PlanRunStartRequest \<Rightarrow> ('w, 'w factories) io"
  artifactsFor :: "PlanRunStartRequest \<Rightarrow> ('w, 'w artifacts) io"
  resourceFor :: "(PlanRunStartRequest \<Rightarrow> ('w, json_record option) io) option"
  affordancesFor :: "(PlanRunStartRequest \<Rightarrow> ('w, AffordanceDefinition list) io) option"
  relatedIngredientsFor :: "(PlanRunStartRequest \<Rightarrow> ('w, Ingredient list) io) option"

text \<open>The parser and the collation of the platform are parameters of the host.\<close>

definition createServerActorExecutionHost :: "(string \<Rightarrow> json res) \<Rightarrow> collation \<Rightarrow> 'w ServerActorHostDependencies \<Rightarrow>
    'w ActorExecutionHost" where
  "createServerActorExecutionHost parse ck dependencies =
     \<lparr>ho_executionEnvironment = Server, ho_registry = registryFor dependencies, ho_authorizer = authorizerFor dependencies,
      ho_factories = factoriesFor dependencies, ho_artifacts = artifactsFor dependencies,
      ho_resource = orelse (resourceFor dependencies) (\<lambda>_. return None),
      ho_affordances = orelse (affordancesFor dependencies) (\<lambda>_. return []),
      ho_relatedIngredients = orelse (relatedIngredientsFor dependencies) (\<lambda>_. return []),
      ho_parse = parse, ho_collation = ck\<rparr>"

definition unconfigured :: "('w, 'a) io" where
  "unconfigured = throw (Err ''the server Actor Store adapter is not configured'')"

text \<open>The factories of the closed host resolve nothing, so their other operations are never called.\<close>

definition failClosedDependencies :: "string \<Rightarrow> 'w ServerActorHostDependencies" where
  "failClosedDependencies now =
     \<lparr>registryFor = \<lambda>_. return (snapshot now newRegistry),
      authorizerFor = \<lambda>_. return (\<lambda>_. return (Deny ''deny:server-host-unconfigured'' ''ACTOR_HOST_UNCONFIGURED'')),
      factoriesFor = \<lambda>_. return \<lparr>fp_resolve = \<lambda>_. return None, fp_assess = \<lambda>_ _. unconfigured, fp_spawn = \<lambda>_ _ _. unconfigured,
        fp_deliver = \<lambda>_ _ _. unconfigured, fp_release = \<lambda>_. unconfigured\<rparr>,
      artifactsFor = \<lambda>_. return \<lparr>ap_resolve = \<lambda>_ _. unconfigured, ap_publish = \<lambda>_. unconfigured\<rparr>,
      resourceFor = None, affordancesFor = None, relatedIngredientsFor = None\<rparr>"

section \<open>Properties\<close>

lemma route_map:
  assumes "distinct (map ap_skillRef applications)"
  shows "map_of (map_from (map (\<lambda>a. (ap_skillRef a, ap_execute a)) applications)) skill =
    map_option ap_execute (find (\<lambda>a. ap_skillRef a = skill) applications)"
proof -
  have "map_from (map (\<lambda>a. (ap_skillRef a, ap_execute a)) applications) = map (\<lambda>a. (ap_skillRef a, ap_execute a)) applications"
    by (rule map_from_distinct) (use assms in \<open>simp add: comp_def\<close>)
  moreover have "map_of (map (\<lambda>a. (ap_skillRef a, ap_execute a)) applications) skill =
      map_option ap_execute (find (\<lambda>a. ap_skillRef a = skill) applications)"
    by (induction applications) auto
  ultimately show ?thesis by simp
qed

text \<open>Composition succeeds exactly when no skill is installed twice, and then every request goes to the executor of
  its skill, or to the fallback when there is none.\<close>

theorem application_routing:
  "createApplicationExecutor applications fallback =
     (if distinct (map ap_skillRef applications)
      then Inr (\<lambda>request context. case find (\<lambda>a. ap_skillRef a = rs_skillRef request) applications of
             Some a \<Rightarrow> ap_execute a request context
           | None \<Rightarrow> fallback request context)
      else Inl (Err ''application skill executors must be unique''))"
proof -
  have len: "length (map_from (map (\<lambda>a. (ap_skillRef a, ap_execute a)) applications)) = length applications \<longleftrightarrow>
      distinct (map ap_skillRef applications)"
    using length_map_from_iff [of "map (\<lambda>a. (ap_skillRef a, ap_execute a)) applications"] by (simp add: comp_def)
  show ?thesis
  proof (cases "distinct (map ap_skillRef applications)")
    case True
    then show ?thesis
      unfolding createApplicationExecutor_def Let_def len route_map [OF True]
      by (auto simp: fun_eq_iff split: option.split)
  next
    case False
    then show ?thesis unfolding createApplicationExecutor_def Let_def len by simp
  qed
qed

lemma closed_snapshot: "sn_definitions (snapshot now newRegistry) = []"
  by (simp add: snapshot_def newRegistry_def)

lemma return_simps:
  "on_world (return x) = return x" "both (return x) (return y) = return (x, y)" "appending f (return v) = return v"
  "bind_io (return x) g = g x"
  by (auto simp: on_world_def both_def appending_def return_def bind_io_def fun_eq_iff)

lemma closed_view:
  "sn_definitions registry = [] \<Longrightarrow> authorizeRegistryForPlanning ck registry who decide options =
     return \<lparr>v_registryRevision = sn_revision registry, v_capturedAt = sn_capturedAt registry, v_principal = who,
       v_access = orelse (po_access options) no_access, v_capabilities = []\<rparr>"
  by (simp add: authorizeRegistryForPlanning_def return_simps)

lemma closed_program: "plan_program ck env request v = Inr p \<Longrightarrow> v_capabilities v = [] \<Longrightarrow> pp_steps p = []"
  using plan_program_placed [of ck env request v p] by (cases "pp_steps p") (auto simp: placed_in_def)

lemma zero_step_trace:
  "pp_steps p = [] \<Longrightarrow> triple (on_trace q) (run_program host request registry authorizer view p) (\<lambda>_. on_trace q) (\<lambda>_. on_trace q)"
  unfolding run_program_def by (auto intro!: triple_bind [OF run_output_trace] trace_return)

lemma closed_host:
  fixes parse ck now
  defines "host \<equiv> createServerActorExecutionHost parse ck (failClosedDependencies now)"
  shows "triple (on_trace (\<lambda>tr. tr = [])) (createActorPlanExecutor host request)
     (\<lambda>_. on_trace (\<lambda>tr. tr = [])) (\<lambda>_. on_trace (\<lambda>tr. tr = []))"
proof (cases "rs_executionEnvironment request = ho_executionEnvironment host")
  case True
  have ports: "ho_registry host request = return (snapshot now newRegistry)"
    "\<exists>authorizer. ho_authorizer host request = return authorizer"
    by (simp_all add: host_def createServerActorExecutionHost_def failClosedDependencies_def) (rule exI, rule refl)
  then obtain authorizer where auth: "ho_authorizer host request = return authorizer" by blast
  show ?thesis
    unfolding createActorPlanExecutor_def ports(1) auth return_simps closed_view [OF closed_snapshot] prod.case
    using True
    by (auto intro!: trace_lift zero_step_trace dest: closed_program)
qed (auto simp: createActorPlanExecutor_def intro!: trace_throw)

text \<open>The closed host asks, resolves, spawns and publishes nothing: no run makes a single call of a port.\<close>

theorem closed_host_calls_nothing:
  "run_trace (createServerActorExecutionHost parse ck (failClosedDependencies now)) request w = []"
  using closed_host [of parse ck now request]
  by (cases "createActorPlanExecutor (createServerActorExecutionHost parse ck (failClosedDependencies now)) request ([], w)")
    (auto simp: run_trace_def triple_def on_trace_def split: sum.splits dest: spec [of _ w])

end
