(* ===== verification/Actor.thy ===== *)
theory Actor
  imports Machine Registry Systems
begin

text \<open>
  libs/aven-actors/src/actor.ts, the class \<open>Actor\<close>: its handlers and derived interface, and its mailbox.
  The sandboxed session (\<open>applyEvent\<close>, \<open>shapeModelText\<close>) is the QuickJS machine behind a port: what a handler
  does is an input of the mailbox's steps.
\<close>

section \<open>Handlers\<close>

text \<open>A handler given by the host, or the generic adapter of a declared event.\<close>

datatype 'h handler = Own 'h | Adapter string

type_synonym 'h handlers = "(string, 'h handler) jsmap"

text \<open>The operator \<open>in\<close> on a plain object.\<close>

definition knows :: "'h handlers \<Rightarrow> string \<Rightarrow> bool" where
  "knows hs method \<longleftrightarrow> has hs method \<or> method \<in> set prototype_names"

definition bind_handlers :: "'h handlers \<Rightarrow> 'h handlers \<Rightarrow> 'h handlers" where
  "bind_handlers hs late = foldl (\<lambda>m (k, h). AList.update k h m) hs late"

text \<open>\<open>list?.[0]\<close>.\<close>

definition first_of :: "'a list option \<Rightarrow> 'a option" where
  "first_of xs = (case xs of Some (x # _) \<Rightarrow> Some x | _ \<Rightarrow> None)"

definition bind_predicate :: "string \<Rightarrow> 'h handlers \<Rightarrow> Predicate option \<Rightarrow> 'h handlers" where
  "bind_predicate send hs p =
     (case truthy p of
        None \<Rightarrow> hs
      | Some predicate \<Rightarrow>
          if knows hs (functor_of predicate) then hs
          else AList.update (functor_of predicate) (Adapter send) hs)"

definition bind_method :: "'h handlers \<Rightarrow> MethodSpec \<Rightarrow> 'h handlers" where
  "bind_method hs method =
     (case truthy (ms_event method) of
        None \<Rightarrow> hs
      | Some send \<Rightarrow>
          foldl (bind_predicate send) (AList.update (ms_name method) (Adapter send) hs)
            [first_of (ms_produces method), first_of (ms_requires method)])"

section \<open>The actor\<close>

record 'h actor_self =
  as_manifest :: Manifest
  as_uuid :: string
  as_instanceName :: string
  as_handlers :: "'h handlers"
  as_contracts :: "iface option"

datatype 'h Actor = Actor (self: "'h actor_self") (members: "'h Actor list")

text \<open>The contracts a machine declares, when it declares any.\<close>

definition machine_contracts :: "Manifest \<Rightarrow> iface option" where
  "machine_contracts manifest =
     (case truthy (m_machine manifest) of
        None \<Rightarrow> None
      | Some source \<Rightarrow>
          let c = contractsOf (parseProgram source) in
          if if_requires c \<noteq> [] \<or> if_produces c \<noteq> [] then Some c else None)"

definition newActor :: "string \<Rightarrow> Manifest \<Rightarrow> 'h handlers \<Rightarrow> 'h Actor" where
  "newActor uuid manifest hs =
     Actor \<lparr>as_manifest = manifest, as_uuid = uuid, as_instanceName = m_id manifest,
        as_handlers = foldl bind_method hs (m_methods manifest), as_contracts = machine_contracts manifest\<rparr> []"

definition own_interface :: "'h actor_self \<Rightarrow> iface" where
  "own_interface a =
     (let manifest = as_manifest a; c = as_contracts a in
      \<lparr>if_requires = uniq ((case c of Some i \<Rightarrow> if_requires i | None \<Rightarrow> orelse (m_requires manifest) []) @
         concat (map (\<lambda>m. orelse (ms_requires m) []) (m_methods manifest))),
       if_produces = uniq ((case c of Some i \<Rightarrow> if_produces i | None \<Rightarrow> orelse (m_produces manifest) []) @
         concat (map (\<lambda>m. orelse (ms_produces m) []) (m_methods manifest)))\<rparr>)"

text \<open>The getters \<open>requires\<close> and \<open>produces\<close>; members are a tree.\<close>

fun actor_interface :: "'h Actor \<Rightarrow> iface" where
  "actor_interface (Actor a ms) =
     (if ms \<noteq> [] then compositeInterface (map actor_interface ms) else own_interface a)"

definition actor_requires :: "'h Actor \<Rightarrow> Predicate list" where
  "actor_requires a = if_requires (actor_interface a)"

definition actor_produces :: "'h Actor \<Rightarrow> Predicate list" where
  "actor_produces a = if_produces (actor_interface a)"

definition handles :: "'h Actor \<Rightarrow> string \<Rightarrow> bool" where
  "handles a method \<longleftrightarrow> knows (as_handlers (self a)) method"

abbreviation actor_uuid :: "'h Actor \<Rightarrow> string" where
  "actor_uuid a \<equiv> as_uuid (self a)"

abbreviation actor_manifest :: "'h Actor \<Rightarrow> Manifest" where
  "actor_manifest a \<equiv> as_manifest (self a)"

text \<open>What the registry reads of an actor.\<close>

definition registrable_of :: "'h Actor \<Rightarrow> registrable" where
  "registrable_of a =
     \<lparr>ra_manifest = actor_manifest a, ra_requires = actor_requires a, ra_produces = actor_produces a,
      ra_uuid = actor_uuid a, ra_instanceName = as_instanceName (self a)\<rparr>"

section \<open>The mailbox\<close>

record message =
  mg_id :: nat  \<comment> \<open>the promise its sender holds\<close>
  mg_method :: string

text \<open>What the pump waits for: the handler of a message, in its first or second attempt, or the answer of
  \<open>#handle\<close> to a message without handler.\<close>

datatype pumping = Calling message nat | Answering message HandlerResult

record mailbox =
  mb_queue :: "message list"
  mb_pumping :: "pumping option"
  mb_failures :: nat
  mb_lastError :: "string option"
  mb_answers :: "(nat \<times> HandlerResult) list"  \<comment> \<open>the promises resolved, in order\<close>
  mb_calls :: "(nat \<times> nat) list"  \<comment> \<open>the calls of handlers: message and attempt\<close>

definition error_result :: "string \<Rightarrow> HandlerResult" where
  "error_result text =
     \<lparr>hr_record = stringify (JObj [(''ok'', JBool False), (''error'', JStr text)]), hr_wire = text\<rparr>"

text \<open>The loop of \<open>#pump\<close> up to its next \<open>await\<close>.\<close>

definition next_message :: "(string \<Rightarrow> bool) \<Rightarrow> string \<Rightarrow> mailbox \<Rightarrow> mailbox" where
  "next_message known name mb =
     (case mb_queue mb of
        [] \<Rightarrow> mb\<lparr>mb_pumping := None\<rparr>
      | m # rest \<Rightarrow>
          if known (mg_method m)
          then mb\<lparr>mb_queue := rest, mb_pumping := Some (Calling m 0), mb_calls := mb_calls mb @ [(mg_id m, 0)]\<rparr>
          else mb\<lparr>mb_queue := rest,
                  mb_pumping := Some (Answering m (error_result (name @ '' does not know '' @ mg_method m)))\<rparr>)"

definition deliver :: "(string \<Rightarrow> bool) \<Rightarrow> string \<Rightarrow> message \<Rightarrow> mailbox \<Rightarrow> mailbox" where
  "deliver known name m mb =
     (let mb' = mb\<lparr>mb_queue := mb_queue mb @ [m]\<rparr> in
      case mb_pumping mb of Some _ \<Rightarrow> mb' | None \<Rightarrow> next_message known name mb')"

definition answer_message :: "(string \<Rightarrow> bool) \<Rightarrow> string \<Rightarrow> message \<Rightarrow> HandlerResult \<Rightarrow> mailbox \<Rightarrow> mailbox" where
  "answer_message known name m r mb = next_message known name (mb\<lparr>mb_answers := mb_answers mb @ [(mg_id m, r)]\<rparr>)"

text \<open>The handler that is running returns a result or throws; the answer to an unknown method comes at once.\<close>

datatype mail_op = Deliver message | Returns HandlerResult | Throws string | Answered_unknown

fun mailbox_step :: "(string \<Rightarrow> bool) \<Rightarrow> string \<Rightarrow> mailbox \<Rightarrow> mail_op \<Rightarrow> mailbox" where
  "mailbox_step known name mb (Deliver m) = deliver known name m mb"
| "mailbox_step known name mb (Returns r) =
     (case mb_pumping mb of Some (Calling m _) \<Rightarrow> answer_message known name m r mb | _ \<Rightarrow> mb)"
| "mailbox_step known name mb (Throws reason) =
     (case mb_pumping mb of
        Some (Calling m attempt) \<Rightarrow>
          if attempt = 0
          then mb\<lparr>mb_pumping := Some (Calling m 1), mb_calls := mb_calls mb @ [(mg_id m, 1)]\<rparr>
          else answer_message known name m (error_result (mg_method m @ '' failed: '' @ reason))
                 (mb\<lparr>mb_failures := mb_failures mb + 1, mb_lastError := Some (mg_method m @ '': '' @ reason)\<rparr>)
      | _ \<Rightarrow> mb)"
| "mailbox_step known name mb Answered_unknown =
     (case mb_pumping mb of Some (Answering m r) \<Rightarrow> answer_message known name m r mb | _ \<Rightarrow> mb)"

definition new_mailbox :: mailbox where
  "new_mailbox = \<lparr>mb_queue = [], mb_pumping = None, mb_failures = 0, mb_lastError = None, mb_answers = [], mb_calls = []\<rparr>"

definition mailbox_after :: "(string \<Rightarrow> bool) \<Rightarrow> string \<Rightarrow> mail_op list \<Rightarrow> mailbox" where
  "mailbox_after known name ops = foldl (mailbox_step known name) new_mailbox ops"

section \<open>A queue with one server\<close>

text \<open>What a mailbox promises its senders: messages wait in arrival order and are answered from the front.\<close>

record served_queue =
  waiting :: "nat list"
  served :: "nat list"

datatype queue_op = Arrive nat | Serve

fun queue_step :: "served_queue \<Rightarrow> queue_op \<Rightarrow> served_queue" where
  "queue_step q (Arrive i) = q\<lparr>waiting := waiting q @ [i]\<rparr>"
| "queue_step q Serve = (case waiting q of [] \<Rightarrow> q | i # rest \<Rightarrow> \<lparr>waiting = rest, served = served q @ [i]\<rparr>)"

fun pumped :: "pumping option \<Rightarrow> nat list" where
  "pumped None = []"
| "pumped (Some (Calling m _)) = [mg_id m]"
| "pumped (Some (Answering m _)) = [mg_id m]"

definition queue_of :: "mailbox \<Rightarrow> served_queue" where
  "queue_of mb = \<lparr>waiting = pumped (mb_pumping mb) @ map mg_id (mb_queue mb), served = map fst (mb_answers mb)\<rparr>"

text \<open>The operation of the queue a step of the mailbox amounts to: the first throw of a handler is none.\<close>

fun queue_ops :: "mailbox \<Rightarrow> mail_op \<Rightarrow> queue_op list" where
  "queue_ops mb (Deliver m) = [Arrive (mg_id m)]"
| "queue_ops mb (Returns r) = (case mb_pumping mb of Some (Calling m k) \<Rightarrow> [Serve] | _ \<Rightarrow> [])"
| "queue_ops mb (Throws reason) =
     (case mb_pumping mb of Some (Calling m k) \<Rightarrow> (if k = 0 then [] else [Serve]) | _ \<Rightarrow> [])"
| "queue_ops mb Answered_unknown = (case mb_pumping mb of Some (Answering m r) \<Rightarrow> [Serve] | _ \<Rightarrow> [])"

lemma next_waiting:
  "pumped (mb_pumping (next_message known name mb)) @ map mg_id (mb_queue (next_message known name mb)) =
   map mg_id (mb_queue mb)"
  "mb_answers (next_message known name mb) = mb_answers mb"
  by (simp_all add: next_message_def split: list.split)

lemma mailbox_simulates:
  "queue_of (mailbox_step known name mb op) = foldl queue_step (queue_of mb) (queue_ops mb op)"
  by (cases op)
    (auto simp: queue_of_def deliver_def answer_message_def next_waiting Let_def split: option.split pumping.split)

text \<open>The promises resolved and those waiting are the promises given, in order.\<close>

definition all_arrived :: "served_queue \<Rightarrow> nat list" where
  "all_arrived q = served q @ waiting q"

fun arrivals :: "mail_op list \<Rightarrow> nat list" where
  "arrivals [] = []"
| "arrivals (Deliver m # ops) = mg_id m # arrivals ops"
| "arrivals (_ # ops) = arrivals ops"

lemma queue_step_arrived: "all_arrived (queue_step q op) = all_arrived q @ (case op of Arrive i \<Rightarrow> [i] | Serve \<Rightarrow> [])"
  by (cases op) (auto simp: all_arrived_def split: list.split)

lemma step_arrived:
  "all_arrived (queue_of (mailbox_step known name mb op)) = all_arrived (queue_of mb) @ arrivals [op]"
  unfolding mailbox_simulates by (cases op) (auto simp: queue_step_arrived simp del: queue_step.simps split: option.split pumping.split)

lemma run_arrived:
  "all_arrived (queue_of (foldl (mailbox_step known name) mb ops)) = all_arrived (queue_of mb) @ arrivals ops"
proof (induction ops arbitrary: mb)
  case (Cons op ops)
  then have "all_arrived (queue_of (foldl (mailbox_step known name) mb (op # ops))) =
      all_arrived (queue_of mb) @ arrivals [op] @ arrivals ops" by (simp add: step_arrived)
  moreover have "arrivals [op] @ arrivals ops = arrivals (op # ops)" by (cases op) simp_all
  ultimately show ?case by simp
qed simp

section \<open>Attempts\<close>

text \<open>The calls of the messages in order, each message with its number of attempts.\<close>

definition grouped :: "(nat \<times> nat) list \<Rightarrow> (nat \<times> nat) list" where
  "grouped counts = concat (map (\<lambda>(i, n). map (Pair i) [0..<n]) counts)"

fun current_attempts :: "pumping option \<Rightarrow> (nat \<times> nat) list" where
  "current_attempts (Some (Calling m k)) = [(mg_id m, Suc k)]"
| "current_attempts _ = []"

text \<open>The pump never rests while messages wait, handlers run in arrival order, one at a time, at most twice for
  each message.\<close>

definition mailbox_ok :: "mailbox \<Rightarrow> bool" where
  "mailbox_ok mb \<longleftrightarrow>
     (mb_pumping mb = None \<longrightarrow> mb_queue mb = []) \<and>
     (\<exists>counts. map fst counts = map fst (mb_answers mb) \<and>
        mb_calls mb = grouped (counts @ current_attempts (mb_pumping mb)) \<and>
        list_all (\<lambda>(_, n). n \<le> 2) (counts @ current_attempts (mb_pumping mb)))"

lemma grouped_snoc: "grouped (counts @ [(i, n)]) = grouped counts @ map (Pair i) [0..<n]"
  by (simp add: grouped_def)

lemma mailbox_okI:
  "(mb_pumping mb = None \<Longrightarrow> mb_queue mb = []) \<Longrightarrow> map fst counts = map fst (mb_answers mb) \<Longrightarrow>
   mb_calls mb = grouped (counts @ current_attempts (mb_pumping mb)) \<Longrightarrow>
   list_all (\<lambda>(_, n). n \<le> 2) (counts @ current_attempts (mb_pumping mb)) \<Longrightarrow> mailbox_ok mb"
  unfolding mailbox_ok_def by blast

text \<open>The pump takes the next message when the calls so far are those of the answered messages.\<close>

lemma next_ok:
  assumes "map fst counts = map fst (mb_answers mb)" "mb_calls mb = grouped counts" "list_all (\<lambda>(_, n). n \<le> 2) counts"
  shows "mailbox_ok (next_message known name mb)"
proof (cases "mb_queue mb")
  case (Cons m rest)
  show ?thesis
    by (cases "known (mg_method m)"; rule mailbox_okI [where counts = counts])
      (use assms Cons in \<open>auto simp: next_message_def grouped_snoc\<close>)
qed (use assms in \<open>auto simp: next_message_def intro!: mailbox_okI\<close>)

lemma answer_ok:
  assumes "map fst counts = map fst (mb_answers mb)" "mb_calls mb = grouped (counts @ [(mg_id m, n)])"
    "list_all (\<lambda>(_, n). n \<le> 2) (counts @ [(mg_id m, n)])"
  shows "mailbox_ok (answer_message known name m r mb)"
  unfolding answer_message_def by (rule next_ok [where counts = "counts @ [(mg_id m, n)]"]) (use assms in auto)

lemma mailbox_step_ok: "mailbox_ok mb \<Longrightarrow> mailbox_ok (mailbox_step known name mb op)"
proof -
  assume "mailbox_ok mb"
  then obtain counts where ok: "mb_pumping mb = None \<longrightarrow> mb_queue mb = []" "map fst counts = map fst (mb_answers mb)"
    "mb_calls mb = grouped (counts @ current_attempts (mb_pumping mb))"
    "list_all (\<lambda>(_, n). n \<le> 2) (counts @ current_attempts (mb_pumping mb))"
    unfolding mailbox_ok_def by (elim conjE exE) (rule that)
  note same = \<open>mailbox_ok mb\<close>
  show ?thesis
  proof (cases op)
    case (Deliver m)
    show ?thesis
    proof (cases "mb_pumping mb")
      case None
      have "mailbox_ok (next_message known name (mb\<lparr>mb_queue := mb_queue mb @ [m]\<rparr>))"
        by (rule next_ok [where counts = counts]) (use ok None in auto)
      with None Deliver show ?thesis by (simp add: deliver_def)
    next
      case (Some p)
      have "mailbox_ok (mb\<lparr>mb_queue := mb_queue mb @ [m]\<rparr>)"
        by (rule mailbox_okI [where counts = counts]) (use ok Some in auto)
      with Some Deliver show ?thesis by (simp add: deliver_def)
    qed
  next
    case (Returns r)
    show ?thesis
    proof (cases "\<exists>m k. mb_pumping mb = Some (Calling m k)")
      case True
      then obtain m k where p: "mb_pumping mb = Some (Calling m k)" by blast
      have "mailbox_ok (answer_message known name m r mb)" by (rule answer_ok [where counts = counts and n = "Suc k"]) (use ok p in auto)
      with Returns p show ?thesis by simp
    qed (use Returns same in \<open>auto split: option.split pumping.split\<close>)
  next
    case (Throws reason)
    show ?thesis
    proof (cases "\<exists>m k. mb_pumping mb = Some (Calling m k)")
      case True
      then obtain m k where p: "mb_pumping mb = Some (Calling m k)" by blast
      show ?thesis
      proof (cases k)
        case 0
        have "mailbox_ok (mb\<lparr>mb_pumping := Some (Calling m 1), mb_calls := mb_calls mb @ [(mg_id m, 1)]\<rparr>)"
          by (rule mailbox_okI [where counts = counts]) (use ok p 0 in \<open>auto simp: grouped_snoc numeral_2_eq_2\<close>)
        with Throws p 0 show ?thesis by simp
      next
        case (Suc j)
        have "mailbox_ok (answer_message known name m (error_result (mg_method m @ '' failed: '' @ reason))
            (mb\<lparr>mb_failures := mb_failures mb + 1, mb_lastError := Some (mg_method m @ '': '' @ reason)\<rparr>))"
          by (rule answer_ok [where counts = counts and n = "Suc k"]) (use ok p in auto)
        with Throws p Suc show ?thesis by simp
      qed
    qed (use Throws same in \<open>auto split: option.split pumping.split\<close>)
  next
    case Answered_unknown
    show ?thesis
    proof (cases "\<exists>m r. mb_pumping mb = Some (Answering m r)")
      case True
      then obtain m r where p: "mb_pumping mb = Some (Answering m r)" by blast
      have "mailbox_ok (answer_message known name m r mb)"
        by (rule answer_ok [where counts = counts and n = 0]) (use ok p in \<open>auto simp: grouped_snoc\<close>)
      with Answered_unknown p show ?thesis by simp
    qed (use Answered_unknown same in \<open>auto split: option.split pumping.split\<close>)
  qed
qed

interpretation mailbox_queue: simulation "mailbox_step known name" queue_step queue_of queue_ops for known name
  by unfold_locales (rule mailbox_simulates)

interpretation mailbox_runs: invariant_system new_mailbox "mailbox_step known name" mailbox_ok for known name
proof
  show "mailbox_ok new_mailbox"
    by (rule mailbox_okI [where counts = "[]"]) (simp_all add: new_mailbox_def grouped_def)
qed (rule mailbox_step_ok)

section \<open>Properties\<close>

text \<open>The mailbox implements a queue with one server: every step of it is the given operation of the queue on the
  promises it holds.\<close>

theorem mailbox_refines_queue:
  "queue_of (mailbox_step known name mb op) = foldl queue_step (queue_of mb) (queue_ops mb op)"
  by (rule mailbox_queue.simulated)

text \<open>C26. Whatever the handlers do, the promises are resolved in the order the messages arrived, each exactly once, the
  pump does not rest while a message waits, and handlers run one at a time in that order, at most twice for a
  message.\<close>

theorem mailbox_in_order:
  "map fst (mb_answers (mailbox_after known name ops)) @ waiting (queue_of (mailbox_after known name ops)) = arrivals ops \<and>
   mailbox_ok (mailbox_after known name ops)"
proof -
  have "all_arrived (queue_of (mailbox_after known name ops)) = arrivals ops"
    using run_arrived [of known name new_mailbox ops]
    by (simp add: mailbox_after_def) (simp add: all_arrived_def queue_of_def new_mailbox_def)
  moreover have "served (queue_of (mailbox_after known name ops)) = map fst (mb_answers (mailbox_after known name ops))"
    by (simp add: queue_of_def)
  moreover have "mailbox_ok (mailbox_after known name ops)"
    unfolding mailbox_after_def by (rule mailbox_runs.always)
  ultimately show ?thesis by (simp add: all_arrived_def)
qed

end
