(* ===== verification/Bus.thy ===== *)
theory Bus
  imports Actor Effects
begin

text \<open>
  libs/aven-actors/src/bus.ts: the directory of actors, the routing of envelopes and emissions, the human gate
  in front of the methods that declare one, and the flow graph derived from the contracts.  The number of the
  next envelope, a variable of the module, is part of the bus.
\<close>

section \<open>The directory\<close>

record Envelope =
  en_id :: string
  en_from :: string
  en_to :: string
  en_method :: string
  en_payload :: json_record

record HeldMessage =
  hm_id :: string
  hm_actor :: string
  hm_method :: string
  hm_label :: string
  hm_detail :: string
  hm_context :: "string option"
  hm_preview :: "json option"

text \<open>What a confirmation runs: the envelope of a held dispatch, or an action of the application, which may have a
  way to reject it.\<close>

datatype held_action = SendEnvelope Envelope | Review string bool

record 'h bus =
  bu_actors :: "(string, 'h Actor) jsmap"
  bu_byName :: "(string, string) jsmap"
  bu_registry :: ActorRegistry
  bu_next :: nat
  bu_onHold :: bool  \<comment> \<open>whether a listener for held messages is set\<close>
  bu_held :: "(string, held_action) jsmap"
  bu_resolving :: "string list"
  bu_changes :: nat  \<comment> \<open>calls of \<open>onChange\<close>\<close>
  bu_disposed :: "string list"  \<comment> \<open>the actors whose sessions were freed\<close>
  bu_announced :: "HeldMessage list"  \<comment> \<open>calls of \<open>onHold\<close>\<close>
  bu_resolved :: "string list"  \<comment> \<open>calls of \<open>onHeldResolved\<close>\<close>

type_synonym ('h, 'a) bus_step = "('h bus, 'a) io"

definition newBus :: "bool \<Rightarrow> 'h bus" where
  "newBus onHold =
     \<lparr>bu_actors = [], bu_byName = [], bu_registry = newRegistry, bu_next = 0, bu_onHold = onHold, bu_held = [],
      bu_resolving = [], bu_changes = 0, bu_disposed = [], bu_announced = [], bu_resolved = []\<rparr>"

definition actors :: "'h bus \<Rightarrow> 'h Actor list" where
  "actors b = map_values (bu_actors b)"

definition get :: "'h bus \<Rightarrow> string \<Rightarrow> 'h Actor option" where
  "get b ref =
     (case map_of (bu_actors b) ref of
        Some a \<Rightarrow> Some a
      | None \<Rightarrow> map_of (bu_actors b) (orelse (map_of (bu_byName b) ref) []))"

definition add_name :: "string \<Rightarrow> string \<Rightarrow> (string, string) jsmap \<Rightarrow> (string, string) jsmap" where
  "add_name name uuid names = (if has names name then names else AList.update name uuid names)"

definition on_registry :: "(ActorRegistry, 'a) io \<Rightarrow> ('h, 'a) bus_step" where
  "on_registry m = (\<lambda>b. case m (bu_registry b) of (r, reg) \<Rightarrow> (r, b\<lparr>bu_registry := reg\<rparr>))"

definition change :: "('h bus \<Rightarrow> 'h bus) \<Rightarrow> ('h, unit) bus_step" where
  "change f = (\<lambda>b. (Inr (), f b))"

definition enter :: "'h Actor \<Rightarrow> 'h bus \<Rightarrow> 'h bus" where
  "enter a b =
     b\<lparr>bu_actors := AList.update (actor_uuid a) a (bu_actors b),
       bu_byName := add_name (as_instanceName (self a)) (actor_uuid a)
         (add_name (m_id (actor_manifest a)) (actor_uuid a) (bu_byName b))\<rparr>"

definition register :: "'h Actor \<Rightarrow> ('h, unit) bus_step" where
  "register a =
     bind_io (change (enter a)) (\<lambda>_.
     bind_io (on_registry (registerActor (registrable_of a) plain_register)) (\<lambda>_.
     change (\<lambda>b. b\<lparr>bu_changes := bu_changes b + 1\<rparr>)))"

definition leave :: "string \<Rightarrow> 'h bus \<Rightarrow> 'h bus" where
  "leave uuid b =
     b\<lparr>bu_actors := AList.delete uuid (bu_actors b),
       bu_byName := filter (\<lambda>(_, u). u \<noteq> uuid) (bu_byName b)\<rparr>"

definition unregister :: "string \<Rightarrow> ('h, unit) bus_step" where
  "unregister ref = (\<lambda>b.
     case get b ref of
       None \<Rightarrow> (Inr (), b)
     | Some a \<Rightarrow>
         bind_io (change (leave (actor_uuid a))) (\<lambda>_.
         bind_io (on_registry (withdrawInstance (actor_uuid a))) (\<lambda>_.
         change (\<lambda>b. b\<lparr>bu_disposed := bu_disposed b @ [actor_uuid a], bu_changes := bu_changes b + 1\<rparr>))) b)"

section \<open>Routing\<close>

text \<open>An envelope is delivered into the mailbox of the actor with the address, or answered at once.\<close>

datatype routed = Delivered string string json_record | Refused HandlerResult

definition send :: "'h bus \<Rightarrow> Envelope \<Rightarrow> routed" where
  "send b env =
     (case get b (en_to env) of
        None \<Rightarrow> Refused (error_result (''no actor '' @ en_to env))
      | Some a \<Rightarrow> Delivered (actor_uuid a) (en_method env) (en_payload env))"

definition numbered :: "string \<Rightarrow> nat \<Rightarrow> string" where
  "numbered prefix n = prefix @ string_of_nat n"

definition subscribers :: "'h bus \<Rightarrow> Predicate \<Rightarrow> 'h Actor list" where
  "subscribers b predicate =
     filter (\<lambda>a. list_ex (\<lambda>r. unifiable r predicate) (actor_requires a) \<and> handles a (functor_of predicate)) (actors b)"

text \<open>\<open>emit\<close>: the envelopes are numbered and sent in order; they are addressed by the template's name.\<close>

definition emission :: "'h bus \<Rightarrow> Predicate \<Rightarrow> json_record \<Rightarrow> string \<Rightarrow> Envelope list" where
  "emission b predicate payload from =
     map (\<lambda>(i, t). \<lparr>en_id = numbered ''env_'' (bu_next b + i), en_from = from, en_to = m_id (actor_manifest t),
            en_method = functor_of predicate, en_payload = payload\<rparr>)
       (enumerate 0 (subscribers b predicate))"

definition emit :: "Predicate \<Rightarrow> json_record \<Rightarrow> string \<Rightarrow> ('h, routed list) bus_step" where
  "emit predicate payload from = (\<lambda>b.
     let envelopes = emission b predicate payload from in
     (Inr (map (send b) envelopes), b\<lparr>bu_next := bu_next b + length envelopes\<rparr>))"

section \<open>The human gate\<close>

definition send_spec :: MethodSpec where
  "send_spec =
     \<lparr>ms_name = ''send'',
      ms_description = ''Send one message to one actor: the universal envelope. Use when no named tool fits.'',
      ms_parameters = [(''type'', JStr ''object''),
        (''properties'', JObj [
          (''to'', JObj [(''type'', JStr ''string''), (''description'', JStr ''Actor id or name.'')]),
          (''method'', JObj [(''type'', JStr ''string''), (''description'', JStr ''The method to deliver.'')]),
          (''payload'', JObj [(''type'', JStr ''object''), (''additionalProperties'', JBool True)])]),
        (''required'', JArr [JStr ''to'', JStr ''method''])],
      ms_mode = None, ms_idempotency = None, ms_cost = None, ms_requires = None, ms_produces = None,
      ms_inputSlots = None, ms_outputSlots = None, ms_event = None, ms_hitl = None\<rparr>"

definition add_spec :: "MethodSpec list \<Rightarrow> MethodSpec \<Rightarrow> MethodSpec list" where
  "add_spec specs m = (if ms_name m \<in> ms_name ` set specs then specs else specs @ [m])"

definition toolSpecs :: "'h bus \<Rightarrow> MethodSpec list" where
  "toolSpecs b = foldl add_spec [] (concat (map (\<lambda>a. m_methods (actor_manifest a)) (actors b))) @ [send_spec]"

datatype dispatched = Sent routed | Answered HandlerResult

text \<open>The label of the gate a method is behind.\<close>

definition gate_of :: "'h Actor \<Rightarrow> string \<Rightarrow> string option" where
  "gate_of a method =
     (case find (\<lambda>m. ms_name m = method) (m_methods (actor_manifest a)) of
        None \<Rightarrow> None
      | Some spec \<Rightarrow> truthy (ms_hitl spec))"

definition held_result :: "string \<Rightarrow> string \<Rightarrow> HandlerResult" where
  "held_result i label =
     \<lparr>hr_record = stringify (JObj [(''ok'', JBool True), (''held'', JStr i), (''confirmation'', JStr ''required'')]),
      hr_wire = label @ '' -- held for the human. A button press in the HUD confirms; voice cannot confirm. '' @
        ''Tell the user to press Confirm or Reject.''\<rparr>"

definition hold :: "HeldMessage \<Rightarrow> held_action \<Rightarrow> 'h bus \<Rightarrow> 'h bus" where
  "hold m action b =
     b\<lparr>bu_held := AList.update (hm_id m) action (bu_held b), bu_announced := bu_announced b @ [m]\<rparr>"

definition dispatch :: "string \<Rightarrow> string \<Rightarrow> json_record \<Rightarrow> ('h, dispatched) bus_step" where
  "dispatch from method payload = (\<lambda>b.
     case find (\<lambda>a. handles a method) (actors b) of
       None \<Rightarrow> (Inr (Answered (error_result (''unknown tool '' @ method))), b)
     | Some owner \<Rightarrow>
         let envelope = \<lparr>en_id = numbered ''env_'' (bu_next b), en_from = from, en_to = actor_uuid owner,
               en_method = method, en_payload = payload\<rparr>;
             b1 = b\<lparr>bu_next := bu_next b + 1\<rparr> in
         (case gate_of owner method of
            None \<Rightarrow> (Inr (Sent (send b1 envelope)), b1)
          | Some label \<Rightarrow>
              if \<not> bu_onHold b then (Inr (Answered (error_result ''human review is unavailable'')), b1)
              else
                let i = numbered ''held_'' (bu_next b1);
                    m = \<lparr>hm_id = i, hm_actor = as_instanceName (self owner), hm_method = method, hm_label = label,
                      hm_detail = stringify (JObj payload), hm_context = None, hm_preview = None\<rparr> in
                (Inr (Answered (held_result i label)),
                 hold m (SendEnvelope envelope) (b1\<lparr>bu_next := bu_next b1 + 1\<rparr>))))"

definition holdAction :: "HeldMessage \<Rightarrow> held_action \<Rightarrow> ('h, unit) bus_step" where
  "holdAction m action = (\<lambda>b.
     if \<not> bu_onHold b then (Inl (Err ''human review is unavailable''), b)
     else if has (bu_held b) (hm_id m) then (Inr (), b)
     else (Inr (), hold m action b))"

text \<open>\<open>confirmHeld\<close> up to the run of the action, and after its end.\<close>

definition begin_confirm :: "string \<Rightarrow> ('h, HandlerResult + held_action) bus_step" where
  "begin_confirm i = (\<lambda>b.
     if i \<in> set (bu_resolving b) then (Inr (Inl (error_result ''review is being saved'')), b)
     else case map_of (bu_held b) i of
       None \<Rightarrow> (Inr (Inl (error_result ''nothing held'')), b)
     | Some action \<Rightarrow> (Inr (Inr action), b\<lparr>bu_resolving := bu_resolving b @ [i]\<rparr>))"

definition says_no :: "json \<Rightarrow> bool" where
  "says_no j = (case j of JObj entries \<Rightarrow> map_of entries ''ok'' = Some (JBool False) | _ \<Rightarrow> False)"

definition forget_held :: "string \<Rightarrow> 'h bus \<Rightarrow> 'h bus" where
  "forget_held i b = b\<lparr>bu_held := AList.delete i (bu_held b), bu_resolved := bu_resolved b @ [i]\<rparr>"

definition finish_resolving :: "string \<Rightarrow> 'h bus \<Rightarrow> 'h bus" where
  "finish_resolving i b = b\<lparr>bu_resolving := remove1 i (bu_resolving b)\<rparr>"

definition end_confirm :: "(string \<Rightarrow> json res) \<Rightarrow> string \<Rightarrow> HandlerResult res \<Rightarrow> ('h, HandlerResult) bus_step" where
  "end_confirm parse i outcome = (\<lambda>b.
     let finished = finish_resolving i b in
     case outcome of
       Inl e \<Rightarrow> (Inl e, finished)
     | Inr result \<Rightarrow>
         (case parse (hr_record result) of
            Inl e \<Rightarrow> (Inl e, finished)
          | Inr record \<Rightarrow>
              if says_no record then (Inr result, finished)
              else (Inr result, forget_held i finished)))"

text \<open>\<open>rejectHeld\<close>: whether it runs, and its end.\<close>

definition begin_reject :: "string \<Rightarrow> ('h, bool) bus_step" where
  "begin_reject i = (\<lambda>b.
     if i \<in> set (bu_resolving b) then (Inr False, b) else (Inr True, b\<lparr>bu_resolving := bu_resolving b @ [i]\<rparr>))"

definition end_reject :: "string \<Rightarrow> unit res \<Rightarrow> ('h, unit) bus_step" where
  "end_reject i outcome = (\<lambda>b.
     let finished = finish_resolving i b in
     case outcome of Inl e \<Rightarrow> (Inl e, finished) | Inr _ \<Rightarrow> (Inr (), forget_held i finished))"

section \<open>The flow graph\<close>

record DerivedEdge =
  ed_from :: string
  ed_to :: string
  ed_predicate :: Predicate

definition edges :: "'h bus \<Rightarrow> DerivedEdge list" where
  "edges b = concat (map (\<lambda>producer. concat (map (\<lambda>consumer.
     if actor_uuid consumer = actor_uuid producer then []
     else concat (map (\<lambda>need.
       if list_ex (\<lambda>p. unifiable p need) (actor_produces producer)
       then [\<lparr>ed_from = m_id (actor_manifest producer), ed_to = m_id (actor_manifest consumer), ed_predicate = functor_of need\<rparr>]
       else []) (actor_requires consumer))) (actors b))) (actors b))"

definition ready :: "Predicate list \<Rightarrow> Predicate list \<Rightarrow> 'h Actor \<Rightarrow> bool" where
  "ready allProduced known a =
     list_all (\<lambda>r. list_ex (\<lambda>k. unifiable k r) known \<or> \<not> list_ex (\<lambda>p. unifiable p r) allProduced) (actor_requires a)"

text \<open>The loop of \<open>stages\<close>; actors are told apart by their addresses.\<close>

function stages_loop :: "Predicate list \<Rightarrow> Predicate list \<Rightarrow> 'h Actor list \<Rightarrow> 'h Actor list list" where
  "stages_loop allProduced known pending =
     (if pending = [] then []
      else if filter (ready allProduced known) pending = [] then [pending]
      else filter (ready allProduced known) pending #
        stages_loop allProduced (known @ concat (map actor_produces (filter (ready allProduced known) pending)))
          (filter (\<lambda>a. \<not> ready allProduced known a) pending))"
  by pat_completeness auto
termination
proof (relation "measure (\<lambda>(_, _, pending). length pending)", goal_cases)
  case (2 allProduced known pending)
  have "length (filter (\<lambda>a. \<not> ready allProduced known a) pending) < length pending"
    using 2(2) sum_length_filter_compl [of "ready allProduced known" pending] by (simp flip: length_greater_0_conv)
  then show ?case by simp
qed simp

declare stages_loop.simps [simp del]

definition stages :: "'h bus \<Rightarrow> 'h Actor list list" where
  "stages b = stages_loop (concat (map actor_produces (actors b))) [] (actors b)"

section \<open>The model lane\<close>

text \<open>What \<open>llmLane\<close> makes of the answer of the \<open>llm\<close> actor.\<close>

definition lane_answer :: "(string \<Rightarrow> json res) \<Rightarrow> HandlerResult \<Rightarrow> string res" where
  "lane_answer parse result =
     (case parse (hr_record result) of
        Inl _ \<Rightarrow> Inl (Err (hr_wire result))
      | Inr JNull \<Rightarrow> Inl (Err (hr_wire result))
      | Inr record \<Rightarrow>
          if says_no record then Inl (Err (hr_wire result))
          else Inr (case record of
              JObj entries \<Rightarrow> (case map_of entries ''text'' of None \<Rightarrow> [] | Some JNull \<Rightarrow> [] | Some t \<Rightarrow> js_String t)
            | _ \<Rightarrow> []))"

definition extractJson :: "(string \<Rightarrow> json res) \<Rightarrow> string \<Rightarrow> json" where
  "extractJson parse text = (case parse text of Inl _ \<Rightarrow> JNull | Inr j \<Rightarrow> j)"

end
