(* ===== verification/Gate.thy ===== *)
theory Gate
  imports Bus
begin

text \<open>
  The human gate of the bus under every interleaving of its calls: it implements, for each held message, the
  small automaton of \<open>gate_spec\<close>, and nothing behind a gate is sent without it.
\<close>

section \<open>What the gate promises\<close>

text \<open>For each identity: nothing is held, a message waits for the human, or its confirmation is running.\<close>

datatype phase = Idle | Waiting | Running_action

datatype gate_event =
    Held_message string
  | Started_action string
  | Kept_message string  \<comment> \<open>the action failed or said no: the message stays\<close>
  | Confirmed_message string
  | Rejected_message string
  | Sent_directly "string option"  \<comment> \<open>the gate of the method\<close>

definition move :: "string \<Rightarrow> phase \<Rightarrow> phase \<Rightarrow> (string \<Rightarrow> phase) \<Rightarrow> (string \<Rightarrow> phase) option" where
  "move i from to p = (if p i = from then Some (p(i := to)) else None)"

fun gate_spec :: "(string \<Rightarrow> phase) \<Rightarrow> gate_event \<Rightarrow> (string \<Rightarrow> phase) option" where
  "gate_spec p (Held_message i) = move i Idle Waiting p"
| "gate_spec p (Started_action i) = move i Waiting Running_action p"
| "gate_spec p (Kept_message i) = move i Running_action Waiting p"
| "gate_spec p (Confirmed_message i) = move i Running_action Idle p"
| "gate_spec p (Rejected_message i) = move i Waiting Idle p"
| "gate_spec p (Sent_directly gate) = (if gate = None then Some p else None)"

abbreviation gate_run :: "gate_event list \<Rightarrow> (string \<Rightarrow> phase) \<Rightarrow> (string \<Rightarrow> phase) option" where
  "gate_run es p \<equiv> follow gate_spec p es"

section \<open>The calls of the bus\<close>

text \<open>The resolutions whose action is running.\<close>

datatype flight = Confirming | Rejecting

record 'h gate_system =
  gs_bus :: "'h bus"
  gs_flights :: "(string \<times> flight) list"
  gs_events :: "gate_event list"

datatype 'h gate_op =
    DoRegister "'h Actor"
  | DoUnregister string
  | DoDispatch string string json_record
  | DoHold HeldMessage held_action
  | BeginConfirm string
  | EndConfirm string "HandlerResult res"
  | BeginReject string
  | EndReject string "unit res"

definition record_events :: "gate_event list \<Rightarrow> 'h gate_system \<Rightarrow> 'h gate_system" where
  "record_events es s = s\<lparr>gs_events := gs_events s @ es\<rparr>"

definition dispatch_events :: "'h bus \<Rightarrow> 'h bus \<Rightarrow> string \<Rightarrow> dispatched \<Rightarrow> gate_event list" where
  "dispatch_events b b' method d =
     (case d of
        Sent _ \<Rightarrow> [Sent_directly (case find (\<lambda>a. handles a method) (actors b) of None \<Rightarrow> None | Some a \<Rightarrow> gate_of a method)]
      | Answered _ \<Rightarrow> map (\<lambda>m. Held_message (hm_id m)) (drop (length (bu_announced b)) (bu_announced b')))"

definition end_flight :: "string \<Rightarrow> flight \<Rightarrow> 'h gate_system \<Rightarrow> 'h gate_system" where
  "end_flight i f s = s\<lparr>gs_flights := remove1 (i, f) (gs_flights s)\<rparr>"

fun gate_step :: "(string \<Rightarrow> json res) \<Rightarrow> 'h gate_system \<Rightarrow> 'h gate_op \<Rightarrow> 'h gate_system" where
  "gate_step parse s (DoRegister a) = s\<lparr>gs_bus := snd (register a (gs_bus s))\<rparr>"
| "gate_step parse s (DoUnregister ref) = s\<lparr>gs_bus := snd (unregister ref (gs_bus s))\<rparr>"
| "gate_step parse s (DoDispatch from method payload) =
     (case dispatch from method payload (gs_bus s) of
        (Inl _, b) \<Rightarrow> s\<lparr>gs_bus := b\<rparr>
      | (Inr d, b) \<Rightarrow> record_events (dispatch_events (gs_bus s) b method d) (s\<lparr>gs_bus := b\<rparr>))"
| "gate_step parse s (DoHold m action) =
     (case holdAction m action (gs_bus s) of (_, b) \<Rightarrow>
        record_events (if length (bu_announced b) = length (bu_announced (gs_bus s)) then [] else [Held_message (hm_id m)])
          (s\<lparr>gs_bus := b\<rparr>))"
| "gate_step parse s (BeginConfirm i) =
     (case begin_confirm i (gs_bus s) of
        (Inr (Inr _), b) \<Rightarrow> record_events [Started_action i] (s\<lparr>gs_bus := b, gs_flights := gs_flights s @ [(i, Confirming)]\<rparr>)
      | (_, b) \<Rightarrow> s\<lparr>gs_bus := b\<rparr>)"
| "gate_step parse s (EndConfirm i outcome) =
     (if (i, Confirming) \<notin> set (gs_flights s) then s
      else case end_confirm parse i outcome (gs_bus s) of (_, b) \<Rightarrow>
        record_events [if has (bu_held b) i then Kept_message i else Confirmed_message i] (end_flight i Confirming (s\<lparr>gs_bus := b\<rparr>)))"
| "gate_step parse s (BeginReject i) =
     (case begin_reject i (gs_bus s) of
        (Inr True, b) \<Rightarrow> s\<lparr>gs_bus := b, gs_flights := gs_flights s @ [(i, Rejecting)]\<rparr>
      | (_, b) \<Rightarrow> s\<lparr>gs_bus := b\<rparr>)"
| "gate_step parse s (EndReject i outcome) =
     (if (i, Rejecting) \<notin> set (gs_flights s) then s
      else case end_reject i outcome (gs_bus s) of (_, b) \<Rightarrow>
        record_events (if has (bu_held (gs_bus s)) i \<and> \<not> has (bu_held b) i then [Rejected_message i] else [])
          (end_flight i Rejecting (s\<lparr>gs_bus := b\<rparr>)))"

definition gate_after :: "(string \<Rightarrow> json res) \<Rightarrow> bool \<Rightarrow> 'h gate_op list \<Rightarrow> 'h gate_system" where
  "gate_after parse onHold ops =
     foldl (gate_step parse) \<lparr>gs_bus = newBus onHold, gs_flights = [], gs_events = []\<rparr> ops"

definition phase_of :: "'h gate_system \<Rightarrow> string \<Rightarrow> phase" where
  "phase_of s i =
     (if \<not> has (bu_held (gs_bus s)) i then Idle
      else if (i, Confirming) \<in> set (gs_flights s) then Running_action
      else Waiting)"

text \<open>Applications choose identities of their own for the reviews they hold, not those of the bus.\<close>

fun own_identity :: "'h gate_op \<Rightarrow> bool" where
  "own_identity (DoHold m action) \<longleftrightarrow> \<not> startsWith ''held_'' (hm_id m)"
| "own_identity _ \<longleftrightarrow> True"

section \<open>The gate keeps its promise\<close>

definition gate_ok :: "'h gate_system \<Rightarrow> bool" where
  "gate_ok s \<longleftrightarrow>
     gate_run (gs_events s) (\<lambda>_. Idle) = Some (phase_of s) \<and>
     bu_resolving (gs_bus s) = map fst (gs_flights s) \<and> distinct (map fst (gs_flights s)) \<and>
     (\<forall>i. (i, Confirming) \<in> set (gs_flights s) \<longrightarrow> has (bu_held (gs_bus s)) i) \<and>
     (\<forall>n. has (bu_held (gs_bus s)) (numbered ''held_'' n) \<longrightarrow> n < bu_next (gs_bus s))"

text \<open>A step that records events is right when they take the phases from before to after.\<close>

lemma gate_runs:
  "gate_run (gs_events s) (\<lambda>_. Idle) = Some (phase_of s) \<Longrightarrow> gate_run es (phase_of s) = Some (phase_of s') \<Longrightarrow>
   gs_events s' = gs_events s @ es \<Longrightarrow> gate_run (gs_events s') (\<lambda>_. Idle) = Some (phase_of s')"
  by (simp add: follow_append)

lemma same_gate:
  assumes "gate_ok s" "bu_held (gs_bus s') = bu_held (gs_bus s)" "bu_resolving (gs_bus s') = bu_resolving (gs_bus s)"
    "bu_next (gs_bus s) \<le> bu_next (gs_bus s')" "gs_flights s' = gs_flights s" "gs_events s' = gs_events s"
  shows "gate_ok s'"
proof -
  have "phase_of s' = phase_of s" by (simp add: fun_eq_iff phase_of_def assms)
  with assms show ?thesis unfolding gate_ok_def by auto
qed

lemma register_gate:
  "bu_held (snd (register a b)) = bu_held b" "bu_resolving (snd (register a b)) = bu_resolving b"
  "bu_next (snd (register a b)) = bu_next b"
  by (simp_all add: register_def bind_io_def change_def on_registry_def enter_def split: prod.split sum.split)

lemma unregister_gate:
  "bu_held (snd (unregister ref b)) = bu_held b" "bu_resolving (snd (unregister ref b)) = bu_resolving b"
  "bu_next (snd (unregister ref b)) = bu_next b"
  by (auto simp: unregister_def bind_io_def change_def on_registry_def leave_def split: prod.split sum.split option.split)

lemma numbered_inject: "numbered p m = numbered p n \<longleftrightarrow> m = n"
  unfolding numbered_def by (metis append_same_eq nat_of_digits_string_of_nat same_append_eq)

lemma hold_ok:
  assumes ok: "gate_ok s" and new: "\<not> has (bu_held (gs_bus s)) (hm_id m)"
    and own: "\<And>n. hm_id m = numbered ''held_'' n \<Longrightarrow> n < bu_next (gs_bus s')"
    and s': "bu_held (gs_bus s') = AList.update (hm_id m) action (bu_held (gs_bus s))"
      "bu_resolving (gs_bus s') = bu_resolving (gs_bus s)" "bu_next (gs_bus s) \<le> bu_next (gs_bus s')"
      "gs_flights s' = gs_flights s" "gs_events s' = gs_events s @ [Held_message (hm_id m)]"
  shows "gate_ok s'"
proof -
  from ok new have free: "(hm_id m, Confirming) \<notin> set (gs_flights s)" by (auto simp: gate_ok_def)
  then have "phase_of s' = (phase_of s)(hm_id m := Waiting)"
    by (auto simp: fun_eq_iff phase_of_def s')
  moreover have "phase_of s (hm_id m) = Idle" using new by (simp add: phase_of_def)
  ultimately have "gate_run (gs_events s') (\<lambda>_. Idle) = Some (phase_of s')"
    using ok by (intro gate_runs [OF _ _ s'(5)]) (simp_all add: gate_ok_def move_def)
  with ok own show ?thesis
    unfolding gate_ok_def s' has_update by (auto intro: less_le_trans [OF _ s'(3)])
qed

lemma dispatch_ok:
  assumes ok: "gate_ok s"
  shows "gate_ok (gate_step parse s (DoDispatch from method payload))"
proof (cases "find (\<lambda>a. handles a method) (actors (gs_bus s))")
  case None
  then show ?thesis by (auto simp: dispatch_def dispatch_events_def record_events_def intro: same_gate [OF ok])
next
  case (Some owner)
  show ?thesis
  proof (cases "gate_of owner method")
    case None
    let ?s = "gate_step parse s (DoDispatch from method payload)"
    have events: "gs_events ?s = gs_events s @ [Sent_directly None]"
      and rest: "bu_held (gs_bus ?s) = bu_held (gs_bus s)" "bu_resolving (gs_bus ?s) = bu_resolving (gs_bus s)"
        "bu_next (gs_bus ?s) = Suc (bu_next (gs_bus s))" "gs_flights ?s = gs_flights s"
      using Some None by (simp_all add: dispatch_def dispatch_events_def record_events_def Let_def)
    have phase: "phase_of ?s = phase_of s" unfolding phase_of_def [abs_def] rest by (simp add: fun_eq_iff)
    have "gate_run (gs_events ?s) (\<lambda>_. Idle) = Some (phase_of ?s)"
      unfolding events phase follow_append using ok by (simp add: gate_ok_def)
    with ok show ?thesis unfolding gate_ok_def rest by auto
  next
    case (Some label)
    note gated = \<open>find _ _ = Some owner\<close> Some
    show ?thesis
    proof (cases "bu_onHold (gs_bus s)")
      case False
      with gated show ?thesis
        by (auto simp: dispatch_def dispatch_events_def record_events_def Let_def intro: same_gate [OF ok])
    next
      case True
      let ?i = "numbered ''held_'' (Suc (bu_next (gs_bus s)))"
      let ?m = "\<lparr>hm_id = ?i, hm_actor = as_instanceName (self owner), hm_method = method, hm_label = label,
          hm_detail = stringify (JObj payload), hm_context = None, hm_preview = None\<rparr>"
      have new: "\<not> has (bu_held (gs_bus s)) (hm_id ?m)" 
      proof
        assume "has (bu_held (gs_bus s)) (hm_id ?m)"
        then have "has (bu_held (gs_bus s)) ?i" by simp
        with ok have "Suc (bu_next (gs_bus s)) < bu_next (gs_bus s)" unfolding gate_ok_def by blast
        then show False by simp
      qed
      show ?thesis
        by (rule hold_ok [OF ok new]) (use gated True in
            \<open>auto simp: dispatch_def dispatch_events_def record_events_def Let_def hold_def numbered_inject\<close>)
    qed
  qed
qed

lemma hold_step_ok:
  assumes ok: "gate_ok s" and own: "\<not> startsWith ''held_'' (hm_id m)"
  shows "gate_ok (gate_step parse s (DoHold m action))"
proof (cases "bu_onHold (gs_bus s) \<and> \<not> has (bu_held (gs_bus s)) (hm_id m)")
  case True
  from own have foreign: "hm_id m \<noteq> numbered ''held_'' n" for n by (auto simp: numbered_def startsWith_def)
  from True have new: "\<not> has (bu_held (gs_bus s)) (hm_id m)" by simp
  show ?thesis
    by (rule hold_ok [OF ok new]) (use True foreign in \<open>auto simp: holdAction_def record_events_def hold_def\<close>)
next
  case False
  then show ?thesis by (auto simp: holdAction_def record_events_def intro: same_gate [OF ok])
qed

lemma begin_confirm_ok:
  assumes ok: "gate_ok s"
  shows "gate_ok (gate_step parse s (BeginConfirm i))"
proof (cases "i \<in> set (bu_resolving (gs_bus s)) \<or> map_of (bu_held (gs_bus s)) i = None")
  case True
  then show ?thesis by (auto simp: begin_confirm_def intro: same_gate [OF ok])
next
  case False
  then obtain action where held: "map_of (bu_held (gs_bus s)) i = Some action" and free: "i \<notin> set (bu_resolving (gs_bus s))" by auto
  let ?s = "gate_step parse s (BeginConfirm i)"
  have events: "gs_events ?s = gs_events s @ [Started_action i]" and rest: "bu_held (gs_bus ?s) = bu_held (gs_bus s)"
      "bu_resolving (gs_bus ?s) = bu_resolving (gs_bus s) @ [i]" "bu_next (gs_bus ?s) = bu_next (gs_bus s)"
      "gs_flights ?s = gs_flights s @ [(i, Confirming)]"
    using held free by (simp_all add: begin_confirm_def record_events_def)
  have has: "has (bu_held (gs_bus s)) i" using held by (simp add: has_map_of)
  have idle: "i \<notin> fst ` set (gs_flights s)" using ok free by (auto simp: gate_ok_def)
  then have free: "(i, Confirming) \<notin> set (gs_flights s)" by (metis fst_conv image_eqI)
  have "phase_of ?s = (phase_of s)(i := Running_action)"
    unfolding phase_of_def [abs_def] rest using has by (simp add: fun_eq_iff)
  moreover have "phase_of s i = Waiting" using has free by (simp add: phase_of_def)
  ultimately have "gate_run (gs_events ?s) (\<lambda>_. Idle) = Some (phase_of ?s)"
    using ok by (intro gate_runs [OF _ _ events]) (simp_all add: gate_ok_def move_def)
  with ok has idle show ?thesis unfolding gate_ok_def rest by auto
qed

lemma end_flight_ok:
  assumes ok: "gate_ok s" and fl: "(i, f) \<in> set (gs_flights s)"
    and held: "\<And>j. has (bu_held b) j \<longleftrightarrow> has (bu_held (gs_bus s)) j \<and> (j = i \<longrightarrow> keep)"
    and s': "bu_held (gs_bus s') = bu_held b" "bu_resolving (gs_bus s') = remove1 i (bu_resolving (gs_bus s))"
      "bu_next (gs_bus s') = bu_next (gs_bus s)" "gs_flights s' = remove1 (i, f) (gs_flights s)"
    and events: "gs_events s' = gs_events s @ es"
      "gate_run es (phase_of s) = Some ((phase_of s)(i := if has (bu_held b) i then Waiting else Idle))"
  shows "gate_ok s'"
proof -
  from ok have dist: "distinct (map fst (gs_flights s))" and res: "bu_resolving (gs_bus s) = map fst (gs_flights s)"
    by (simp_all add: gate_ok_def)
  note fls = s'(4) [unfolded remove1_key [OF dist fl]]
  have "phase_of s' = (phase_of s)(i := if has (bu_held b) i then Waiting else Idle)"
    unfolding phase_of_def [abs_def] s'(1) fls using held by (auto simp: fun_eq_iff)
  then have run: "gate_run (gs_events s') (\<lambda>_. Idle) = Some (phase_of s')"
    using ok events by (simp add: gate_ok_def follow_append)
  have "bu_resolving (gs_bus s') = map fst (gs_flights s')"
    using s'(2,4) remove1_keys [OF dist fl] res by simp
  moreover have "distinct (map fst (gs_flights s'))" unfolding fls by (rule distinct_map_filter) (rule dist)
  moreover have "has (bu_held (gs_bus s')) j" if "(j, Confirming) \<in> set (gs_flights s')" for j
    using that ok held unfolding fls s'(1) gate_ok_def by auto
  moreover have "n < bu_next (gs_bus s')" if "has (bu_held (gs_bus s')) (numbered ''held_'' n)" for n
    using that ok held unfolding s'(1,3) gate_ok_def by blast
  ultimately show ?thesis using run unfolding gate_ok_def by blast
qed

lemma end_confirm_ok:
  assumes ok: "gate_ok s"
  shows "gate_ok (gate_step parse s (EndConfirm i outcome))"
proof (cases "(i, Confirming) \<in> set (gs_flights s)")
  case fl: True
  let ?b = "snd (end_confirm parse i outcome (gs_bus s))"
  from ok fl have held: "has (bu_held (gs_bus s)) i" by (auto simp: gate_ok_def)
  obtain keep where k: "bu_held ?b = (if keep then bu_held (gs_bus s) else AList.delete i (bu_held (gs_bus s)))"
    and rest: "bu_resolving ?b = remove1 i (bu_resolving (gs_bus s))" "bu_next ?b = bu_next (gs_bus s)"
  proof
    let ?keep = "case outcome of Inl _ \<Rightarrow> True | Inr result \<Rightarrow> (case parse (hr_record result) of Inl _ \<Rightarrow> True | Inr j \<Rightarrow> says_no j)"
    show "bu_held ?b = (if ?keep then bu_held (gs_bus s) else AList.delete i (bu_held (gs_bus s)))"
      "bu_resolving ?b = remove1 i (bu_resolving (gs_bus s))" "bu_next ?b = bu_next (gs_bus s)"
      by (simp_all add: end_confirm_def Let_def finish_resolving_def forget_held_def split: sum.split)
  qed
  have keys: "has (bu_held ?b) j \<longleftrightarrow> has (bu_held (gs_bus s)) j \<and> (j = i \<longrightarrow> keep)" for j
    unfolding k by (auto simp: has_map_of)
  have "phase_of s i = Running_action" using held fl by (simp add: phase_of_def)
  then have run: "gate_run [if has (bu_held ?b) i then Kept_message i else Confirmed_message i] (phase_of s) =
      Some ((phase_of s)(i := if has (bu_held ?b) i then Waiting else Idle))" by (simp add: move_def)
  show ?thesis
    by (rule end_flight_ok [OF ok fl keys, where es = "[if has (bu_held ?b) i then Kept_message i else Confirmed_message i]"])
      (use fl run rest in \<open>simp_all add: record_events_def end_flight_def split_def\<close>)
qed (simp add: ok)

lemma begin_reject_ok:
  assumes ok: "gate_ok s"
  shows "gate_ok (gate_step parse s (BeginReject i))"
proof (cases "i \<in> set (bu_resolving (gs_bus s))")
  case True
  then show ?thesis by (auto simp: begin_reject_def intro: same_gate [OF ok])
next
  case False
  let ?s = "gate_step parse s (BeginReject i)"
  have rest: "bu_held (gs_bus ?s) = bu_held (gs_bus s)" "bu_resolving (gs_bus ?s) = bu_resolving (gs_bus s) @ [i]"
      "bu_next (gs_bus ?s) = bu_next (gs_bus s)" "gs_flights ?s = gs_flights s @ [(i, Rejecting)]" "gs_events ?s = gs_events s"
    using False by (simp_all add: begin_reject_def)
  have idle: "i \<notin> fst ` set (gs_flights s)" using ok False by (auto simp: gate_ok_def)
  have "phase_of ?s = phase_of s" unfolding phase_of_def [abs_def] rest by (simp add: fun_eq_iff)
  with ok idle show ?thesis unfolding gate_ok_def rest by auto
qed

lemma end_reject_ok:
  assumes ok: "gate_ok s"
  shows "gate_ok (gate_step parse s (EndReject i outcome))"
proof (cases "(i, Rejecting) \<in> set (gs_flights s)")
  case fl: True
  let ?b = "snd (end_reject i outcome (gs_bus s))"
  have k: "bu_held ?b = (if isl outcome then bu_held (gs_bus s) else AList.delete i (bu_held (gs_bus s)))"
    and rest: "bu_resolving ?b = remove1 i (bu_resolving (gs_bus s))" "bu_next ?b = bu_next (gs_bus s)"
    by (simp_all add: end_reject_def Let_def finish_resolving_def forget_held_def split: sum.split)
  have keys: "has (bu_held ?b) j \<longleftrightarrow> has (bu_held (gs_bus s)) j \<and> (j = i \<longrightarrow> isl outcome)" for j
    unfolding k by (auto simp: has_map_of)
  from ok have dist: "distinct (map fst (gs_flights s))" by (simp add: gate_ok_def)
  have other: "(i, Confirming) \<notin> set (gs_flights s)"
    using eq_key_imp_eq_value [OF dist fl] by auto
  let ?es = "if has (bu_held (gs_bus s)) i \<and> \<not> has (bu_held ?b) i then [Rejected_message i] else []"
  have run: "gate_run ?es (phase_of s) = Some ((phase_of s)(i := if has (bu_held ?b) i then Waiting else Idle))"
    using other keys [of i] by (auto simp: move_def phase_of_def fun_eq_iff)
  show ?thesis
    by (rule end_flight_ok [OF ok fl keys, where es = ?es])
      (use fl run rest in \<open>simp_all add: record_events_def end_flight_def split_def\<close>)
qed (simp add: ok)

lemma gate_step_ok: "gate_ok s \<Longrightarrow> own_identity op \<Longrightarrow> gate_ok (gate_step parse s op)"
proof (cases op)
  case (DoRegister a)
  show "gate_ok s \<Longrightarrow> ?thesis" unfolding DoRegister by (rule same_gate) (simp_all add: register_gate)
next
  case (DoUnregister ref)
  show "gate_ok s \<Longrightarrow> ?thesis" unfolding DoUnregister by (rule same_gate) (simp_all add: unregister_gate)
next
  case (DoHold m action)
  show "gate_ok s \<Longrightarrow> own_identity op \<Longrightarrow> ?thesis" unfolding DoHold by (rule hold_step_ok) simp_all
qed (simp_all only: dispatch_ok begin_confirm_ok end_confirm_ok begin_reject_ok end_reject_ok)

lemma gate_after_ok: "list_all own_identity ops \<Longrightarrow> gate_ok (gate_after parse onHold ops)"
proof -
  have "gate_ok (foldl (gate_step parse) s ops)" if "gate_ok s" "list_all own_identity ops" for s :: "'a gate_system"
    using that by (induction ops arbitrary: s) (simp_all add: gate_step_ok)
  moreover have "gate_ok \<lparr>gs_bus = newBus onHold, gs_flights = [], gs_events = []\<rparr>"
    by (simp add: gate_ok_def newBus_def phase_of_def fun_eq_iff)
  ultimately show "list_all own_identity ops \<Longrightarrow> gate_ok (gate_after parse onHold ops)"
    by (simp add: gate_after_def)
qed

section \<open>Properties\<close>


definition demo_held :: HeldMessage where
  "demo_held = \<lparr>hm_id = ''review'', hm_actor = ''app'', hm_method = ''pay'', hm_label = ''Pay'', hm_detail = [],
     hm_context = None, hm_preview = None\<rparr>"

definition demo_gate_ops :: "unit gate_op list" where
  "demo_gate_ops =
     [DoHold demo_held (Review ''pay'' True), BeginConfirm ''review'', BeginReject ''review'',
      EndConfirm ''review'' (Inl (Err ''offline'')), BeginConfirm ''review'',
      EndConfirm ''review'' (Inr (error_result [])), DoHold demo_held (Review ''pay'' True)]"

definition demo_gate :: "unit gate_system" where
  "demo_gate = gate_after (\<lambda>_. Inr (JObj [(''ok'', JBool True)])) True demo_gate_ops"


end
