(* ===== verification/Flow.thy ===== *)
theory Flow
  imports Bus "HOL-Library.Multiset"
begin

text \<open>
  The directory and the flow graph of the bus: what every sequence of registrations and withdrawals keeps, whom an
  emission reaches, and the order in which \<open>stages\<close> lays out the actors.
\<close>

section \<open>The directory\<close>

datatype 'h directory_op = Join "'h Actor" | Part string

fun directory_step :: "'h bus \<Rightarrow> 'h directory_op \<Rightarrow> 'h bus" where
  "directory_step b (Join a) = snd (register a b)"
| "directory_step b (Part ref) = snd (unregister ref b)"

definition bus_after :: "bool \<Rightarrow> 'h directory_op list \<Rightarrow> 'h bus" where
  "bus_after onHold ops = foldl directory_step (newBus onHold) ops"

text \<open>Actors are stored under their addresses, each name leads to a live actor, and only live actors are advertised.\<close>

definition directory_ok :: "'h bus \<Rightarrow> bool" where
  "directory_ok b \<longleftrightarrow>
     keyed actor_uuid (\<lambda>_. True) (bu_actors b) \<and> distinct (map fst (bu_byName b)) \<and>
     list_all (\<lambda>(_, uuid). has (bu_actors b) uuid) (bu_byName b) \<and>
     list_all (\<lambda>(uuid, _). has (bu_actors b) uuid) (r_instances (bu_registry b)) \<and> registry_ok (bu_registry b)"

lemma add_name_keys: "distinct (map fst names) \<Longrightarrow> distinct (map fst (add_name name uuid names))"
  by (simp add: add_name_def distinct_update)

lemma add_name_live:
  "list_all (\<lambda>(_, u). P u) names \<Longrightarrow> P uuid \<Longrightarrow> list_all (\<lambda>(_, u). P u) (add_name name uuid names)"
  by (auto simp: add_name_def list_all_iff dest!: set_updateD)

lemma registry_step_registers: "snd (registerActor ra opt reg) = registry_step reg (RegisterActor ra opt)"
  by simp

lemma has_list_all: "list_all (\<lambda>(k, _). P k) m \<longleftrightarrow> (\<forall>k. has m k \<longrightarrow> P k)"
  by (fastforce simp: list_all_iff)

lemma registered_instances:
  "has (r_instances (snd (registerActor ra opt reg))) i \<Longrightarrow> i = ra_uuid ra \<or> has (r_instances reg) i"
  by (auto simp: registerActor_eq advertiseInstance_eq registerDefinition_def changed_def advertisement_of_def
      split: sum.splits if_splits)

text \<open>The state after a registration, whether the registry accepts the actor or throws.\<close>

lemma register_fields:
  "bu_actors (snd (register a b)) = bu_actors (enter a b)" "bu_byName (snd (register a b)) = bu_byName (enter a b)"
  "bu_registry (snd (register a b)) = snd (registerActor (registrable_of a) plain_register (bu_registry b))"
  by (simp_all add: register_def bind_io_def change_def on_registry_def enter_def split: prod.split sum.split)

lemma withdraw_total: "fst (withdrawInstance i reg) = Inr ()"
  by (simp add: withdrawInstance_def changed_def)

lemma unregister_fields:
  "get b ref = Some a \<Longrightarrow> bu_actors (snd (unregister ref b)) = AList.delete (actor_uuid a) (bu_actors b)"
  "get b ref = Some a \<Longrightarrow> bu_byName (snd (unregister ref b)) = filter (\<lambda>(_, u). u \<noteq> actor_uuid a) (bu_byName b)"
  "get b ref = Some a \<Longrightarrow> bu_registry (snd (unregister ref b)) = snd (withdrawInstance (actor_uuid a) (bu_registry b))"
  using withdraw_total [of "actor_uuid a" "bu_registry b"]
  by (auto simp: unregister_def bind_io_def change_def on_registry_def leave_def split: prod.split sum.split)

lemma register_ok:
  assumes "directory_ok b"
  shows "directory_ok (snd (register a b))"
proof -
  let ?live = "\<lambda>u. u = actor_uuid a \<or> has (bu_actors b) u"
  have "keyed actor_uuid (\<lambda>_. True) (bu_actors (enter a b))"
    using assms by (simp add: directory_ok_def enter_def keyed_update)
  moreover have "distinct (map fst (bu_byName (enter a b)))"
    using assms by (simp add: directory_ok_def enter_def add_name_keys)
  moreover have "list_all (\<lambda>(_, u). ?live u) (bu_byName b)"
    using assms by (auto simp: directory_ok_def list_all_iff)
  then have "list_all (\<lambda>(_, u). ?live u) (bu_byName (enter a b))"
    by (simp add: enter_def add_name_live)
  moreover have "list_all (\<lambda>(u, _). ?live u) (r_instances (snd (registerActor (registrable_of a) plain_register (bu_registry b))))"
    using assms registered_instances [of _ "registrable_of a" plain_register "bu_registry b"]
    by (auto simp: directory_ok_def has_list_all registrable_of_def)
  moreover have "registry_ok (snd (registerActor (registrable_of a) plain_register (bu_registry b)))"
    using assms registry_runs.preserved unfolding registry_step_registers directory_ok_def by blast
  ultimately show ?thesis by (simp add: directory_ok_def register_fields enter_def)
qed

lemma unregister_ok:
  assumes "directory_ok b"
  shows "directory_ok (snd (unregister ref b))"
proof (cases "get b ref")
  case None
  with assms show ?thesis by (simp add: unregister_def)
next
  case (Some a)
  let ?live = "\<lambda>u. u \<noteq> actor_uuid a \<and> has (bu_actors b) u"
  note fields = unregister_fields [OF Some]
  have "keyed actor_uuid (\<lambda>_. True) (AList.delete (actor_uuid a) (bu_actors b))"
    using assms by (simp add: directory_ok_def keyed_delete)
  moreover have "distinct (map fst (filter (\<lambda>(_, u). u \<noteq> actor_uuid a) (bu_byName b)))"
    using assms by (auto simp: directory_ok_def intro: distinct_map_filter)
  moreover have "list_all (\<lambda>(_, u). ?live u) (filter (\<lambda>(_, u). u \<noteq> actor_uuid a) (bu_byName b))"
    using assms by (auto simp: directory_ok_def list_all_iff)
  moreover have "has (r_instances (snd (withdrawInstance (actor_uuid a) (bu_registry b)))) u \<Longrightarrow> ?live u" for u
    using assms unfolding directory_ok_def has_list_all
    by (auto simp: withdrawInstance_def changed_def has_map_of split: if_splits)
  moreover have "registry_ok (snd (withdrawInstance (actor_uuid a) (bu_registry b)))"
    using assms by (simp add: directory_ok_def ok_withdraw)
  moreover have "?live = has (AList.delete (actor_uuid a) (bu_actors b))"
    by (auto simp: has_map_of fun_eq_iff)
  ultimately show ?thesis unfolding directory_ok_def fields has_list_all by (simp add: fun_eq_iff)
qed

interpretation directory_runs: invariant_system "newBus onHold" directory_step directory_ok for onHold
proof
  show "directory_ok (newBus onHold)" by (simp add: directory_ok_def newBus_def registry_ok_new newRegistry_def [symmetric])
       (simp add: newRegistry_def)
next
  fix b :: "'a bus" and op
  assume "directory_ok b"
  then show "directory_ok (directory_step b op)" by (cases op) (simp_all add: register_ok unregister_ok)
qed

section \<open>Stages\<close>

text \<open>An actor can join when each of its needs is met by what is known, or is an external fact that nobody produces.\<close>

definition can_join :: "Predicate list \<Rightarrow> Predicate list \<Rightarrow> 'h Actor \<Rightarrow> bool" where
  "can_join produced known a \<longleftrightarrow>
     (\<forall>r\<in>set (actor_requires a). (\<exists>k\<in>set known. unifiable k r) \<or> (\<forall>p\<in>set produced. \<not> unifiable p r))"

lemma ready_can_join: "ready produced known a \<longleftrightarrow> can_join produced known a"
  by (simp add: ready_def can_join_def list_all_iff list_ex_iff)

text \<open>A layering: every stage but the last holds exactly the actors that can join after the stages before it; the last
  one may be the rest, when nobody in it can join.\<close>

fun layered :: "Predicate list \<Rightarrow> Predicate list \<Rightarrow> 'h Actor list list \<Rightarrow> bool" where
  "layered produced known [] \<longleftrightarrow> True"
| "layered produced known (stage # rest) \<longleftrightarrow>
     stage \<noteq> [] \<and>
     (if (\<exists>a\<in>set stage. can_join produced known a)
      then (\<forall>a\<in>set stage. can_join produced known a) \<and> (\<forall>a\<in>set (concat rest). \<not> can_join produced known a) \<and>
        layered produced (known @ concat (map actor_produces stage)) rest
      else rest = [])"

lemma stages_loop_layered:
  "mset (concat (stages_loop produced known pending)) = mset pending \<and>
   layered produced known (stages_loop produced known pending)"
proof (induction produced known pending rule: stages_loop.induct)
  case (1 produced known pending)
  let ?ready = "filter (ready produced known) pending"
  let ?rest = "filter (\<lambda>a. \<not> ready produced known a) pending"
  show ?case
  proof (cases "pending = [] \<or> ?ready = []")
    case True
    then show ?thesis
      by (auto simp: stages_loop.simps [of produced known pending] filter_empty_conv ready_can_join [symmetric])
  next
    case False
    let ?later = "stages_loop produced (known @ concat (map actor_produces ?ready)) ?rest"
    from False 1 have IH: "mset (concat ?later) = mset ?rest"
      "layered produced (known @ concat (map actor_produces ?ready)) ?later" by auto
    have loop: "stages_loop produced known pending = ?ready # ?later"
      using False by (simp add: stages_loop.simps [of produced known pending])
    have "set (concat ?later) = set ?rest" using IH(1) by (rule mset_eq_setD)
    then have "\<forall>a\<in>set (concat ?later). \<not> ready produced known a" by auto
    moreover have some: "\<exists>a\<in>set ?ready. ready produced known a" and every: "\<forall>a\<in>set ?ready. ready produced known a"
      using False by (auto simp: filter_empty_conv)
    ultimately have "layered produced known (?ready # ?later)"
      unfolding layered.simps ready_can_join [symmetric] if_P [OF some] using IH(2) False by blast
    moreover have "mset (concat (?ready # ?later)) = mset pending" using IH(1) by simp
    ultimately show ?thesis unfolding loop by blast
  qed
qed

text \<open>When the actors can be ranked so that what somebody produces of the needs of an actor, somebody of lower rank
  does, the loop never meets a pending list without a ready actor.\<close>

definition ranked :: "('h Actor \<Rightarrow> nat) \<Rightarrow> 'h Actor list \<Rightarrow> Predicate list \<Rightarrow> bool" where
  "ranked rank everyone produced \<longleftrightarrow>
     list_all (\<lambda>a. list_all (\<lambda>r. list_ex (\<lambda>p. unifiable p r) produced \<longrightarrow>
         list_ex (\<lambda>c. rank c < rank a \<and> list_ex (\<lambda>p. unifiable p r) (actor_produces c)) everyone)
       (actor_requires a)) everyone"

lemma rankedD:
  "ranked rank everyone produced \<Longrightarrow> a \<in> set everyone \<Longrightarrow> r \<in> set (actor_requires a) \<Longrightarrow>
   list_ex (\<lambda>p. unifiable p r) produced \<Longrightarrow>
   \<exists>c\<in>set everyone. rank c < rank a \<and> list_ex (\<lambda>p. unifiable p r) (actor_produces c)"
  unfolding ranked_def list_all_iff list_ex_iff by blast

definition supplied :: "'h Actor list \<Rightarrow> Predicate list \<Rightarrow> 'h Actor list \<Rightarrow> bool" where
  "supplied everyone known pending \<longleftrightarrow>
     set pending \<subseteq> set everyone \<and> (\<forall>c\<in>set everyone - set pending. set (actor_produces c) \<subseteq> set known)"

lemma someone_ready:
  assumes ranked: "ranked rank everyone produced" and supplied: "supplied everyone known pending" and pending: "pending \<noteq> []"
  shows "filter (ready produced known) pending \<noteq> []"
proof -
  from pending obtain a where a: "a \<in> set pending" "\<And>c. c \<in> set pending \<Longrightarrow> rank a \<le> rank c"
    using ex_has_least_nat [of "\<lambda>a. a \<in> set pending" "hd pending" rank] by auto
  have "list_ex (\<lambda>k. unifiable k r) known"
    if r: "r \<in> set (actor_requires a)" "list_ex (\<lambda>p. unifiable p r) produced" for r
  proof -
    from rankedD [OF ranked _ r] a(1) supplied obtain c
      where c: "c \<in> set everyone" "rank c < rank a" "list_ex (\<lambda>p. unifiable p r) (actor_produces c)"
      by (auto simp: supplied_def)
    with a(2) [of c] have "c \<in> set everyone - set pending" by (auto simp flip: not_le)
    with supplied c(3) show ?thesis by (auto simp: supplied_def list_ex_iff)
  qed
  then have "ready produced known a" by (auto simp: ready_def list_all_iff)
  with a(1) show ?thesis by (auto simp: filter_empty_conv)
qed

fun all_ready :: "Predicate list \<Rightarrow> Predicate list \<Rightarrow> 'h Actor list list \<Rightarrow> bool" where
  "all_ready produced known [] \<longleftrightarrow> True"
| "all_ready produced known (stage # rest) \<longleftrightarrow>
     list_all (ready produced known) stage \<and> all_ready produced (known @ concat (map actor_produces stage)) rest"


lemma stages_loop_all_ready:
  "ranked rank everyone produced \<Longrightarrow> supplied everyone known pending \<Longrightarrow>
   all_ready produced known (stages_loop produced known pending)"
proof (induction produced known pending rule: stages_loop.induct)
  case (1 produced known pending)
  let ?ready = "filter (ready produced known) pending"
  show ?case
  proof (cases "pending = []")
    case False
    have someone: "?ready \<noteq> []" by (rule someone_ready [OF 1(2,3) False])
    have "supplied everyone (known @ concat (map actor_produces ?ready)) (filter (\<lambda>a. \<not> ready produced known a) pending)"
      using 1(3) by (auto simp: supplied_def)
    from 1(1) [OF False someone 1(2) this] show ?thesis
      using False someone by (simp add: stages_loop.simps [of produced known pending] list_all_iff)
  qed (simp add: stages_loop.simps)
qed

section \<open>Emissions\<close>

text \<open>An actor that is the default instance of its template is reached by that name.\<close>

definition is_default :: "'h bus \<Rightarrow> 'h Actor \<Rightarrow> bool" where
  "is_default b a \<longleftrightarrow> map_option actor_uuid (get b (m_id (actor_manifest a))) = Some (actor_uuid a)"

lemma send_default:
  "is_default b a \<Longrightarrow>
   send b \<lparr>en_id = i, en_from = from, en_to = m_id (actor_manifest a), en_method = method, en_payload = payload\<rparr> =
   Delivered (actor_uuid a) method payload"
  by (auto simp: is_default_def send_def)

lemma emission_sent:
  "list_all (is_default b) xs \<Longrightarrow>
   map (send b) (map (\<lambda>(i, t). \<lparr>en_id = f i, en_from = from, en_to = m_id (actor_manifest t),
      en_method = method, en_payload = payload\<rparr>) (enumerate n xs)) =
   map (\<lambda>t. Delivered (actor_uuid t) method payload) xs"
  by (induction xs arbitrary: n) (simp_all add: send_default)

text \<open>One instance of each template, under the names their construction gives them.\<close>

definition one_of_each :: "'h Actor list \<Rightarrow> bool" where
  "one_of_each as \<longleftrightarrow>
     distinct (map actor_uuid as) \<and> distinct (map (\<lambda>a. m_id (actor_manifest a)) as) \<and>
     list_all (\<lambda>a. as_instanceName (self a) = m_id (actor_manifest a) \<and>
       list_all (\<lambda>b. m_id (actor_manifest a) \<noteq> actor_uuid b) as) as"

lemma one_of_each_initial: "one_of_each (as @ [a]) \<Longrightarrow> one_of_each as"
  by (auto simp: one_of_each_def list_all_iff)

lemma bus_after_Join:
  "bus_after onHold (map Join (as @ [a])) = snd (register a (bus_after onHold (map Join as)))"
  by (simp add: bus_after_def)

lemma joined:
  "one_of_each as \<Longrightarrow>
   bu_actors (bus_after onHold (map Join as)) = map (\<lambda>a. (actor_uuid a, a)) as \<and>
   bu_byName (bus_after onHold (map Join as)) = map (\<lambda>a. (m_id (actor_manifest a), actor_uuid a)) as"
proof (induction as rule: rev_induct)
  case Nil
  show ?case by (simp add: bus_after_def newBus_def)
next
  case (snoc a as)
  from snoc.prems have new: "\<not> has (map (\<lambda>a. (actor_uuid a, a)) as) (actor_uuid a)"
    "\<not> has (map (\<lambda>a. (m_id (actor_manifest a), actor_uuid a)) as) (m_id (actor_manifest a))"
    and name: "as_instanceName (self a) = m_id (actor_manifest a)"
    by (auto simp: one_of_each_def)
  show ?case
    using snoc.IH [OF one_of_each_initial [OF snoc.prems]] new
    unfolding bus_after_Join register_fields by (simp add: enter_def name add_name_def update_new)
qed

lemma actors_joined: "one_of_each as \<Longrightarrow> actors (bus_after onHold (map Join as)) = as"
  using joined [of as onHold] by (simp add: actors_def comp_def)

lemma joined_default:
  assumes "one_of_each as" "a \<in> set as"
  shows "is_default (bus_after onHold (map Join as)) a"
proof -
  have "map_of (map (\<lambda>a. (actor_uuid a, a)) as) (m_id (actor_manifest a)) = None"
    using assms by (auto simp: map_of_eq_None_iff one_of_each_def list_all_iff)
  moreover have "map_of (map (\<lambda>a. (m_id (actor_manifest a), actor_uuid a)) as) (m_id (actor_manifest a)) = Some (actor_uuid a)"
    using assms by (auto simp: one_of_each_def comp_def intro!: map_of_is_SomeI)
  moreover have "map_of (map (\<lambda>a. (actor_uuid a, a)) as) (actor_uuid a) = Some a"
    using assms by (auto simp: one_of_each_def comp_def intro!: map_of_is_SomeI)
  ultimately show ?thesis
    using joined [OF assms(1), of onHold] by (simp add: is_default_def get_def)
qed

section \<open>Properties\<close>

text \<open>Whatever actors join and leave, and whether the registry accepts them or throws: actors are stored under their
  addresses, every name leads to a live actor, and the registry advertises no instance that has left.\<close>

theorem directory_invariant: "directory_ok (bus_after onHold ops)"
  unfolding bus_after_def by (rule directory_runs.always)

text \<open>The stages of the flow graph hold every actor exactly once; each stage but a last one of mutually waiting actors
  holds exactly the actors that could not join an earlier stage and can join now.\<close>

theorem stages_layered:
  "mset (concat (stages b)) = mset (actors b) \<and>
   layered (concat (map actor_produces (actors b))) [] (stages b)"
  unfolding stages_def by (rule stages_loop_layered)

text \<open>When the needs of the actors do not go round in circles, every actor is in a stage after the producers it needs:
  the loop is never cut.\<close>

theorem stages_acyclic:
  "ranked rank (actors b) (concat (map actor_produces (actors b))) \<Longrightarrow>
   all_ready (concat (map actor_produces (actors b))) [] (stages b)"
  unfolding stages_def by (erule stages_loop_all_ready) (simp add: supplied_def subset_refl)

text \<open>With one instance of each template, an emission is delivered to exactly the actors that require something
  unifiable with it and have a handler for it, each once, in the order they joined.\<close>

theorem emit_reaches_subscribers:
  "one_of_each as \<Longrightarrow>
   fst (emit predicate payload from (bus_after onHold (map Join as))) =
   Inr (map (\<lambda>t. Delivered (actor_uuid t) (functor_of predicate) payload)
     (filter (\<lambda>a. list_ex (\<lambda>r. unifiable r predicate) (actor_requires a) \<and> handles a (functor_of predicate)) as))"
proof -
  assume one: "one_of_each as"
  let ?b = "bus_after onHold (map Join as)"
  have "list_all (is_default ?b) (subscribers ?b predicate)"
    using joined_default [OF one] by (auto simp: list_all_iff subscribers_def actors_joined [OF one])
  then show ?thesis
    unfolding emit_def emission_def Let_def fst_conv
    by (subst emission_sent) (simp_all add: subscribers_def actors_joined [OF one])
qed

section \<open>Witnesses\<close>

definition demo_actor :: "string \<Rightarrow> string \<Rightarrow> Predicate list \<Rightarrow> Predicate list \<Rightarrow> unit Actor" where
  "demo_actor uuid template rs ps =
     newActor uuid (demo_manifest\<lparr>m_id := template, m_methods := [demo_method ''work'' rs ps]\<rparr>) [(''file'', Own ())]"

definition demo_actors :: "unit Actor list" where
  "demo_actors = [demo_actor ''u2'' ''index'' [''text(D, T)''] [''entry(D)''],
     demo_actor ''u1'' ''ocr'' [''file(D)''] [''text(D, T)'']]"

definition demo_bus :: "unit bus" where
  "demo_bus = bus_after False (map Join demo_actors)"

theorem stages_acyclic_witness:
  "all_ready (concat (map actor_produces (actors demo_bus))) [] (stages demo_bus) \<and>
   map (map actor_uuid) (stages demo_bus) = [[''u1''], [''u2'']]"
proof
  have "ranked (\<lambda>a. if actor_uuid a = ''u1'' then 0 else 1) (actors demo_bus)
      (concat (map actor_produces (actors demo_bus)))" by code_simp
  then show "all_ready (concat (map actor_produces (actors demo_bus))) [] (stages demo_bus)" by (rule stages_acyclic)
  show "map (map actor_uuid) (stages demo_bus) = [[''u1''], [''u2'']]" by code_simp
qed

theorem emit_reaches_subscribers_witness:
  "fst (emit ''file(d)'' [] ''me'' (bus_after False (map Join demo_actors))) = Inr [Delivered ''u1'' ''file'' []]"
proof -
  have one: "one_of_each demo_actors" by code_simp
  have "filter (\<lambda>a. list_ex (\<lambda>r. unifiable r ''file(d)'') (actor_requires a) \<and> handles a (functor_of ''file(d)'')) demo_actors =
      [demo_actor ''u1'' ''ocr'' [''file(D)''] [''text(D, T)'']]" by code_simp
  moreover have "functor_of ''file(d)'' = ''file''" by code_simp
  moreover have "actor_uuid (demo_actor ''u1'' ''ocr'' [''file(D)''] [''text(D, T)'']) = ''u1''" by code_simp
  ultimately show ?thesis by (simp add: emit_reaches_subscribers [OF one])
qed

text \<open>With two instances of one template, both subscribed, the first receives both envelopes and the second none.\<close>

lemma emit_second_instance:
  "fst (emit ''file(d)'' [] ''me'' (bus_after False (map Join
     [demo_actor ''u1'' ''ocr'' [''file(D)''] [], demo_actor ''u2'' ''ocr'' [''file(D)''] []]))) =
   Inr [Delivered ''u1'' ''file'' [], Delivered ''u1'' ''file'' []]"
  by code_simp

end
