(* ===== verification/Observation.thy ===== *)
theory Observation
  imports Planner_Match Run Effects "HOL-Library.Word"
begin

text \<open>
  libs/aven-actors/src/observation-solver.ts: operations that join committed observations, the frontier of
  invocations the observations justify, and their execution one at a time through a port of the host.  SHA-256 is
  a parameter; facts are compared as values, as their JSON texts would be.
\<close>

unbundle bit_operations_syntax

section \<open>Data\<close>

record SolverFact =
  sf_id :: string
  sf_predicate :: Predicate
  sf_value :: js

record SolverGather =
  sg_name :: string
  sg_collection :: jsnum
  sg_member :: string
  sg_predicate :: Predicate

record SolverOperation = Capability +
  so_gathers :: "SolverGather list option"
  so_failureProduces :: "Predicate list option"

record SolverInvocation =
  si_id :: string
  si_operation :: string
  si_bindings :: bindings
  si_inputs :: "SolverFact list"
  si_gathers :: "(string, SolverFact list) jsmap"

record SolverReceipt =
  sr_invocationId :: string
  sr_operation :: string
  sr_state :: string
  sr_facts :: "SolverFact list"
  sr_error :: "string option"

record 'w ObservationExecutionPort =
  port_lookup :: "SolverInvocation \<Rightarrow> ('w, SolverReceipt option) io"
  port_invoke :: "SolverInvocation \<Rightarrow> ('w, SolverReceipt) io"

datatype observation_state = RunComplete | RunPartial | RunNoRoute | RunLimit | RunCancelled

record ObservationRunResult =
  ob_state :: observation_state
  ob_facts :: "SolverFact list"
  ob_receipts :: "SolverReceipt list"
  ob_goalsSatisfied :: bool

section \<open>Predicates and identities\<close>

definition letter :: "char \<Rightarrow> bool" where
  "letter c \<longleftrightarrow> (CHR ''a'' \<le> c \<and> c \<le> CHR ''z'') \<or> (CHR ''A'' \<le> c \<and> c \<le> CHR ''Z'')"

definition functor_char :: "char \<Rightarrow> bool" where
  "functor_char c \<longleftrightarrow> letter c \<or> (CHR ''0'' \<le> c \<and> c \<le> CHR ''9'') \<or> c \<in> set ''_.-''"

definition arg_char :: "char \<Rightarrow> bool" where
  "arg_char c \<longleftrightarrow> letter c \<or> (CHR ''0'' \<le> c \<and> c \<le> CHR ''9'') \<or> c \<in> set ''_:./-''"

definition valid_arg :: "string \<Rightarrow> bool" where
  "valid_arg piece \<longleftrightarrow> trim piece \<noteq> [] \<and> list_all arg_char (trim piece)"

text \<open>The regular expression: a functor, then nothing or a list of arguments in parentheses.\<close>

definition predicate_syntax :: "string \<Rightarrow> bool" where
  "predicate_syntax p \<longleftrightarrow>
     p \<noteq> [] \<and> letter (hd p) \<and>
     (let rest = dropWhile functor_char p in
      rest = [] \<or>
      (hd rest = CHR ''('' \<and> last rest = CHR '')'' \<and> list_all valid_arg (split_on CHR '','' (butlast (tl rest)))))"

definition validatePredicate :: "Predicate \<Rightarrow> unit res" where
  "validatePredicate p = throw_if (\<not> predicate_syntax p) (Err (''unsupported predicate syntax: '' @ p))"

definition planValue :: "SolverFact \<Rightarrow> PlanValue" where
  "planValue f = \<lparr>pv_predicate = sf_predicate f, pv_source = FromIngredient (Some (sf_id f))\<rparr>"

definition ingredientId :: "PlanValue \<Rightarrow> string res" where
  "ingredientId value =
     (case pv_source value of
        FromIngredient i \<Rightarrow>
          (case truthy i of None \<Rightarrow> Inl (Err ''ungrounded solver input'') | Some a \<Rightarrow> Inr a)
      | FromStep _ _ \<Rightarrow> Inl (Err ''ungrounded solver input''))"

text \<open>The digest is cut to 16 bytes and marked as a UUID of version 8; an assignment past the end is ignored.\<close>

definition hex_byte :: "8 word \<Rightarrow> string" where
  "hex_byte b = [hex_digit (unat (drop_bit 4 b)), hex_digit (unat (b AND 0x0F))]"

definition mark_byte :: "nat \<Rightarrow> 8 word \<Rightarrow> 8 word \<Rightarrow> 8 word list \<Rightarrow> 8 word list" where
  "mark_byte i keep bits digest = (if i < length digest then digest[i := (digest ! i AND keep) OR bits] else digest)"

definition uuid_bytes :: "8 word list \<Rightarrow> 8 word list" where
  "uuid_bytes digest = mark_byte 8 0x3F 0x80 (mark_byte 6 0x0F 0x80 (take 16 digest))"

definition solverIdentity :: "(string \<Rightarrow> 8 word list) \<Rightarrow> string \<Rightarrow> string" where
  "solverIdentity sha256 seed =
     (let hex = concat (map hex_byte (uuid_bytes (sha256 seed))) in
      Prelude.slice hex 0 8 @ ''-'' @ Prelude.slice hex 8 12 @ ''-'' @ Prelude.slice hex 12 16 @ ''-'' @ Prelude.slice hex 16 20 @ ''-'' @
      Prelude.slice hex 20 (int (length hex)))"

section \<open>Compilation\<close>

text \<open>\<open>list[index]\<close>.\<close>

definition element_at :: "'a list \<Rightarrow> jsnum \<Rightarrow> 'a option" where
  "element_at xs n = (case n of
       Finite i \<Rightarrow> if 0 \<le> i \<and> nat i < length xs then Some (xs ! nat i) else None
     | NotFinite \<Rightarrow> None)"

fun check_gathers :: "SolverOperation \<Rightarrow> string list \<Rightarrow> SolverGather list \<Rightarrow> unit res" where
  "check_gathers op names [] = Inr ()"
| "check_gathers op names (g # gs) =
     rbind (throw_if (sg_name g \<in> set names) (Err (''duplicate gather '' @ sg_name g))) (\<lambda>_.
     rbind (throw_if (truthy (element_at (c_requires op) (sg_collection g)) = None)
              (Err (''gather '' @ sg_name g @ '' has no collection requirement''))) (\<lambda>_.
     rbind (validatePredicate (sg_predicate g)) (\<lambda>_.
     rbind (throw_if (sg_member g = ''_'' \<or> \<not> isVariable (sg_member g) \<or>
                sg_member g \<notin> set (term_args (parseTerm (sg_predicate g))))
              (Err (''gather '' @ sg_name g @ '' must bind its member variable''))) (\<lambda>_.
     rbind (throw_if (list_ex (\<lambda>p. sg_member g \<in> set (term_args (parseTerm p))) (c_requires op))
              (Err (''gather '' @ sg_name g @ '' captures a requirement variable''))) (\<lambda>_.
     check_gathers op (sg_name g # names) gs)))))"

fun check_operations :: "string list \<Rightarrow> SolverOperation list \<Rightarrow> unit res" where
  "check_operations ids [] = Inr ()"
| "check_operations ids (op # ops) =
     rbind (throw_if (c_id op \<in> set ids) (Err (''duplicate operation '' @ c_id op))) (\<lambda>_.
     rbind (throw_if (orelse (c_cost op) 1 < 0) (Err (''invalid operation cost '' @ c_id op))) (\<lambda>_.
     rbind (each validatePredicate (c_requires op @ c_produces op @ orelse (so_failureProduces op) [])) (\<lambda>_.
     rbind (check_gathers op [] (orelse (so_gathers op) [])) (\<lambda>_.
     check_operations (c_id op # ids) ops))))"

definition by_cost :: "collation \<Rightarrow> SolverOperation \<Rightarrow> SolverOperation \<Rightarrow> int" where
  "by_cost ck a b = or_else (orelse (c_cost a) 1 - orelse (c_cost b) 1) (localeCompare ck (c_id a) (c_id b))"

definition compileObservationOperations :: "collation \<Rightarrow> SolverOperation list \<Rightarrow> SolverOperation list res" where
  "compileObservationOperations ck operations =
     rbind (check_operations [] operations) (\<lambda>_. Inr (sort_by (by_cost ck) operations))"

section \<open>The frontier\<close>

text \<open>The members of a sealed collection, when the value is one.\<close>

definition member_name :: "js \<Rightarrow> string option" where
  "member_name m = (case m of JsStr s \<Rightarrow> if isVariable s then None else Some s | _ \<Rightarrow> None)"

definition sealed_members :: "js option \<Rightarrow> string list option" where
  "sealed_members collection =
     (case collection of
        Some (JsObj _ entries) \<Rightarrow>
          (case map_of entries ''members'' of
             Some (JsArr ms) \<Rightarrow>
               if list_ex (\<lambda>m. member_name m = None) ms then None else Some (List.map_filter member_name ms)
           | _ \<Rightarrow> None)
      | _ \<Rightarrow> None)"

text \<open>\<open>byId.get(ingredientId(input))!\<close>.\<close>

definition fact_with :: "(string, SolverFact) jsmap \<Rightarrow> PlanValue \<Rightarrow> SolverFact res" where
  "fact_with byId value =
     rbind (ingredientId value) (\<lambda>i. case map_of byId i of None \<Rightarrow> Inl (Err ''undefined'') | Some f \<Rightarrow> Inr f)"

text \<open>The inner loop over the members: the facts gathered, and whether all of them were found.\<close>

fun gather_members :: "(string, SolverFact) jsmap \<Rightarrow> PlanValue list \<Rightarrow> SolverOperation \<Rightarrow> SolverGather \<Rightarrow> bindings \<Rightarrow>
    string list \<Rightarrow> (SolverFact list \<times> bool) res" where
  "gather_members byId values op g b [] = Inr ([], True)"
| "gather_members byId values op g b (member # rest) =
     (let query = substitute (sg_predicate g) (AList.update (sg_member g) member b);
          found = matches_of [query] values in
      if 1 < length found
      then Inl (Err (''ambiguous collection member '' @ c_id op @ '':'' @ sg_name g @ '':'' @ member))
      else case found of
        [] \<Rightarrow> Inr ([], False)
      | m # _ \<Rightarrow>
          rbind (fact_with byId (hd (rm_inputs m))) (\<lambda>f.
          rbind (gather_members byId values op g b rest) (\<lambda>(fs, ready). Inr (f # fs, ready))))"

definition gather_collection :: "(string, SolverFact) jsmap \<Rightarrow> PlanValue list \<Rightarrow> SolverOperation \<Rightarrow> bindings \<Rightarrow>
    SolverFact list \<Rightarrow> SolverGather \<Rightarrow> (SolverFact list \<times> bool) res" where
  "gather_collection byId values op b inputs g =
     (case sealed_members (map_option sf_value (element_at inputs (sg_collection g))) of
        None \<Rightarrow> Inl (Err (''invalid sealed collection for '' @ c_id op @ '':'' @ sg_name g))
      | Some ms \<Rightarrow>
          if \<not> distinct ms
          then Inl (Err (''duplicate collection member for '' @ c_id op @ '':'' @ sg_name g))
          else gather_members byId values op g b ms)"

text \<open>The loop over the gathers; \<open>None\<close> when a member is missing.\<close>

fun gather_all :: "(string, SolverFact) jsmap \<Rightarrow> PlanValue list \<Rightarrow> SolverOperation \<Rightarrow> bindings \<Rightarrow> SolverFact list \<Rightarrow>
    SolverGather list \<Rightarrow> (string, SolverFact list) jsmap \<Rightarrow> (string, SolverFact list) jsmap option res" where
  "gather_all byId values op b inputs [] acc = Inr (Some acc)"
| "gather_all byId values op b inputs (g # gs) acc =
     rbind (gather_collection byId values op b inputs g) (\<lambda>(fs, ready).
       if ready then gather_all byId values op b inputs gs (AList.update (sg_name g) fs acc) else Inr None)"

definition invocation_seed :: "string \<Rightarrow> SolverOperation \<Rightarrow> SolverFact list \<Rightarrow> (string, SolverFact list) jsmap \<Rightarrow> string" where
  "invocation_seed runId op inputs gathers =
     stringify (JArr [JStr runId, JStr (c_id op), JArr (map (\<lambda>f. JStr (sf_id f)) inputs),
       JArr (map (\<lambda>(name, ms). JArr [JStr name, JArr (map (\<lambda>f. JStr (sf_id f)) ms)]) gathers)])"

definition match_invocation :: "(string \<Rightarrow> 8 word list) \<Rightarrow> string \<Rightarrow> (string, SolverFact) jsmap \<Rightarrow> PlanValue list \<Rightarrow>
    SolverOperation \<Rightarrow> RequirementMatch \<Rightarrow> SolverInvocation list res" where
  "match_invocation sha256 runId byId values op m =
     rbind (traverse (fact_with byId) (rm_inputs m)) (\<lambda>inputs.
     rbind (gather_all byId values op (rm_bindings m) inputs (orelse (so_gathers op) []) []) (\<lambda>gathers.
     Inr (case gathers of
        None \<Rightarrow> []
      | Some gs \<Rightarrow>
          [\<lparr>si_id = solverIdentity sha256 (invocation_seed runId op inputs gs), si_operation = c_id op,
            si_bindings = rm_bindings m, si_inputs = inputs, si_gathers = gs\<rparr>])))"

definition operation_invocations :: "(string \<Rightarrow> 8 word list) \<Rightarrow> string \<Rightarrow> (string, SolverFact) jsmap \<Rightarrow> PlanValue list \<Rightarrow>
    nat \<Rightarrow> SolverOperation \<Rightarrow> SolverInvocation list res" where
  "operation_invocations sha256 runId byId values maxSearchAttempts op =
     (if c_available op = Some False then Inr []
      else
        rbind (matchRequirements \<lparr>maxAttempts = Some maxSearchAttempts, maxMatches = None\<rparr> (c_requires op) values) (\<lambda>ms.
        rbind (traverse (match_invocation sha256 runId byId values op) ms) (\<lambda>iss. Inr (concat iss))))"

definition solveObservedFrontier :: "(string \<Rightarrow> 8 word list) \<Rightarrow> string \<Rightarrow> SolverOperation list \<Rightarrow> SolverFact list \<Rightarrow>
    nat \<Rightarrow> SolverInvocation list res" where
  "solveObservedFrontier sha256 runId operations facts maxSearchAttempts =
     (let byId = map_from (map (\<lambda>f. (sf_id f, f)) facts) in
      rbind (throw_if (length byId \<noteq> length facts) (Err ''duplicate fact occurrence identity'')) (\<lambda>_.
      rbind (traverse (operation_invocations sha256 runId byId (map planValue facts) maxSearchAttempts) operations)
        (\<lambda>iss. Inr (concat iss))))"

section \<open>Execution\<close>

record 'w observation_options =
  oo_runId :: string
  oo_operations :: "SolverOperation list"
  oo_ingredients :: "SolverFact list"
  oo_goals :: "Predicate list option"
  oo_goalOnly :: bool  \<comment> \<open>the completion is 'goal-only'\<close>
  oo_port :: "'w ObservationExecutionPort"
  oo_maxInvocations :: "nat option"
  oo_maxSearchAttempts :: "nat option"
  oo_allowEffects :: bool
  oo_aborted :: "'w \<Rightarrow> bool"
  oo_onReceipt :: "SolverReceipt \<Rightarrow> SolverInvocation \<Rightarrow> ('w, unit) io"

text \<open>The variables of the loop.\<close>

record observed =
  os_facts :: "(string, SolverFact) jsmap"
  os_receipts :: "SolverReceipt list"
  os_completed :: "string list"

definition admitted :: "'w observation_options \<Rightarrow> SolverOperation \<Rightarrow> bool" where
  "admitted opts op =
     (if c_mode op = Some Effect then oo_allowEffects opts
      else c_mode op \<noteq> Some Stream \<and> c_mode op \<noteq> Some View)"

definition fact_js :: "SolverFact \<Rightarrow> js" where
  "fact_js f = JsObj True [(''id'', JsStr (sf_id f)), (''predicate'', JsStr (sf_predicate f)), (''value'', sf_value f)]"

definition admit_fact :: "(string, SolverFact) jsmap \<Rightarrow> SolverFact \<Rightarrow> (string, SolverFact) jsmap res" where
  "admit_fact facts f =
     rbind (validatePredicate (sf_predicate f)) (\<lambda>_.
     rbind (throw_if (sf_id f = [] \<or> list_ex isVariable (term_args (parseTerm (sf_predicate f))))
              (Err (''observation is not grounded: '' @ sf_predicate f))) (\<lambda>_.
     rbind (portableTree (fact_js f) ''$'') (\<lambda>_.
     rbind (throw_if (case map_of facts (sf_id f) of None \<Rightarrow> False | Some existing \<Rightarrow> existing \<noteq> f)
              (Err (''conflicting fact occurrence '' @ sf_id f))) (\<lambda>_.
     Inr (AList.update (sf_id f) f facts)))))"

fun admit_all :: "(string, SolverFact) jsmap \<Rightarrow> SolverFact list \<Rightarrow> (string, SolverFact) jsmap res" where
  "admit_all facts [] = Inr facts"
| "admit_all facts (f # fs) = rbind (admit_fact facts f) (\<lambda>facts'. admit_all facts' fs)"

definition goals_met :: "'w observation_options \<Rightarrow> SolverFact list \<Rightarrow> bool" where
  "goals_met opts facts =
     (case matchRequirements \<lparr>maxAttempts = None, maxMatches = Some 1\<rparr> (orelse (oo_goals opts) []) (map planValue facts) of
        Inr ms \<Rightarrow> ms \<noteq> [] | Inl _ \<Rightarrow> False)"

definition observation_result :: "'w observation_options \<Rightarrow> observed \<Rightarrow> observation_state \<Rightarrow> ObservationRunResult" where
  "observation_result opts s state =
     \<lparr>ob_state = state, ob_facts = map_values (os_facts s), ob_receipts = os_receipts s,
      ob_goalsSatisfied = goals_met opts (map_values (os_facts s))\<rparr>"

definition max_invocations :: "'w observation_options \<Rightarrow> nat" where
  "max_invocations opts = orelse (oo_maxInvocations opts) 1024"

definition frontier_of :: "(string \<Rightarrow> 8 word list) \<Rightarrow> 'w observation_options \<Rightarrow> SolverOperation list \<Rightarrow> observed \<Rightarrow>
    SolverInvocation list res" where
  "frontier_of sha256 opts operations s =
     solveObservedFrontier sha256 (oo_runId opts) operations (map_values (os_facts s))
       (orelse (oo_maxSearchAttempts opts) 100000)"

definition exhausted_state :: "'w observation_options \<Rightarrow> observed \<Rightarrow> observation_state" where
  "exhausted_state opts s =
     (if \<not> goals_met opts (map_values (os_facts s)) then RunNoRoute
      else if list_ex (\<lambda>r. sr_state r = ''failed'') (os_receipts s) then RunPartial
      else RunComplete)"

text \<open>The facts an operation may publish in the state of its receipt.\<close>

definition declared :: "SolverOperation \<Rightarrow> SolverReceipt \<Rightarrow> Predicate list" where
  "declared op receipt = (if sr_state receipt = ''failed'' then orelse (so_failureProduces op) [] else c_produces op)"

definition fact_declared :: "SolverOperation \<Rightarrow> SolverInvocation \<Rightarrow> SolverReceipt \<Rightarrow> SolverFact \<Rightarrow> bool" where
  "fact_declared op invocation receipt f =
     list_ex (\<lambda>p. matches_of [substitute p (si_bindings invocation)] [planValue f] \<noteq> []) (declared op receipt)"

definition check_receipt :: "SolverOperation \<Rightarrow> SolverInvocation \<Rightarrow> SolverReceipt \<Rightarrow> unit res" where
  "check_receipt op invocation receipt =
     rbind (throw_if (sr_invocationId receipt \<noteq> si_id invocation \<or> sr_operation receipt \<noteq> si_operation invocation \<or>
              sr_state receipt \<notin> {''succeeded'', ''failed''})
              (Err ''receipt does not belong to the admitted invocation'')) (\<lambda>_.
     each (\<lambda>f. throw_if (\<not> fact_declared op invocation receipt f)
         (Err (c_id op @ '' published an undeclared observation: '' @ sf_predicate f))) (sr_facts receipt))"

definition run_port :: "'w ObservationExecutionPort \<Rightarrow> SolverInvocation \<Rightarrow> ('w, SolverReceipt) io" where
  "run_port port invocation =
     bind_io (port_lookup port invocation) (\<lambda>found.
       case found of Some receipt \<Rightarrow> return receipt | None \<Rightarrow> port_invoke port invocation)"

text \<open>The rest of the body once an invocation is chosen.\<close>

definition perform_invocation :: "'w observation_options \<Rightarrow> SolverOperation \<Rightarrow> SolverInvocation \<Rightarrow> observed \<Rightarrow> ('w, observed) io" where
  "perform_invocation opts op invocation s =
     bind_io (run_port (oo_port opts) invocation) (\<lambda>receipt.
     bind_io (lift (check_receipt op invocation receipt)) (\<lambda>_.
     bind_io (lift (admit_all (os_facts s) (sr_facts receipt))) (\<lambda>facts.
     bind_io (oo_onReceipt opts receipt invocation) (\<lambda>_.
     return \<lparr>os_facts = facts, os_receipts = os_receipts s @ [receipt],
             os_completed = os_completed s @ [si_id invocation]\<rparr>))))"

text \<open>What an iteration decides before it calls the port.\<close>

datatype decision = Finish observation_state | Fail err | Perform SolverOperation SolverInvocation

definition decide_next :: "(string \<Rightarrow> 8 word list) \<Rightarrow> 'w observation_options \<Rightarrow> SolverOperation list \<Rightarrow> observed \<Rightarrow>
    bool \<Rightarrow> decision" where
  "decide_next sha256 opts operations s aborted =
     (if aborted then Finish RunCancelled
      else if oo_goalOnly opts \<and> goals_met opts (map_values (os_facts s)) then Finish RunComplete
      else case frontier_of sha256 opts operations s of
        Inl SearchLimit \<Rightarrow> Finish RunLimit
      | Inl e \<Rightarrow> Fail e
      | Inr frontier \<Rightarrow>
          (case find (\<lambda>candidate. si_id candidate \<notin> set (os_completed s)) frontier of
             None \<Rightarrow> Finish (exhausted_state opts s)
           | Some invocation \<Rightarrow>
               if max_invocations opts \<le> length (os_receipts s) then Finish RunLimit
               else case find (\<lambda>candidate. c_id candidate = si_operation invocation) operations of
                 None \<Rightarrow> Fail (Err ''undefined'')
               | Some op \<Rightarrow> Perform op invocation))"

definition observe_step :: "(string \<Rightarrow> 8 word list) \<Rightarrow> 'w observation_options \<Rightarrow> SolverOperation list \<Rightarrow> observed \<Rightarrow>
    ('w, ObservationRunResult + observed) io" where
  "observe_step sha256 opts operations s = (\<lambda>w.
     case decide_next sha256 opts operations s (oo_aborted opts w) of
       Finish state \<Rightarrow> (Inr (Inl (observation_result opts s state)), w)
     | Fail e \<Rightarrow> (Inl e, w)
     | Perform op invocation \<Rightarrow> bind_io (perform_invocation opts op invocation s) (\<lambda>s'. return (Inr s')) w)"

lemma perform_receipts:
  "perform_invocation opts op invocation s w = (Inr s', w') \<Longrightarrow> length (os_receipts s') = Suc (length (os_receipts s))"
  by (auto simp: perform_invocation_def bind_io_def lift_def return_def split: prod.splits sum.splits)

lemma observe_step_progress:
  "observe_step sha256 opts operations s w = (Inr (Inr s'), w') \<Longrightarrow>
   max_invocations opts - length (os_receipts s') < max_invocations opts - length (os_receipts s)"
  by (auto simp: observe_step_def decide_next_def bind_io_def return_def dest!: perform_receipts
      split: decision.splits prod.splits sum.splits if_splits option.splits err.splits)

function observe_loop :: "(string \<Rightarrow> 8 word list) \<Rightarrow> 'w observation_options \<Rightarrow> SolverOperation list \<Rightarrow> observed \<Rightarrow>
    ('w, ObservationRunResult) io" where
  "observe_loop sha256 opts operations s w =
     (case observe_step sha256 opts operations s w of
        (Inl e, w') \<Rightarrow> (Inl e, w')
      | (Inr (Inl result), w') \<Rightarrow> (Inr result, w')
      | (Inr (Inr s'), w') \<Rightarrow> observe_loop sha256 opts operations s' w')"
  by pat_completeness auto
termination
  by (relation "measure (\<lambda>(_, opts, _, s, _). max_invocations opts - length (os_receipts s))")
    (auto dest: observe_step_progress [OF sym] observe_step_progress)

declare observe_loop.simps [simp del]

definition executeObservedProgram :: "(string \<Rightarrow> 8 word list) \<Rightarrow> collation \<Rightarrow> 'w observation_options \<Rightarrow>
    ('w, ObservationRunResult) io" where
  "executeObservedProgram sha256 ck opts =
     bind_io (lift (compileObservationOperations ck (oo_operations opts))) (\<lambda>compiled.
     bind_io (lift (admit_all [] (oo_ingredients opts))) (\<lambda>facts.
     observe_loop sha256 opts (filter (admitted opts) compiled)
       \<lparr>os_facts = facts, os_receipts = [], os_completed = []\<rparr>))"

end
