(* ===== verification/Observation_Frontier.thy ===== *)
theory Observation_Frontier
  imports Observation Sort_Multiset
begin

text \<open>
  What compilation guarantees of operations, what the frontier is, and the shape of the identities of invocations.
\<close>

section \<open>Identities\<close>

lemma length_mark_byte [simp]: "length (mark_byte i keep bits d) = length d"
  by (simp add: mark_byte_def)

lemma sixteen_bytes:
  assumes "length d = 16"
  obtains b0 b1 b2 b3 b4 b5 b6 b7 b8 b9 b10 b11 b12 b13 b14 b15
  where "d = [b0, b1, b2, b3, b4, b5, b6, b7, b8, b9, b10, b11, b12, b13, b14, b15 :: 8 word]"
  using assms by (auto simp: numeral_eq_Suc length_Suc_conv)

text \<open>The printed identity of 16 bytes.\<close>

lemma uuid_parts:
  fixes bs :: "8 word list"
  assumes "length bs = 16"
  defines "hex \<equiv> concat (map hex_byte bs)"
  shows "Prelude.slice hex 0 8 = concat (map hex_byte (take 4 bs))"
    "Prelude.slice hex 8 12 = hex_byte (bs ! 4) @ hex_byte (bs ! 5)"
    "Prelude.slice hex 12 16 = hex_byte (bs ! 6) @ hex_byte (bs ! 7)"
    "Prelude.slice hex 16 20 = hex_byte (bs ! 8) @ hex_byte (bs ! 9)"
    "Prelude.slice hex 20 (int (length hex)) = concat (map hex_byte (drop 10 bs))"
  using assms(1) unfolding hex_def
  by (elim sixteen_bytes; simp add: Prelude.slice_def slice_pos_def hex_byte_def)+

lemma version_nibble: "hex_digit (unat (drop_bit 4 ((b AND 0x0F) OR 0x80 :: 8 word))) = CHR ''8''"
proof -
  have "drop_bit 4 ((b AND 0x0F) OR 0x80 :: 8 word) = 8"
    by (rule bit_word_eqI) (auto simp: bit_simps)
  moreover have "hex_digit (unat (8 :: 8 word)) = CHR ''8''" by code_simp
  ultimately show ?thesis by simp
qed

lemma variant_nibble:
  "hex_digit (unat (drop_bit 4 ((b AND 0x3F) OR 0x80 :: 8 word))) \<in> set ''89ab''"
proof -
  let ?n = "drop_bit 4 b AND 3 :: 8 word"
  have marked: "drop_bit 4 ((b AND 0x3F) OR 0x80 :: 8 word) = 8 OR ?n"
    by (rule bit_word_eqI) (auto simp: bit_simps)
  have "?n = take_bit 2 (drop_bit 4 b)" by (simp add: take_bit_eq_mask mask_numeral)
  then have "unat ?n = take_bit 2 (unat (drop_bit 4 b))" by (simp add: unsigned_take_bit_eq)
  also have "\<dots> < 2 ^ 2" by (rule take_bit_nat_less_exp)
  finally have "unat ?n \<in> {0, 1, 2, 3}" by auto
  then have "?n \<in> word_of_nat ` {0, 1, 2, 3}" by (rule image_eqI [rotated]) simp
  then have "?n \<in> set [0, 1, 2, 3]" by simp
  moreover have "list_all (\<lambda>n :: 8 word. hex_digit (unat (8 OR n)) \<in> set ''89ab'') [0, 1, 2, 3]" by code_simp
  ultimately show ?thesis unfolding marked list_all_iff by blast
qed

lemma length_hex: "length (concat (map hex_byte bs)) = 2 * length bs"
  by (induction bs) (simp_all add: hex_byte_def)

lemma uuid_shape:
  assumes "16 \<le> length (sha256 seed)"
  shows "length (solverIdentity sha256 seed) = 36"
    "list_all (\<lambda>i. solverIdentity sha256 seed ! i = CHR ''-'') [8, 13, 18, 23]"
    "solverIdentity sha256 seed ! 14 = CHR ''8''"
    "solverIdentity sha256 seed ! 19 \<in> set ''89ab''"
proof -
  let ?bs = "uuid_bytes (sha256 seed)"
  have bs: "length ?bs = 16" using assms by (simp add: uuid_bytes_def)
  obtain b6 b8 where marked: "?bs ! 6 = (b6 AND 0x0F) OR 0x80" "?bs ! 8 = (b8 AND 0x3F) OR 0x80"
    using assms by (auto simp: uuid_bytes_def mark_byte_def)
  have parts: "solverIdentity sha256 seed =
      concat (map hex_byte (take 4 ?bs)) @ ''-'' @ (hex_byte (?bs ! 4) @ hex_byte (?bs ! 5)) @ ''-'' @
      (hex_byte (?bs ! 6) @ hex_byte (?bs ! 7)) @ ''-'' @ (hex_byte (?bs ! 8) @ hex_byte (?bs ! 9)) @ ''-'' @
      concat (map hex_byte (drop 10 ?bs))"
    unfolding solverIdentity_def Let_def uuid_parts [OF bs] ..
  have len: "length (concat (map hex_byte (take 4 ?bs))) = 8" "length (concat (map hex_byte (drop 10 ?bs))) = 12"
    using bs by (simp_all add: length_hex)
  show "length (solverIdentity sha256 seed) = 36" "list_all (\<lambda>i. solverIdentity sha256 seed ! i = CHR ''-'') [8, 13, 18, 23]"
    unfolding parts using len by (simp_all add: hex_byte_def nth_append)
  show "solverIdentity sha256 seed ! 14 = CHR ''8''"
    unfolding parts using len version_nibble [of b6] by (simp add: hex_byte_def nth_append marked)
  show "solverIdentity sha256 seed ! 19 \<in> set ''89ab''"
    unfolding parts using len variant_nibble [of b8] by (simp add: hex_byte_def nth_append marked)
qed

section \<open>Compiled operations\<close>

lemma validatePredicate_iff [simp]: "validatePredicate p = Inr u \<longleftrightarrow> predicate_syntax p"
  by (simp add: validatePredicate_def)

text \<open>A gather reads a requirement that exists, and its member variable occurs in its predicate and in no
  requirement.\<close>

definition gather_ok :: "SolverOperation \<Rightarrow> SolverGather \<Rightarrow> bool" where
  "gather_ok op g \<longleftrightarrow>
     element_at (c_requires op) (sg_collection g) \<noteq> None \<and> predicate_syntax (sg_predicate g) \<and>
     isVariable (sg_member g) \<and> sg_member g \<in> set (term_args (parseTerm (sg_predicate g))) \<and>
     list_all (\<lambda>p. sg_member g \<notin> set (term_args (parseTerm p))) (c_requires op)"

definition operation_ok :: "SolverOperation \<Rightarrow> bool" where
  "operation_ok op \<longleftrightarrow>
     0 \<le> orelse (c_cost op) 1 \<and>
     list_all predicate_syntax (c_requires op @ c_produces op @ orelse (so_failureProduces op) []) \<and>
     distinct (map sg_name (orelse (so_gathers op) [])) \<and> list_all (gather_ok op) (orelse (so_gathers op) [])"

lemma check_gathers_ok:
  "check_gathers op names gs = Inr () \<Longrightarrow>
   distinct (map sg_name gs) \<and> set names \<inter> sg_name ` set gs = {} \<and> list_all (gather_ok op) gs"
proof (induction op names gs rule: check_gathers.induct)
  case (2 op names g gs)
  then have "check_gathers op (sg_name g # names) gs = Inr ()" and g: "sg_name g \<notin> set names" "gather_ok op g"
    by (auto simp: gather_ok_def truthy_def list_all_iff list_ex_iff split: option.splits if_splits)
  with 2(1) [of "()" "()" "()" "()" "()"] 2(2) have "distinct (map sg_name gs)" "set (sg_name g # names) \<inter> sg_name ` set gs = {}"
    "list_all (gather_ok op) gs" by auto
  with g show ?case by auto
qed simp

lemma check_operations_ok:
  "check_operations ids ops = Inr () \<Longrightarrow>
   distinct (map c_id ops) \<and> set ids \<inter> c_id ` set ops = {} \<and> list_all operation_ok ops"
proof (induction ops arbitrary: ids)
  case (Cons op ops)
  then have rest: "check_operations (c_id op # ids) ops = Inr ()" and "c_id op \<notin> set ids" "operation_ok op"
    using check_gathers_ok [of op "[]" "orelse (so_gathers op) []"]
    by (auto simp: operation_ok_def each_Inr_iff list_all_iff)
  with Cons.IH [OF rest] show ?case by auto
qed simp

interpretation by_cost: comparator "by_cost ck" for ck
proof
  show "by_cost ck x y \<le> 0 \<or> by_cost ck y x \<le> 0" for x y
    by (auto simp: by_cost_def or_else_def localeCompare_def)
  show "by_cost ck x y \<le> 0 \<Longrightarrow> by_cost ck y z \<le> 0 \<Longrightarrow> by_cost ck x z \<le> 0" for x y z
    by (auto simp: by_cost_def or_else_def localeCompare_def split: if_splits)
qed

lemma by_cost_le: "by_cost ck a b \<le> 0 \<Longrightarrow> orelse (c_cost a) 1 \<le> orelse (c_cost b) 1"
  by (auto simp: by_cost_def or_else_def split: if_splits)

lemma compiled:
  assumes "compileObservationOperations ck ops = Inr cs"
  shows "mset cs = mset ops" "distinct (map c_id cs)" "list_all operation_ok cs"
    "sorted_wrt (\<lambda>a b. orelse (c_cost a) 1 \<le> orelse (c_cost b) 1) cs"
proof -
  from assms have cs: "cs = sort_by (by_cost ck) ops" and ok: "check_operations [] ops = Inr ()"
    by (auto simp: compileObservationOperations_def)
  from check_operations_ok [OF ok] have ops: "distinct (map c_id ops)" "list_all operation_ok ops" by simp_all
  show m: "mset cs = mset ops" by (simp add: cs)
  have "mset (map c_id cs) = mset (map c_id ops)" using m by simp
  with ops(1) show "distinct (map c_id cs)" by (metis mset_eq_imp_distinct_iff)
  show "list_all operation_ok cs" using ops(2) by (simp add: cs list_all_iff)
  show "sorted_wrt (\<lambda>a b. orelse (c_cost a) 1 \<le> orelse (c_cost b) 1) cs"
    unfolding cs by (rule sorted_wrt_mono_rel [OF _ by_cost.sorted_sort]) (rule by_cost_le)
qed

section \<open>The frontier\<close>

abbreviation fact_index :: "SolverFact list \<Rightarrow> (string, SolverFact) jsmap" where
  "fact_index facts \<equiv> map_from (map (\<lambda>f. (sf_id f, f)) facts)"

lemma fact_index_distinct:
  "length (fact_index facts) = length facts \<longleftrightarrow> distinct (map sf_id facts)"
  using length_map_from_iff [of "map (\<lambda>f. (sf_id f, f)) facts"] by (simp add: comp_def)

lemma fact_index_map_of:
  assumes "distinct (map sf_id facts)"
  shows "map_of (fact_index facts) i = Some f \<longleftrightarrow> f \<in> set facts \<and> sf_id f = i"
proof -
  have keys: "distinct (map fst (map (\<lambda>f. (sf_id f, f)) facts))" using assms by (simp add: comp_def)
  show ?thesis unfolding map_from_distinct [OF keys] map_of_eq_Some_iff [OF keys] by auto
qed

lemma fact_with_value:
  assumes "distinct (map sf_id facts)" "v \<in> set (map planValue facts)" "fact_with (fact_index facts) v = Inr f"
  shows "f \<in> set facts \<and> planValue f = v"
proof -
  from assms(2) obtain f0 where f0: "f0 \<in> set facts" "v = planValue f0" by auto
  have "ingredientId (planValue f0) = (if sf_id f0 = [] then Inl (Err ''ungrounded solver input'') else Inr (sf_id f0))"
    by (simp add: ingredientId_def planValue_def truthy_def)
  with assms(3) f0(2) have "map_of (fact_index facts) (sf_id f0) = Some f"
    by (cases "sf_id f0 = []"; cases "map_of (fact_index facts) (sf_id f0)") (simp_all add: fact_with_def)
  then have "f \<in> set facts" "sf_id f = sf_id f0" by (simp_all add: fact_index_map_of [OF assms(1)])
  moreover from this f0(1) assms(1) have "f = f0" by (auto simp: distinct_map inj_on_def)
  ultimately show ?thesis using f0(2) by simp
qed

lemma facts_of_values:
  assumes "distinct (map sf_id facts)" "set vs \<subseteq> set (map planValue facts)" "traverse (fact_with (fact_index facts)) vs = Inr fs"
  shows "set fs \<subseteq> set facts \<and> map planValue fs = vs"
proof -
  from assms(3) have "list_all2 (\<lambda>v f. fact_with (fact_index facts) v = Inr f) vs fs" by (simp add: traverse_Inr_iff)
  then show ?thesis using assms(2)
  proof (induction rule: list_all2_induct)
    case (Cons v vs f fs)
    from fact_with_value [OF assms(1) _ Cons(1)] Cons(3,4) show ?case by simp
  qed simp
qed

text \<open>The query for a member of a sealed collection, and the one fact that answers it.\<close>

definition member_query :: "SolverGather \<Rightarrow> bindings \<Rightarrow> string \<Rightarrow> Predicate" where
  "member_query g b member = substitute (sg_predicate g) (AList.update (sg_member g) member b)"

definition answers :: "SolverFact list \<Rightarrow> Predicate \<Rightarrow> SolverFact \<Rightarrow> bool" where
  "answers facts query f \<longleftrightarrow>
     f \<in> set facts \<and> map rm_inputs (matches_of [query] (map planValue facts)) = [[planValue f]]"

lemma gather_members_answers:
  assumes "distinct (map sf_id facts)"
  shows "gather_members (fact_index facts) (map planValue facts) op g b ms = Inr (fs, True) \<Longrightarrow>
    list_all2 (\<lambda>m f. answers facts (member_query g b m) f) ms fs"
proof (induction ms arbitrary: fs)
  case (Cons m ms)
  let ?found = "matches_of [member_query g b m] (map planValue facts)"
  from Cons.prems obtain r where r: "?found = [r]"
    by (cases ?found) (auto simp: Let_def member_query_def split: if_splits)
  then have "r \<in> set ?found" by simp
  note r_sound = matches_of_sound(1,2) [OF this]
  then obtain v where v: "rm_inputs r = [v]" by (auto simp: length_Suc_conv)
  with Cons.prems r obtain f fs' where f: "fact_with (fact_index facts) v = Inr f" "fs = f # fs'"
    and rest: "gather_members (fact_index facts) (map planValue facts) op g b ms = Inr (fs', True)"
    by (auto simp: Let_def member_query_def split: if_splits prod.splits)
  from fact_with_value [OF assms _ f(1)] r_sound(1) v have "f \<in> set facts" "planValue f = v" by auto
  with r v have "answers facts (member_query g b m) f" by (simp add: answers_def)
  with Cons.IH [OF rest] f(2) show ?case by simp
qed simp

text \<open>What a gather of an invocation holds: for each member of the sealed collection, in order, its one fact.\<close>

definition gathered :: "SolverFact list \<Rightarrow> bindings \<Rightarrow> SolverFact list \<Rightarrow> SolverGather \<Rightarrow> SolverFact list \<Rightarrow> bool" where
  "gathered facts b inputs g fs \<longleftrightarrow>
     (case sealed_members (map_option sf_value (element_at inputs (sg_collection g))) of
        None \<Rightarrow> False
      | Some ms \<Rightarrow> distinct ms \<and> list_all2 (\<lambda>m f. answers facts (member_query g b m) f) ms fs)"

lemma gather_collection_gathered:
  assumes "distinct (map sf_id facts)"
    "gather_collection (fact_index facts) (map planValue facts) op b inputs g = Inr (fs, True)"
  shows "gathered facts b inputs g fs"
  using assms gather_members_answers [OF assms(1)]
  by (auto simp: gather_collection_def gathered_def split: option.splits if_splits)

lemma gather_all_gathered:
  assumes "distinct (map sf_id facts)"
  shows "gather_all (fact_index facts) (map planValue facts) op b inputs gs acc = Inr (Some result) \<Longrightarrow>
    distinct (map fst acc @ map sg_name gs) \<Longrightarrow>
    \<exists>fss. result = acc @ zip (map sg_name gs) fss \<and> list_all2 (gathered facts b inputs) gs fss"
proof (induction gs arbitrary: acc)
  case (Cons g gs)
  from Cons.prems(1) obtain fs where fs: "gather_collection (fact_index facts) (map planValue facts) op b inputs g = Inr (fs, True)"
    and rest: "gather_all (fact_index facts) (map planValue facts) op b inputs gs (AList.update (sg_name g) fs acc) = Inr (Some result)"
    by (auto split: prod.splits if_splits)
  have upd: "AList.update (sg_name g) fs acc = acc @ [(sg_name g, fs)]"
    using Cons.prems(2) by (intro update_new) auto
  from Cons.IH [OF rest] Cons.prems(2) obtain fss
    where "result = (acc @ [(sg_name g, fs)]) @ zip (map sg_name gs) fss" "list_all2 (gathered facts b inputs) gs fss"
    unfolding upd by auto
  then show ?case
    using gather_collection_gathered [OF assms fs] by (intro exI [of _ "fs # fss"]) simp
qed simp

text \<open>An invocation is justified by an available operation whose requirements its inputs jointly prove, with every
  member of its collections observed.\<close>

definition justified_by :: "SolverFact list \<Rightarrow> SolverInvocation \<Rightarrow> SolverOperation \<Rightarrow> bool" where
  "justified_by facts i op \<longleftrightarrow>
     c_id op = si_operation i \<and> c_available op \<noteq> Some False \<and> set (si_inputs i) \<subseteq> set facts \<and>
     \<lparr>rm_bindings = si_bindings i, rm_inputs = map planValue (si_inputs i)\<rparr> \<in>
       set (matches_of (c_requires op) (map planValue facts)) \<and>
     map fst (si_gathers i) = map sg_name (orelse (so_gathers op) []) \<and>
     list_all2 (gathered facts (si_bindings i) (si_inputs i)) (orelse (so_gathers op) []) (map snd (si_gathers i))"

lemma match_invocation_justified:
  assumes dist: "distinct (map sf_id facts)" and ok: "operation_ok op" and avail: "c_available op \<noteq> Some False"
    and m: "m \<in> set (matches_of (c_requires op) (map planValue facts))"
    and iss: "match_invocation sha256 runId (fact_index facts) (map planValue facts) op m = Inr iss" and i: "i \<in> set iss"
  shows "justified_by facts i op"
proof -
  from iss i obtain inputs gs where inputs: "traverse (fact_with (fact_index facts)) (rm_inputs m) = Inr inputs"
    and gs: "gather_all (fact_index facts) (map planValue facts) op (rm_bindings m) inputs (orelse (so_gathers op) []) [] = Inr (Some gs)"
    and i: "i = \<lparr>si_id = solverIdentity sha256 (invocation_seed runId op inputs gs), si_operation = c_id op,
            si_bindings = rm_bindings m, si_inputs = inputs, si_gathers = gs\<rparr>"
    by (auto simp: match_invocation_def split: option.splits)
  from facts_of_values [OF dist matches_of_sound(1) [OF m] inputs]
  have "set inputs \<subseteq> set facts" and inputs: "map planValue inputs = rm_inputs m" by simp_all
  moreover from gather_all_gathered [OF dist gs] ok obtain fss where
    "gs = zip (map sg_name (orelse (so_gathers op) [])) fss"
    "list_all2 (gathered facts (rm_bindings m) inputs) (orelse (so_gathers op) []) fss"
    by (auto simp: operation_ok_def)
  moreover from this(2) have "length (orelse (so_gathers op) []) = length fss" by (rule list_all2_lengthD)
  moreover have eq: "\<lparr>rm_bindings = rm_bindings m, rm_inputs = rm_inputs m\<rparr> = m" by (cases m) simp
  have "\<lparr>rm_bindings = rm_bindings m, rm_inputs = rm_inputs m\<rparr> \<in> set (matches_of (c_requires op) (map planValue facts))"
    unfolding eq by (rule m)
  ultimately show ?thesis using avail by (simp add: justified_by_def i)
qed

lemma concat_traverse: "traverse f xs = Inr yss \<Longrightarrow> y \<in> set (concat yss) \<Longrightarrow> \<exists>x\<in>set xs. \<exists>ys. f x = Inr ys \<and> y \<in> set ys"
  by (force simp: traverse_Inr_iff list_all2_conv_all_nth in_set_conv_nth)

lemma matchRequirements_attempts:
  "matchRequirements \<lparr>maxAttempts = Some k, maxMatches = None\<rparr> rs facts = Inr ms \<Longrightarrow> ms = matches_of rs facts"
  using matchRequirements_spec [where L = "\<lparr>maxAttempts = Some k, maxMatches = None\<rparr>" and rs = rs and facts = facts]
  by (simp add: matches_of_eq cut_def)

lemma frontier_justified:
  assumes frontier: "solveObservedFrontier sha256 runId operations facts k = Inr is" and ok: "list_all operation_ok operations"
    and i: "i \<in> set is"
  shows "list_ex (justified_by facts i) operations"
proof -
  from frontier have dist: "distinct (map sf_id facts)"
    by (auto simp: solveObservedFrontier_def Let_def fact_index_distinct simp del: length_map)
  from frontier i obtain op iss where op: "op \<in> set operations"
    "operation_invocations sha256 runId (fact_index facts) (map planValue facts) k op = Inr iss" "i \<in> set iss"
    by (auto simp: solveObservedFrontier_def Let_def dest!: concat_traverse)
  from op(2,3) obtain ms yss where avail: "c_available op \<noteq> Some False"
    and ms: "matchRequirements \<lparr>maxAttempts = Some k, maxMatches = None\<rparr> (c_requires op) (map planValue facts) = Inr ms"
    and yss: "traverse (match_invocation sha256 runId (fact_index facts) (map planValue facts) op) ms = Inr yss"
      "i \<in> set (concat yss)"
    by (auto simp: operation_invocations_def split: if_splits)
  from concat_traverse [OF yss] obtain m ys where m: "m \<in> set ms"
    "match_invocation sha256 runId (fact_index facts) (map planValue facts) op m = Inr ys" "i \<in> set ys" by auto
  have "justified_by facts i op"
  proof (rule match_invocation_justified [OF dist _ avail _ m(2,3)])
    show "operation_ok op" using ok op(1) by (simp add: list_all_iff)
    show "m \<in> set (matches_of (c_requires op) (map planValue facts))" using m(1) matchRequirements_attempts [OF ms] by simp
  qed
  with op(1) show ?thesis by (auto simp: list_ex_iff)
qed

lemma traverse_member: "traverse f xs = Inr yss \<Longrightarrow> x \<in> set xs \<Longrightarrow> \<exists>ys\<in>set yss. f x = Inr ys"
  by (force simp: traverse_Inr_iff list_all2_conv_all_nth in_set_conv_nth)

lemma same_facts:
  assumes "distinct (map sf_id facts)" "set fs \<subseteq> set facts" "set gs \<subseteq> set facts" "map planValue fs = map planValue gs"
  shows "fs = gs"
proof (rule map_inj_on [OF assms(4)])
  have "inj_on sf_id (set facts)" using assms(1) by (simp add: distinct_map)
  then show "inj_on planValue (set fs \<union> set gs)"
    using assms(2,3) by (auto simp: inj_on_def planValue_def)
qed

lemma frontier_complete:
  assumes frontier: "solveObservedFrontier sha256 runId operations facts k = Inr is"
    and op: "op \<in> set operations" "c_available op \<noteq> Some False" "orelse (so_gathers op) [] = []"
    and inputs: "set inputs \<subseteq> set facts" "jointly_provable (c_requires op) (map planValue inputs)"
  shows "\<exists>i\<in>set is. si_operation i = c_id op \<and> si_inputs i = inputs"
proof -
  from frontier obtain iss where dist: "distinct (map sf_id facts)" and whole: "is = concat iss"
    and iss: "traverse (operation_invocations sha256 runId (fact_index facts) (map planValue facts) k) operations = Inr iss"
    by (auto simp: solveObservedFrontier_def Let_def fact_index_distinct simp del: length_map)
  from traverse_member [OF iss op(1)] obtain opis where opis: "opis \<in> set iss"
    "operation_invocations sha256 runId (fact_index facts) (map planValue facts) k op = Inr opis" by auto
  from opis(2) op(2) obtain ms yss
    where ms: "matchRequirements \<lparr>maxAttempts = Some k, maxMatches = None\<rparr> (c_requires op) (map planValue facts) = Inr ms"
    and yss: "traverse (match_invocation sha256 runId (fact_index facts) (map planValue facts) op) ms = Inr yss" "opis = concat yss"
    by (auto simp: operation_invocations_def)
  have "map planValue inputs \<in> rm_inputs ` set (matches_of (c_requires op) (map planValue facts))"
    unfolding matches_of_iff using inputs by auto
  then obtain m where m: "m \<in> set ms" "rm_inputs m = map planValue inputs" "m \<in> set (matches_of (c_requires op) (map planValue facts))"
    using matchRequirements_attempts [OF ms] by auto
  from traverse_member [OF yss(1) m(1)] obtain ys where ys: "ys \<in> set yss"
    "match_invocation sha256 runId (fact_index facts) (map planValue facts) op m = Inr ys" by auto
  from ys(2) op(3) obtain found where found: "traverse (fact_with (fact_index facts)) (rm_inputs m) = Inr found"
    and i: "ys = [\<lparr>si_id = solverIdentity sha256 (invocation_seed runId op found []), si_operation = c_id op,
            si_bindings = rm_bindings m, si_inputs = found, si_gathers = []\<rparr>]"
    by (auto simp: match_invocation_def)
  from facts_of_values [OF dist matches_of_sound(1) [OF m(3)] found] m(2)
  have "found = inputs" by (intro same_facts [OF dist _ inputs(1)]) auto
  with i have "hd ys \<in> set ys" "si_operation (hd ys) = c_id op" "si_inputs (hd ys) = inputs" by simp_all
  moreover from this(1) ys(1) have "hd ys \<in> set opis" unfolding yss(2) set_concat by blast
  with opis(1) have "hd ys \<in> set is" unfolding whole set_concat by blast
  ultimately show ?thesis by blast
qed

section \<open>Properties\<close>

text \<open>Whatever the digest, the identity of an invocation is printed as a UUID: 36 characters with hyphens at their
  places, version 8 and the variant of RFC 9562.\<close>

theorem solverIdentity_uuid:
  "16 \<le> length (sha256 seed) \<Longrightarrow>
   length (solverIdentity sha256 seed) = 36 \<and>
   list_all (\<lambda>i. solverIdentity sha256 seed ! i = CHR ''-'') [8, 13, 18, 23] \<and>
   solverIdentity sha256 seed ! 14 = CHR ''8'' \<and> solverIdentity sha256 seed ! 19 \<in> set ''89ab''"
  by (intro conjI uuid_shape)

text \<open>Compilation keeps exactly the given operations, cheapest first, and what it accepts has distinct identities,
  valid predicates, costs of at least 0 and gathers whose member variables bind nothing else.\<close>

theorem compile_sorts_valid:
  "compileObservationOperations ck ops = Inr cs \<Longrightarrow>
   mset cs = mset ops \<and> distinct (map c_id cs) \<and> list_all operation_ok cs \<and>
   sorted_wrt (\<lambda>a b. orelse (c_cost a) 1 \<le> orelse (c_cost b) 1) cs"
  by (intro conjI compiled)

text \<open>C24. Every invocation of the frontier is justified by observations alone: an available operation requires what its
  inputs, all of them given facts, jointly prove, and its gathers hold the one fact of every member of their sealed
  collections; and no choice of facts that jointly proves the requirements of an operation without gathers is missed.\<close>

theorem frontier_sound_complete:
  "solveObservedFrontier sha256 runId operations facts k = Inr is \<Longrightarrow> list_all operation_ok operations \<Longrightarrow>
   list_all (\<lambda>i. list_ex (justified_by facts i) operations) is \<and>
   (\<forall>op inputs. op \<in> set operations \<and> c_available op \<noteq> Some False \<and> orelse (so_gathers op) [] = [] \<and>
      set inputs \<subseteq> set facts \<and> jointly_provable (c_requires op) (map planValue inputs) \<longrightarrow>
      (\<exists>i\<in>set is. si_operation i = c_id op \<and> si_inputs i = inputs))"
  using frontier_justified frontier_complete unfolding list_all_iff by meson

section \<open>Witnesses\<close>

text \<open>One operation turns the fact \<open>p\<close> into the goal \<open>q\<close>.\<close>

definition observe_op :: SolverOperation where
  "observe_op =
     \<lparr>c_id = ''o'', c_actor = ''a'', c_method = ''m'', c_requires = [''p''], c_produces = [''q''], c_cost = None,
      c_available = None, c_mode = None, c_idempotency = None, c_parametersSchema = None, c_inputSlots = None,
      c_outputSlots = None, so_gathers = None, so_failureProduces = None\<rparr>"

definition given_fact :: SolverFact where
  "given_fact = \<lparr>sf_id = ''f'', sf_predicate = ''p'', sf_value = JsNull\<rparr>"

definition goal_fact :: SolverFact where
  "goal_fact = \<lparr>sf_id = ''g'', sf_predicate = ''q'', sf_value = JsNull\<rparr>"

definition zero_digest :: "string \<Rightarrow> 8 word list" where
  "zero_digest s = replicate 32 0"

definition no_collation :: collation where
  "no_collation s = []"

definition observe_invocation :: SolverInvocation where
  "observe_invocation = \<lparr>si_id = ''00000000-0000-8000-8000-000000000000'', si_operation = ''o'', si_bindings = [],
     si_inputs = [given_fact], si_gathers = []\<rparr>"

lemma observe_frontier:
  "solveObservedFrontier zero_digest ''r'' [observe_op] [given_fact] 9 = Inr [observe_invocation]"
  "solveObservedFrontier zero_digest ''r'' [observe_op] [given_fact, goal_fact] 9 = Inr [observe_invocation]"
  by code_simp+

lemma observe_op_ok: "operation_ok observe_op"
  by code_simp

theorem solverIdentity_uuid_witness:
  "length (solverIdentity zero_digest ''seed'') = 36 \<and> solverIdentity zero_digest ''seed'' ! 14 = CHR ''8''"
  using solverIdentity_uuid [of zero_digest "''seed''"] by (simp add: zero_digest_def)

definition dear_op :: SolverOperation where
  "dear_op = observe_op\<lparr>c_id := ''d'', c_cost := Some 3\<rparr>"

lemma dear_compiled: "compileObservationOperations no_collation [dear_op, observe_op] = Inr [observe_op, dear_op]"
  by code_simp

theorem compile_sorts_valid_witness:
  "mset [observe_op, dear_op] = mset [dear_op, observe_op] \<and>
   sorted_wrt (\<lambda>a b. orelse (c_cost a) 1 \<le> orelse (c_cost b) 1) [observe_op, dear_op]"
  using compile_sorts_valid [OF dear_compiled] by blast

theorem frontier_sound_complete_witness:
  "list_all (\<lambda>i. list_ex (justified_by [given_fact] i) [observe_op]) [observe_invocation]"
  using frontier_sound_complete [OF observe_frontier(1)] observe_op_ok by simp

end
