(* ===== verification/Observation_Run.thy ===== *)
theory Observation_Run
  imports Observation_Frontier Systems
begin

text \<open>
  The execution of an observed program: what a result rests on, what its state means, and how the host's port is
  used.  Every loop ends, since \<open>observe_loop\<close> is a total function: an iteration that does not return adds a receipt,
  and their number is bounded.
\<close>

section \<open>Admitted facts\<close>

text \<open>A fact that may be known: well formed, identified, ground and portable.\<close>

definition observed_fact :: "SolverFact \<Rightarrow> bool" where
  "observed_fact f \<longleftrightarrow>
     predicate_syntax (sf_predicate f) \<and> sf_id f \<noteq> [] \<and>
     list_all (\<lambda>a. \<not> isVariable a) (term_args (parseTerm (sf_predicate f))) \<and> portableTree (fact_js f) ''$'' = Inr ()"

abbreviation known_facts :: "(string, SolverFact) jsmap \<Rightarrow> bool" where
  "known_facts \<equiv> keyed sf_id observed_fact"

lemma admit_factD:
  assumes "admit_fact facts f = Inr facts'" "known_facts facts"
  shows "known_facts facts'" "set (map_values facts') = insert f (set (map_values facts))"
proof -
  from assms(1) have ok: "observed_fact f" and facts': "facts' = AList.update (sf_id f) f facts"
    and same: "\<And>existing. map_of facts (sf_id f) = Some existing \<Longrightarrow> existing = f"
    by (auto simp: admit_fact_def observed_fact_def list_all_iff list_ex_iff split: option.splits)
  show "known_facts facts'" unfolding facts' using assms(2) ok by (simp add: keyed_update)
  show "set (map_values facts') = insert f (set (map_values facts))"
  proof (cases "map_of facts (sf_id f)")
    case None
    then have "\<not> has facts (sf_id f)" by (simp add: has_map_of)
    then show ?thesis by (simp add: facts' update_new)
  next
    case (Some existing)
    with same have "map_of facts (sf_id f) = Some f" by simp
    then have "facts' = facts" "f \<in> set (map_values facts)"
      by (simp_all add: facts' update_triv) (force dest: map_of_SomeD)
    then show ?thesis by auto
  qed
qed

lemma admit_allD:
  "admit_all facts fs = Inr facts' \<Longrightarrow> known_facts facts \<Longrightarrow>
   known_facts facts' \<and> set (map_values facts') = set (map_values facts) \<union> set fs"
proof (induction fs arbitrary: facts)
  case (Cons f fs)
  then obtain facts1 where 1: "admit_fact facts f = Inr facts1" "admit_all facts1 fs = Inr facts'" by auto
  from admit_factD [OF 1(1) Cons.prems(2)] Cons.IH [OF 1(2)] show ?case by auto
qed simp

lemma known_distinct: "known_facts facts \<Longrightarrow> distinct (map sf_id (map_values facts)) \<and> list_all observed_fact (map_values facts)"
proof -
  assume known: "known_facts facts"
  have "map sf_id (map_values facts) = map fst facts"
    using known by (auto simp: keyed_def)
  then have "distinct (map sf_id (map_values facts))" using known by (simp only: keyed_def)
  moreover have "list_all observed_fact (map_values facts)" using known by (auto simp: keyed_def list_all_iff)
  ultimately show ?thesis ..
qed

section \<open>The invariant of the loop\<close>

text \<open>A receipt is accounted for by an operation that declares, under the bindings of its invocation, every fact
  it published.\<close>

definition accounted :: "SolverOperation list \<Rightarrow> SolverReceipt \<Rightarrow> bool" where
  "accounted operations r \<longleftrightarrow>
     list_ex (\<lambda>op. c_id op = sr_operation r \<and> sr_state r \<in> {''succeeded'', ''failed''} \<and>
       (\<exists>b. list_all (\<lambda>f. list_ex (\<lambda>p. matches_of [substitute p b] [planValue f] \<noteq> []) (declared op r)) (sr_facts r)))
     operations"

definition run_ok :: "'w observation_options \<Rightarrow> SolverOperation list \<Rightarrow> observed \<Rightarrow> bool" where
  "run_ok opts operations s \<longleftrightarrow>
     known_facts (os_facts s) \<and>
     set (map_values (os_facts s)) = set (oo_ingredients opts) \<union> \<Union> (set ` sr_facts ` set (os_receipts s)) \<and>
     os_completed s = map sr_invocationId (os_receipts s) \<and> distinct (os_completed s) \<and>
     length (os_receipts s) \<le> max_invocations opts \<and> list_all (accounted operations) (os_receipts s)"

lemma find_SomeD: "find P xs = Some x \<Longrightarrow> x \<in> set xs \<and> P x"
  by (auto simp: find_Some_iff)

lemma decide_Perform:
  assumes "decide_next sha256 opts operations s aborted = Perform op i"
  shows "op \<in> set operations" "c_id op = si_operation i" "si_id i \<notin> set (os_completed s)"
    "length (os_receipts s) < max_invocations opts"
    "\<exists>frontier. frontier_of sha256 opts operations s = Inr frontier \<and> i \<in> set frontier"
  using assms
  by (auto simp: decide_next_def split: if_splits sum.splits err.splits option.splits dest!: find_SomeD)

lemma performD:
  assumes "perform_invocation opts op i s w = (Inr s', w')"
  obtains receipt facts where "check_receipt op i receipt = Inr ()" "admit_all (os_facts s) (sr_facts receipt) = Inr facts"
    "s' = \<lparr>os_facts = facts, os_receipts = os_receipts s @ [receipt], os_completed = os_completed s @ [si_id i]\<rparr>"
  using assms by (auto simp: perform_invocation_def bind_io_def lift_def return_def split: prod.splits sum.splits)

lemma check_receipt_accounted:
  assumes "check_receipt op i receipt = Inr ()" "op \<in> set operations" "c_id op = si_operation i"
  shows "accounted operations receipt" "sr_invocationId receipt = si_id i"
proof -
  from assms(1) have ok: "sr_invocationId receipt = si_id i" "sr_operation receipt = si_operation i"
    "sr_state receipt \<in> {''succeeded'', ''failed''}" "list_all (fact_declared op i receipt) (sr_facts receipt)"
    by (auto simp: check_receipt_def each_Inr_iff list_all_iff)
  then show "sr_invocationId receipt = si_id i" by simp
  from ok(4) have "\<exists>b. list_all (\<lambda>f. list_ex (\<lambda>p. matches_of [substitute p b] [planValue f] \<noteq> []) (declared op receipt)) (sr_facts receipt)"
    unfolding fact_declared_def by blast
  with ok(2,3) assms(2,3) show "accounted operations receipt" unfolding accounted_def list_ex_iff by (metis (no_types, lifting))
qed

lemma perform_ok:
  assumes ok: "run_ok opts operations s" and d: "decide_next sha256 opts operations s aborted = Perform op i"
    and p: "perform_invocation opts op i s w = (Inr s', w')"
  shows "run_ok opts operations s'"
proof -
  note i = decide_Perform [OF d]
  from p obtain receipt facts where r: "check_receipt op i receipt = Inr ()"
    and facts: "admit_all (os_facts s) (sr_facts receipt) = Inr facts"
    and s': "s' = \<lparr>os_facts = facts, os_receipts = os_receipts s @ [receipt], os_completed = os_completed s @ [si_id i]\<rparr>"
    by (rule performD)
  from ok have known: "known_facts (os_facts s)" by (simp add: run_ok_def)
  from admit_allD [OF facts known] check_receipt_accounted [OF r i(1,2)] i(3,4) ok
  show ?thesis by (auto simp: run_ok_def s')
qed

lemma observe_loop_ends:
  assumes "observe_loop sha256 opts operations s w = (Inr r, w')" "run_ok opts operations s"
  obtains s' state aborted where "run_ok opts operations s'" "decide_next sha256 opts operations s' aborted = Finish state"
    "r = observation_result opts s' state"
  using assms
proof (induction sha256 opts operations s w arbitrary: thesis rule: observe_loop.induct)
  case (1 sha256 opts operations s w)
  let ?d = "decide_next sha256 opts operations s (oo_aborted opts w)"
  show ?case
  proof (cases ?d)
    case (Finish state)
    with "1.prems"(2) have "r = observation_result opts s state"
      by (simp add: observe_loop.simps [of sha256 opts operations s w] observe_step_def)
    with Finish "1.prems"(1,3) show ?thesis by blast
  next
    case (Fail e)
    with "1.prems"(2) show ?thesis by (simp add: observe_loop.simps [of sha256 opts operations s w] observe_step_def)
  next
    case (Perform op i)
    obtain res w1 where p: "perform_invocation opts op i s w = (res, w1)" by (cases "perform_invocation opts op i s w")
    show ?thesis
    proof (cases res)
      case (Inl e)
      with Perform p "1.prems"(2) show ?thesis
        by (simp add: observe_loop.simps [of sha256 opts operations s w] observe_step_def bind_io_def)
    next
      case (Inr s1)
      with Perform p have step: "observe_step sha256 opts operations s w = (Inr (Inr s1), w1)"
        by (simp add: observe_step_def bind_io_def return_def)
      then have "observe_loop sha256 opts operations s w = observe_loop sha256 opts operations s1 w1"
        by (simp add: observe_loop.simps [of sha256 opts operations s w])
      with "1.prems"(2) have rest: "observe_loop sha256 opts operations s1 w1 = (Inr r, w')" by simp
      from perform_ok [OF "1.prems"(3) Perform] p Inr have "run_ok opts operations s1" by blast
      then show ?thesis using "1.IH" [OF step [symmetric] refl refl] "1.prems"(1) rest by blast
    qed
  qed
qed

lemma executed:
  assumes "executeObservedProgram sha256 ck opts w = (Inr r, w')"
  obtains compiled s state aborted where "compileObservationOperations ck (oo_operations opts) = Inr compiled"
    "run_ok opts (filter (admitted opts) compiled) s"
    "decide_next sha256 opts (filter (admitted opts) compiled) s aborted = Finish state" "r = observation_result opts s state"
proof -
  from assms obtain compiled facts where c: "compileObservationOperations ck (oo_operations opts) = Inr compiled"
    and facts: "admit_all [] (oo_ingredients opts) = Inr facts"
    and loop: "observe_loop sha256 opts (filter (admitted opts) compiled)
       \<lparr>os_facts = facts, os_receipts = [], os_completed = []\<rparr> w = (Inr r, w')"
    by (auto simp: executeObservedProgram_def bind_io_def lift_def split: sum.splits)
  from admit_allD [OF facts] have "run_ok opts (filter (admitted opts) compiled) \<lparr>os_facts = facts, os_receipts = [], os_completed = []\<rparr>"
    by (auto simp: run_ok_def)
  with loop show ?thesis by (rule observe_loop_ends) (rule that [OF c])
qed

section \<open>The use of the port\<close>

text \<open>The calls an execution makes of its host, recorded.\<close>

datatype port_event =
    Looked SolverInvocation
  | Invoked SolverInvocation
  | Reported SolverReceipt SolverInvocation

definition traced :: "'w observation_options \<Rightarrow> (port_event list \<times> 'w) observation_options" where
  "traced opts =
     \<lparr>oo_runId = oo_runId opts, oo_operations = oo_operations opts, oo_ingredients = oo_ingredients opts,
      oo_goals = oo_goals opts, oo_goalOnly = oo_goalOnly opts,
      oo_port = \<lparr>port_lookup = \<lambda>i. call (port_lookup (oo_port opts) i) (\<lambda>_. Looked i),
                 port_invoke = \<lambda>i. call (port_invoke (oo_port opts) i) (\<lambda>_. Invoked i)\<rparr>,
      oo_maxInvocations = oo_maxInvocations opts, oo_maxSearchAttempts = oo_maxSearchAttempts opts,
      oo_allowEffects = oo_allowEffects opts, oo_aborted = \<lambda>(_, w). oo_aborted opts w,
      oo_onReceipt = \<lambda>r i. call (oo_onReceipt opts r i) (\<lambda>_. Reported r i)\<rparr>"

text \<open>The protocol: an invocation that has not completed and whose operation is permitted is looked up first; only then it may
  be invoked, once; its receipt completes it.  The state holds the completed identities and the call under way.\<close>

datatype port_phase = Quiet | Looking SolverInvocation | Invoking SolverInvocation

fun port_protocol :: "(SolverInvocation \<Rightarrow> bool) \<Rightarrow> string list \<times> port_phase \<Rightarrow> port_event \<Rightarrow> (string list \<times> port_phase) option" where
  "port_protocol permit (ids, Quiet) (Looked i) = (if permit i \<and> si_id i \<notin> set ids then Some (ids, Looking i) else None)"
| "port_protocol permit (ids, Looking i) (Invoked j) = (if j = i then Some (ids, Invoking i) else None)"
| "port_protocol permit (ids, Looking i) (Reported r j) =
     (if j = i \<and> sr_invocationId r = si_id i then Some (ids @ [si_id i], Quiet) else None)"
| "port_protocol permit (ids, Invoking i) (Reported r j) =
     (if j = i \<and> sr_invocationId r = si_id i then Some (ids @ [si_id i], Quiet) else None)"
| "port_protocol permit _ _ = None"

definition allowed_invocation :: "SolverOperation list \<Rightarrow> SolverInvocation \<Rightarrow> bool" where
  "allowed_invocation operations i \<longleftrightarrow> list_ex (\<lambda>op. c_id op = si_operation i) operations"

abbreviation reaches :: "SolverOperation list \<Rightarrow> string list \<times> port_phase \<Rightarrow> port_event list \<Rightarrow> bool" where
  "reaches operations st tr \<equiv> follow (port_protocol (allowed_invocation operations)) ([], Quiet) tr = Some st"

abbreviation obeys :: "SolverOperation list \<Rightarrow> port_event list \<Rightarrow> bool" where
  "obeys operations tr \<equiv> follow (port_protocol (allowed_invocation operations)) ([], Quiet) tr \<noteq> None"

lemma perform_protocol:
  assumes "allowed_invocation operations i" "si_id i \<notin> set (os_completed s)"
  shows "triple (on_trace (reaches operations (os_completed s, Quiet))) (perform_invocation (traced opts) op i s)
    (\<lambda>s'. on_trace (reaches operations (os_completed s', Quiet))) (\<lambda>_. on_trace (obeys operations))"
proof -
  have rest: "triple (on_trace (reaches operations (os_completed s, ph)))
      (bind_io (lift (check_receipt op i receipt)) (\<lambda>_.
       bind_io (lift (admit_all (os_facts s) (sr_facts receipt))) (\<lambda>facts.
       bind_io (oo_onReceipt (traced opts) receipt i) (\<lambda>_.
       return \<lparr>os_facts = facts, os_receipts = os_receipts s @ [receipt], os_completed = os_completed s @ [si_id i]\<rparr>))))
      (\<lambda>s'. on_trace (reaches operations (os_completed s', Quiet))) (\<lambda>_. on_trace (obeys operations))"
    if "ph = Looking i \<or> ph = Invoking i" for receipt ph
  proof (rule trace_lift)
    fix u assume "check_receipt op i receipt = Inr u"
    then have id: "sr_invocationId receipt = si_id i" by (auto simp: check_receipt_def)
    show "triple (on_trace (reaches operations (os_completed s, ph)))
      (bind_io (lift (admit_all (os_facts s) (sr_facts receipt))) (\<lambda>facts.
       bind_io (oo_onReceipt (traced opts) receipt i) (\<lambda>_.
       return \<lparr>os_facts = facts, os_receipts = os_receipts s @ [receipt], os_completed = os_completed s @ [si_id i]\<rparr>)))
      (\<lambda>s'. on_trace (reaches operations (os_completed s', Quiet))) (\<lambda>_. on_trace (obeys operations))"
      unfolding traced_def observation_options.simps
      by (rule trace_lift, rule trace_call [where p' = "\<lambda>_. reaches operations (os_completed s @ [si_id i], Quiet)"], rule_tac [3] trace_return)
        (use that id in \<open>auto simp: follow_append\<close>)
  qed simp
  show ?thesis
    unfolding perform_invocation_def
  proof (rule triple_bind)
    show "triple (on_trace (reaches operations (os_completed s, Quiet))) (run_port (oo_port (traced opts)) i)
      (\<lambda>_. on_trace (\<lambda>tr. reaches operations (os_completed s, Looking i) tr \<or> reaches operations (os_completed s, Invoking i) tr))
      (\<lambda>_. on_trace (obeys operations))"
      unfolding run_port_def traced_def observation_options.simps ObservationExecutionPort.simps
    proof (rule trace_call [where p' = "\<lambda>_. reaches operations (os_completed s, Looking i)"])
      fix found
      show "triple (on_trace (reaches operations (os_completed s, Looking i)))
        (case found of None \<Rightarrow> call (port_invoke (oo_port opts) i) (\<lambda>_. Invoked i) | Some receipt \<Rightarrow> return receipt)
        (\<lambda>_. on_trace (\<lambda>tr. reaches operations (os_completed s, Looking i) tr \<or> reaches operations (os_completed s, Invoking i) tr))
        (\<lambda>_. on_trace (obeys operations))"
      proof (cases found)
        case None
        show ?thesis unfolding None option.case by (rule trace_call_last) (auto simp: follow_append)
      next
        case (Some receipt)
        show ?thesis unfolding Some option.case by (rule trace_return) simp
      qed
    qed (use assms in \<open>auto simp: follow_append\<close>)
  next
    fix receipt
    show "triple (on_trace (\<lambda>tr. reaches operations (os_completed s, Looking i) tr \<or> reaches operations (os_completed s, Invoking i) tr))
      (bind_io (lift (check_receipt op i receipt)) (\<lambda>_.
       bind_io (lift (admit_all (os_facts s) (sr_facts receipt))) (\<lambda>facts.
       bind_io (oo_onReceipt (traced opts) receipt i) (\<lambda>_.
       return \<lparr>os_facts = facts, os_receipts = os_receipts s @ [receipt], os_completed = os_completed s @ [si_id i]\<rparr>))))
      (\<lambda>s'. on_trace (reaches operations (os_completed s', Quiet))) (\<lambda>_. on_trace (obeys operations))"
      using rest [of "Looking i" receipt] rest [of "Invoking i" receipt] by (auto simp: triple_def on_trace_def)
  qed
qed

lemma observe_loop_protocol:
  "on_trace (reaches operations (os_completed s, Quiet)) w \<Longrightarrow>
   on_trace (obeys operations) (snd (observe_loop sha256 (traced opts) operations s w))"
proof (induction sha256 "traced opts" operations s w rule: observe_loop.induct)
  case (1 sha256 operations s w)
  let ?d = "decide_next sha256 (traced opts) operations s (oo_aborted (traced opts) w)"
  have here: "on_trace (obeys operations) w" using "1.prems" by (auto simp: on_trace_def)
  show ?case
  proof (cases ?d)
    case (Perform op i)
    note i = decide_Perform [OF Perform]
    have allowed: "allowed_invocation operations i" using i(1,2) by (auto simp: allowed_invocation_def list_ex_iff)
    note protocol = perform_protocol [OF allowed i(3), of opts op]
    obtain res w1 where p: "perform_invocation (traced opts) op i s w = (res, w1)" by (cases "perform_invocation (traced opts) op i s w")
    show ?thesis
    proof (cases res)
      case (Inl e)
      with triple_Inl [OF protocol "1.prems"] p Perform show ?thesis
        by (simp add: observe_loop.simps [of sha256 "traced opts" operations s w] observe_step_def bind_io_def)
    next
      case (Inr s1)
      with Perform p have step: "observe_step sha256 (traced opts) operations s w = (Inr (Inr s1), w1)"
        by (simp add: observe_step_def bind_io_def return_def)
      from triple_Inr [OF protocol "1.prems"] p Inr have "on_trace (reaches operations (os_completed s1, Quiet)) w1" by blast
      from "1.hyps" [OF step [symmetric] refl refl this] show ?thesis
        by (simp add: observe_loop.simps [of sha256 "traced opts" operations s w] step)
    qed
  qed (use here in \<open>simp_all add: observe_loop.simps [of sha256 "traced opts" operations s w] observe_step_def\<close>)
qed

lemma allowed_invocation_set: "set xs = set ys \<Longrightarrow> allowed_invocation xs = allowed_invocation ys"
  by (simp add: allowed_invocation_def list_ex_iff fun_eq_iff)

lemma compiled_set: "compileObservationOperations ck ops = Inr cs \<Longrightarrow> set cs = set ops"
  by (rule mset_eq_setD) (rule compiled)

section \<open>Properties\<close>


text \<open>No invocation of the frontier is left.\<close>

definition settled :: "(string \<Rightarrow> 8 word list) \<Rightarrow> collation \<Rightarrow> 'w observation_options \<Rightarrow> ObservationRunResult \<Rightarrow> bool" where
  "settled sha256 ck opts r \<longleftrightarrow>
     (case compileObservationOperations ck (oo_operations opts) of
        Inl _ \<Rightarrow> False
      | Inr compiled \<Rightarrow>
          (case solveObservedFrontier sha256 (oo_runId opts) (filter (admitted opts) compiled) (ob_facts r)
                  (orelse (oo_maxSearchAttempts opts) 100000) of
             Inl _ \<Rightarrow> False
           | Inr frontier \<Rightarrow> si_id ` set frontier \<subseteq> sr_invocationId ` set (ob_receipts r)))"


text \<open>C22. However the host behaves, each call of its port follows the protocol: only invocations of operations the policy
  admits, each looked up before it may be invoked, invoked at most once, and never again once its receipt was
  taken.\<close>

theorem port_protocol_followed:
  "follow (port_protocol (allowed_invocation (filter (admitted opts) (oo_operations opts)))) ([], Quiet)
     (fst (snd (executeObservedProgram sha256 ck (traced opts) ([], w)))) \<noteq> None"
proof -
  have admitted: "admitted (traced opts) = admitted opts" "oo_operations (traced opts) = oo_operations opts"
    by (simp_all add: admitted_def traced_def fun_eq_iff)
  let ?ops = "filter (admitted opts) (oo_operations opts)"
  have "on_trace (obeys ?ops) (snd (executeObservedProgram sha256 ck (traced opts) ([], w)))"
  proof (cases "compileObservationOperations ck (oo_operations opts)")
    case (Inl e)
    then show ?thesis by (simp add: executeObservedProgram_def bind_io_def lift_def admitted)
  next
    case (Inr compiled)
    note compiled = Inr
    from compiled_set [OF Inr] have same: "allowed_invocation (filter (admitted opts) compiled) = allowed_invocation ?ops"
      by (intro allowed_invocation_set) simp
    show ?thesis
    proof (cases "admit_all [] (oo_ingredients (traced opts))")
      case (Inl e)
      with compiled show ?thesis by (simp add: executeObservedProgram_def bind_io_def lift_def admitted)
    next
      case (Inr facts)
      have "on_trace (obeys (filter (admitted opts) compiled)) (snd (observe_loop sha256 (traced opts) (filter (admitted opts) compiled)
          \<lparr>os_facts = facts, os_receipts = [], os_completed = []\<rparr> ([], w)))"
        by (rule observe_loop_protocol) simp
      with compiled Inr show ?thesis by (simp add: executeObservedProgram_def bind_io_def lift_def admitted same)
    qed
  qed
  then show ?thesis by (simp add: on_trace_def split_def)
qed

section \<open>Witnesses\<close>

definition goal_receipt :: SolverReceipt where
  "goal_receipt = \<lparr>sr_invocationId = ''00000000-0000-8000-8000-000000000000'', sr_operation = ''o'', sr_state = ''succeeded'',
     sr_facts = [goal_fact], sr_error = None\<rparr>"

definition observe_options :: "unit observation_options" where
  "observe_options =
     \<lparr>oo_runId = ''r'', oo_operations = [observe_op], oo_ingredients = [given_fact], oo_goals = Some [''q''], oo_goalOnly = False,
      oo_port = \<lparr>port_lookup = \<lambda>_. return None, port_invoke = \<lambda>_. return goal_receipt\<rparr>, oo_maxInvocations = None,
      oo_maxSearchAttempts = Some 9, oo_allowEffects = False, oo_aborted = \<lambda>_. False, oo_onReceipt = \<lambda>_ _. return ()\<rparr>"

definition observe_state :: "SolverFact list \<Rightarrow> SolverReceipt list \<Rightarrow> observed" where
  "observe_state fs rs = \<lparr>os_facts = map (\<lambda>f. (sf_id f, f)) fs, os_receipts = rs, os_completed = map sr_invocationId rs\<rparr>"

definition observe_result :: ObservationRunResult where
  "observe_result = \<lparr>ob_state = RunComplete, ob_facts = [given_fact, goal_fact], ob_receipts = [goal_receipt], ob_goalsSatisfied = True\<rparr>"

lemma observe_goals:
  "goals_met observe_options [given_fact] = False" "goals_met observe_options [given_fact, goal_fact] = True"
  by code_simp+

lemma observe_receipt: "check_receipt observe_op observe_invocation goal_receipt = Inr ()"
  by code_simp

lemma observe_admit:
  "admit_all [(''f'', given_fact)] [goal_fact] = Inr [(''f'', given_fact), (''g'', goal_fact)]"
  by code_simp

lemma observe_first:
  "observe_step zero_digest observe_options [observe_op] (observe_state [given_fact] []) () =
   (Inr (Inr (observe_state [given_fact, goal_fact] [goal_receipt])), ())"
proof -
  have "decide_next zero_digest observe_options [observe_op] (observe_state [given_fact] []) False = Perform observe_op observe_invocation"
    using observe_frontier(1) observe_goals(1)
    by (simp add: decide_next_def frontier_of_def observe_state_def max_invocations_def observe_options_def)
      (simp add: observe_invocation_def observe_op_def)
  then show ?thesis
    using observe_receipt observe_admit
    by (simp add: observe_step_def perform_invocation_def run_port_def bind_io_def return_def lift_def observe_options_def observe_state_def)
      (simp add: given_fact_def goal_fact_def goal_receipt_def observe_invocation_def)
qed

lemma observe_second:
  "observe_step zero_digest observe_options [observe_op] (observe_state [given_fact, goal_fact] [goal_receipt]) () =
   (Inr (Inl observe_result), ())"
proof -
  have "decide_next zero_digest observe_options [observe_op] (observe_state [given_fact, goal_fact] [goal_receipt]) False = Finish RunComplete"
    using observe_frontier(2) observe_goals(2)
    by (simp add: decide_next_def frontier_of_def observe_state_def exhausted_state_def observe_options_def)
      (simp add: observe_invocation_def goal_receipt_def)
  then show ?thesis
    using observe_goals(2)
    by (simp add: observe_step_def observation_result_def observe_result_def observe_state_def observe_options_def)
qed

lemma observe_compiled: "compileObservationOperations no_collation (oo_operations observe_options) = Inr [observe_op]"
  by code_simp

lemma observe_admitted: "admit_all [] (oo_ingredients observe_options) = Inr [(''f'', given_fact)]"
  by code_simp

lemma observe_filter: "filter (admitted observe_options) [observe_op] = [observe_op]"
  by code_simp

lemma observe_run: "executeObservedProgram zero_digest no_collation observe_options () = (Inr observe_result, ())"
proof -
  have "observe_loop zero_digest observe_options [observe_op] (observe_state [given_fact] []) () = (Inr observe_result, ())"
    by (simp add: observe_loop.simps [of _ _ _ "observe_state [given_fact] []"] observe_first
        observe_loop.simps [of _ _ _ "observe_state [given_fact, goal_fact] [goal_receipt]"] observe_second)
  then show ?thesis
    unfolding executeObservedProgram_def bind_io_def lift_def observe_compiled observe_admitted sum.case prod.case observe_filter
    by (simp add: observe_state_def given_fact_def)
qed



end
