(* ===== verification/Session.thy ===== *)
theory Session
  imports Bus
begin

text \<open>
  The sandboxed half of an actor: libs/aven-actors/src/sandbox.ts, whose QuickJS virtual machine is a port that
  evaluates an expression to a text or an error value, and the methods of actor.ts and bus.ts that go through it.
  A call of the machine is one step: its fuel and memory limits show as errors it returns.
\<close>

section \<open>Logic sessions\<close>

text \<open>The virtual machine: the text of the result, or the dumped error value.\<close>

type_synonym 'w vm = "string \<Rightarrow> ('w, json + string) io"

record ActorEvent =
  ev_send :: string
  ev_payload :: "json_record option"

record ReduceOutcome =
  re_state :: json_record
  re_said :: "string option"
  re_record :: "json option"

record ShapeResult =
  sh_state :: "json option"
  sh_ops :: "json option"

definition reasonText :: "json \<Rightarrow> string" where
  "reasonText reason =
     (case reason of
        JObj entries \<Rightarrow> (case map_of entries ''message'' of Some m \<Rightarrow> js_String m | None \<Rightarrow> js_String reason)
      | _ \<Rightarrow> js_String reason)"

definition call_expression :: "string \<Rightarrow> string" where
  "call_expression expression = ''JSON.stringify((function(){ return ('' @ expression @ '') })() ?? null)''"

text \<open>\<open>#call\<close>; \<open>None\<close> is \<open>undefined\<close>.\<close>

definition session_call :: "(string \<Rightarrow> json res) \<Rightarrow> 'w vm \<Rightarrow> bool \<Rightarrow> string \<Rightarrow> ('w, json option) io" where
  "session_call parse vm disposed expression =
     (if disposed then throw (Err ''session is disposed'')
      else bind_io (vm (call_expression expression)) (\<lambda>result.
        case result of
          Inl reason \<Rightarrow> throw (Err (reasonText reason))
        | Inr text \<Rightarrow>
            if text = ''undefined'' then return None
            else bind_io (lift (parse text)) (\<lambda>j. return (Some j))))"

definition session_object :: "json option \<Rightarrow> string \<Rightarrow> json_record res" where
  "session_object value entry =
     (case value of
        Some (JObj entries) \<Rightarrow> Inr entries
      | Some j \<Rightarrow> Inl (Err (entry @ '' must return an object, got '' @ stringify j))
      | None \<Rightarrow> Inl (Err (entry @ '' must return an object, got undefined'')))"

text \<open>A state that was never set prints as \<open>undefined\<close>.\<close>

definition state_text :: "json option \<Rightarrow> string" where
  "state_text state = (case state of None \<Rightarrow> ''undefined'' | Some s \<Rightarrow> stringify s)"

definition session_initState :: "(string \<Rightarrow> json res) \<Rightarrow> 'w vm \<Rightarrow> bool \<Rightarrow> json_record \<Rightarrow> ('w, json_record) io" where
  "session_initState parse vm disposed source =
     bind_io (session_call parse vm disposed (''initState('' @ stringify (JObj source) @ '')'')) (\<lambda>out.
     lift (session_object out ''initState''))"

text \<open>A full outcome carries a state; a bare next state is the state.\<close>

definition normalize_outcome :: "json_record \<Rightarrow> ReduceOutcome" where
  "normalize_outcome out =
     (case map_of out ''state'' of
        Some (JObj state) \<Rightarrow>
          \<lparr>re_state = state,
           re_said = (case map_of out ''said'' of Some (JStr said) \<Rightarrow> Some said | _ \<Rightarrow> None),
           re_record = (case map_of out ''record'' of
               Some (JObj r) \<Rightarrow> Some (JObj r) | Some (JArr r) \<Rightarrow> Some (JArr r) | _ \<Rightarrow> None)\<rparr>
      | _ \<Rightarrow> \<lparr>re_state = out, re_said = None, re_record = None\<rparr>)"

definition event_json :: "ActorEvent \<Rightarrow> json" where
  "event_json event = JObj [(''send'', JStr (ev_send event)), (''payload'', JObj (orelse (ev_payload event) []))]"

definition session_reduce :: "(string \<Rightarrow> json res) \<Rightarrow> 'w vm \<Rightarrow> bool \<Rightarrow> json option \<Rightarrow> ActorEvent \<Rightarrow>
    ('w, ReduceOutcome) io" where
  "session_reduce parse vm disposed state event =
     bind_io (session_call parse vm disposed
       (''reduce('' @ state_text state @ '', '' @ stringify (event_json event) @ '')'')) (\<lambda>out.
     bind_io (lift (session_object out ''reduce'')) (\<lambda>entries.
     return (normalize_outcome entries)))"

text \<open>\<open>shape\<close>: an array is an object without the two members.\<close>

definition session_shape :: "(string \<Rightarrow> json res) \<Rightarrow> 'w vm \<Rightarrow> bool \<Rightarrow> json option \<Rightarrow> string \<Rightarrow>
    ('w, ShapeResult option) io" where
  "session_shape parse vm disposed state rawText =
     bind_io (session_call parse vm disposed
       (''shape('' @ state_text state @ '', '' @ stringify (JStr rawText) @ '')'')) (\<lambda>out.
     return (case out of
       Some (JObj entries) \<Rightarrow> Some \<lparr>sh_state = map_of entries ''state'', sh_ops = map_of entries ''ops''\<rparr>
     | Some (JArr _) \<Rightarrow> Some \<lparr>sh_state = None, sh_ops = None\<rparr>
     | _ \<Rightarrow> None))"

section \<open>Capabilities\<close>

text \<open>A property of a plain object: one of its own, or an inherited function.\<close>

datatype 'c capability_impl = Provided 'c | Inherited string

definition property_of :: "(string, 'c) jsmap \<Rightarrow> string \<Rightarrow> 'c capability_impl option" where
  "property_of obj name =
     (case map_of obj name of
        Some c \<Rightarrow> Some (Provided c)
      | None \<Rightarrow> if name \<in> set prototype_names then Some (Inherited name) else None)"

definition granted_capabilities :: "Manifest \<Rightarrow> (string, 'c) jsmap \<Rightarrow> (string, 'c capability_impl) jsmap" where
  "granted_capabilities manifest caps =
     map_from (concat (map (\<lambda>name. case property_of caps name of Some c \<Rightarrow> [(name, c)] | None \<Rightarrow> [])
       (orelse (m_capabilities manifest) [])))"

text \<open>The capability door of a session: \<open>caps[name]\<close>, or the error inside the machine.\<close>

definition capability_door :: "(string, 'c capability_impl) jsmap \<Rightarrow> string \<Rightarrow> 'c capability_impl res" where
  "capability_door caps name =
     (case property_of caps name of
        Some (Provided c) \<Rightarrow> Inr c
      | Some (Inherited n) \<Rightarrow> Inr (Inherited n)
      | None \<Rightarrow> Inl (Err (''capability '' @ [CHR 0x22] @ name @ [CHR 0x22] @ '' is not granted'')))"

section \<open>The session of an actor\<close>

text \<open>QuickJS: a context with its capability door, the evaluation of the prelude and of the logic, and of expressions.\<close>

record ('w, 'c) quickjs =
  qj_open :: "(string \<Rightarrow> 'c capability_impl res) \<Rightarrow> ('w, unit) io"
  qj_prelude :: "('w, bool) io"
  qj_load :: "string \<Rightarrow> ('w, json + unit) io"
  qj_eval :: "'w vm"
  qj_dispose :: "('w, unit) io"

definition createSession :: "('w, 'c) quickjs \<Rightarrow> string \<Rightarrow> (string, 'c capability_impl) jsmap \<Rightarrow> ('w, unit) io" where
  "createSession qj logic caps =
     bind_io (qj_open qj (capability_door caps)) (\<lambda>_.
     bind_io (qj_prelude qj) (\<lambda>ok.
     if \<not> ok then bind_io (qj_dispose qj) (\<lambda>_. throw (Err ''capability prelude failed''))
     else bind_io (qj_load qj logic) (\<lambda>evaluated.
       case evaluated of
         Inl reason \<Rightarrow> bind_io (qj_dispose qj) (\<lambda>_. throw (Err (reasonText reason)))
       | Inr _ \<Rightarrow> return ())))"

text \<open>The members \<open>#ready\<close>, \<open>#session\<close> and \<open>state\<close> of an actor.\<close>

record actor_session =
  ss_ready :: "unit res"
  ss_open :: bool
  ss_state :: "json option"

type_synonym ('w, 'a) session_step = "(actor_session \<times> 'w, 'a) io"

definition in_world :: "('w, 'a) io \<Rightarrow> ('w, 'a) session_step" where
  "in_world m = (\<lambda>(ss, w). case m w of (r, w') \<Rightarrow> (r, (ss, w')))"

definition set_state :: "json \<Rightarrow> ('w, unit) session_step" where
  "set_state state = (\<lambda>(ss, w). (Inr (), (ss\<lparr>ss_state := Some state\<rparr>, w)))"

definition the_session :: "('w, actor_session) session_step" where
  "the_session = (\<lambda>(ss, w). (Inr ss, (ss, w)))"

definition boot :: "(string \<Rightarrow> json res) \<Rightarrow> ('w, 'c) quickjs \<Rightarrow> Manifest \<Rightarrow> (string, 'c) jsmap \<Rightarrow> ('w, unit) session_step" where
  "boot parse qj manifest caps =
     bind_io (in_world (createSession qj (orelse (m_logic manifest) []) (granted_capabilities manifest caps))) (\<lambda>_.
     bind_io (\<lambda>(ss, w). (Inr (), (ss\<lparr>ss_open := True\<rparr>, w))) (\<lambda>_.
     bind_io (in_world (session_initState parse (qj_eval qj) False (orelse (m_source manifest) []))) (\<lambda>state.
     set_state (JObj state))))"

text \<open>The constructor: \<open>#ready\<close> is the outcome of \<open>#boot\<close>, when there is logic.\<close>

definition new_session :: "(string \<Rightarrow> json res) \<Rightarrow> ('w, 'c) quickjs \<Rightarrow> Manifest \<Rightarrow> (string, 'c) jsmap \<Rightarrow> 'w \<Rightarrow> actor_session \<times> 'w" where
  "new_session parse qj manifest caps w =
     (let fresh = \<lparr>ss_ready = Inr (), ss_open = False, ss_state = None\<rparr> in
      case truthy (m_logic manifest) of
        None \<Rightarrow> (fresh, w)
      | Some _ \<Rightarrow> (case boot parse qj manifest caps (fresh, w) of (r, (ss, w')) \<Rightarrow> (ss\<lparr>ss_ready := r\<rparr>, w')))"

definition dispose_session :: "('w, 'c) quickjs \<Rightarrow> ('w, unit) session_step" where
  "dispose_session qj =
     bind_io the_session (\<lambda>ss.
     bind_io (if ss_open ss then in_world (qj_dispose qj) else return ()) (\<lambda>_.
     (\<lambda>(ss, w). (Inr (), (ss\<lparr>ss_open := False\<rparr>, w)))))"

definition applyEvent :: "(string \<Rightarrow> json res) \<Rightarrow> 'w vm \<Rightarrow> Manifest \<Rightarrow> ActorEvent \<Rightarrow> ('w, ReduceOutcome) session_step" where
  "applyEvent parse vm manifest event =
     bind_io the_session (\<lambda>ss.
     bind_io (lift (ss_ready ss)) (\<lambda>_.
     if \<not> ss_open ss then throw (Err (m_id manifest @ '' has no logic session''))
     else
       bind_io (in_world (session_reduce parse vm False (ss_state ss) event)) (\<lambda>outcome.
       bind_io (set_state (JObj (re_state outcome))) (\<lambda>_. return outcome))))"

definition js_truthy :: "json \<Rightarrow> bool" where
  "js_truthy j \<longleftrightarrow> j \<notin> {JNull, JBool False, JNum 0, JStr []}"

definition shapeModelText :: "(string \<Rightarrow> json res) \<Rightarrow> 'w vm \<Rightarrow> string \<Rightarrow> ('w, ShapeResult option) session_step" where
  "shapeModelText parse vm rawText =
     bind_io the_session (\<lambda>ss.
     bind_io (lift (ss_ready ss)) (\<lambda>_.
     if \<not> ss_open ss then return None
     else
       bind_io (in_world (session_shape parse vm False (ss_state ss) rawText)) (\<lambda>shaped.
       bind_io (case Option.bind shaped sh_state of
           Some state \<Rightarrow> if js_truthy state then set_state state else return ()
         | None \<Rightarrow> return ()) (\<lambda>_. return shaped))))"

text \<open>\<open>#adapt\<close>: the answer of a tool call.  Spreading an array gives its indices as keys, which come first.\<close>

definition with_ok :: "json \<Rightarrow> json" where
  "with_ok record =
     (case record of
        JObj entries \<Rightarrow> if has entries ''ok'' then record else JObj (spread [(''ok'', JBool True)] entries)
      | JArr xs \<Rightarrow> JObj (map (\<lambda>(i, x). (string_of_nat i, x)) (enumerate 0 xs) @ [(''ok'', JBool True)])
      | _ \<Rightarrow> JObj [(''ok'', JBool True)])"

definition adapt :: "(string \<Rightarrow> json res) \<Rightarrow> 'w vm \<Rightarrow> Manifest \<Rightarrow> string \<Rightarrow> json_record \<Rightarrow> ('w, HandlerResult) session_step" where
  "adapt parse vm manifest name payload =
     bind_io (applyEvent parse vm manifest \<lparr>ev_send = name, ev_payload = Some payload\<rparr>) (\<lambda>outcome.
     let record = orelse (re_record outcome) (JObj [(''ok'', JBool True)]) in
     return \<lparr>hr_record = stringify (with_ok record), hr_wire = orelse (re_said outcome) (stringify record)\<rparr>)"

text \<open>\<open>uiEvent\<close> of bus.ts on the session of the actor the reference leads to, if any.\<close>

definition uiEvent :: "(string \<Rightarrow> json res) \<Rightarrow> 'w vm \<Rightarrow> 'h bus \<Rightarrow> string \<Rightarrow> ActorEvent \<Rightarrow> ('w, unit) session_step" where
  "uiEvent parse vm b ref event =
     (case get b ref of
        None \<Rightarrow> return ()
      | Some a \<Rightarrow>
          catch (bind_io (applyEvent parse vm (actor_manifest a) event) (\<lambda>_. return ())) (\<lambda>_. return ()))"

section \<open>Containment\<close>

lemma map_from_keys: "has (map_from ps) k \<longleftrightarrow> (\<exists>v. (k, v) \<in> set ps)"
  by (simp add: image_iff) force

lemma granted_names:
  "has (granted_capabilities manifest caps) name \<longleftrightarrow>
   name \<in> set (orelse (m_capabilities manifest) []) \<and> (has caps name \<or> name \<in> set prototype_names)"
  unfolding granted_capabilities_def map_from_keys
  by (auto simp: property_of_def has_map_of split: option.splits if_splits)

lemma door_names:
  "\<not> isl (capability_door (granted_capabilities manifest caps) name) \<longleftrightarrow>
   has (granted_capabilities manifest caps) name \<or> name \<in> set prototype_names"
  by (auto simp: capability_door_def property_of_def has_map_of split: option.splits)

lemmas session_steps = bind_io_def the_session_def lift_def throw_def in_world_def set_state_def return_def

lemma applyEvent_eq:
  "applyEvent parse vm manifest event (ss, w) =
     (case ss_ready ss of
        Inl e \<Rightarrow> (Inl e, (ss, w))
      | Inr _ \<Rightarrow>
          if \<not> ss_open ss then (Inl (Err (m_id manifest @ '' has no logic session'')), (ss, w))
          else (case session_reduce parse vm False (ss_state ss) event w of
              (Inl e, w') \<Rightarrow> (Inl e, (ss, w'))
            | (Inr outcome, w') \<Rightarrow> (Inr outcome, (ss\<lparr>ss_state := Some (JObj (re_state outcome))\<rparr>, w'))))"
  by (cases "ss_ready ss"; cases "session_reduce parse vm False (ss_state ss) event w"; cases "fst (session_reduce parse vm False (ss_state ss) event w)")
    (simp_all add: applyEvent_def session_steps)

lemma uiEvent_state:
  "uiEvent parse vm b ref event (ss, w) = (r, (ss', w')) \<Longrightarrow>
   r = Inr () \<and> (ss' = ss \<or> (\<exists>entries. ss' = ss\<lparr>ss_state := Some (JObj entries)\<rparr>))"
  by (auto simp: uiEvent_def catch_def applyEvent_eq bind_io_def return_def split: option.splits sum.splits prod.splits if_splits)

section \<open>Properties\<close>

text \<open>Grants are fail-closed: an actor's session is granted exactly the capabilities its manifest declares and the host
  provides, and its door opens to nothing else but what every JavaScript object inherits.\<close>

theorem grants_fail_closed:
  "set (map fst (granted_capabilities manifest caps)) =
     set (orelse (m_capabilities manifest) []) \<inter> (set (map fst caps) \<union> set prototype_names) \<and>
   {name. \<not> isl (capability_door (granted_capabilities manifest caps) name)} =
     set (map fst (granted_capabilities manifest caps)) \<union> set prototype_names"
  using granted_names [of _ manifest caps] door_names [of manifest caps] by auto

text \<open>An event of the user interface is contained: whatever the machine does, the call returns, and the state is what it
  was or an object the machine's answer holds.\<close>

theorem uiEvent_contained:
  "case uiEvent parse vm b ref event (ss, w) of (r, (ss', w')) \<Rightarrow>
     r = Inr () \<and> (ss' = ss \<or> (\<exists>entries. ss' = ss\<lparr>ss_state := Some (JObj entries)\<rparr>))"
proof -
  obtain r ss' w' where "uiEvent parse vm b ref event (ss, w) = (r, (ss', w'))" by (metis surj_pair)
  with uiEvent_state [OF this] show ?thesis by simp
qed

text \<open>The text a model answers with is shaped by the logic alone, but what it makes the state need not be an object.\<close>

lemma shape_stores_text:
  "snd (shapeModelText (\<lambda>_. Inr (JObj [(''state'', JStr ''x'')])) (\<lambda>_. return (Inr [])) []
     (\<lparr>ss_ready = Inr (), ss_open = True, ss_state = Some (JObj [])\<rparr>, ())) =
   (\<lparr>ss_ready = Inr (), ss_open = True, ss_state = Some (JStr ''x'')\<rparr>, ())"
  by (simp add: shapeModelText_def session_shape_def session_call_def session_steps js_truthy_def)

text \<open>The name of an inherited function opens the door without a grant.\<close>

lemma constructor_ungranted: "capability_door [] ''constructor'' = Inr (Inherited ''constructor'')"
  by (simp add: capability_door_def property_of_def prototype_names_def)

end
