(* ===== verification/Canonical.thy ===== *)
theory Canonical
  imports Prelude "HOL-Library.Word"
begin

text \<open>
  libs/aven-artifact-store/src/canonical.ts: the canonical text of Artifact JSON and the strict parser that is read
  before a digest is trusted.  Strings are lists of 16-bit code units, as in JavaScript, since the order of keys
  depends on surrogate pairs.  Numbers are integers.  The UTF-8 coding of bytes is a parameter.
\<close>

section \<open>Code units\<close>

type_synonym units = "16 word list"

definition unit_of :: "char \<Rightarrow> 16 word" where
  "unit_of c = word_of_nat (of_char c)"

abbreviation ascii :: "string \<Rightarrow> units" where
  "ascii s \<equiv> map unit_of s"

abbreviation quote_mark :: "16 word" where "quote_mark \<equiv> 0x22"
abbreviation backslash :: "16 word" where "backslash \<equiv> 0x5C"
abbreviation comma :: "16 word" where "comma \<equiv> 0x2C"
abbreviation colon :: "16 word" where "colon \<equiv> 0x3A"
abbreviation minus_sign :: "16 word" where "minus_sign \<equiv> 0x2D"
abbreviation open_bracket :: "16 word" where "open_bracket \<equiv> 0x5B"
abbreviation close_bracket :: "16 word" where "close_bracket \<equiv> 0x5D"
abbreviation open_brace :: "16 word" where "open_brace \<equiv> 0x7B"
abbreviation close_brace :: "16 word" where "close_brace \<equiv> 0x7D"

definition is_digit :: "16 word \<Rightarrow> bool" where
  "is_digit c \<longleftrightarrow> 0x30 \<le> c \<and> c \<le> 0x39"

text \<open>The class \<open>\s\<close>.\<close>

definition is_space :: "16 word \<Rightarrow> bool" where
  "is_space c \<longleftrightarrow>
     (9 \<le> c \<and> c \<le> 13) \<or> (0x2000 \<le> c \<and> c \<le> 0x200A) \<or>
     c \<in> set [0x20, 0xA0, 0x1680, 0x2028, 0x2029, 0x202F, 0x205F, 0x3000, 0xFEFF]"

definition high_surrogate :: "16 word \<Rightarrow> bool" where
  "high_surrogate c \<longleftrightarrow> 0xD800 \<le> c \<and> c \<le> 0xDBFF"

definition low_surrogate :: "16 word \<Rightarrow> bool" where
  "low_surrogate c \<longleftrightarrow> 0xDC00 \<le> c \<and> c \<le> 0xDFFF"

text \<open>\<open>Array.from(s, value => value.codePointAt(0))\<close>: a surrogate pair is one code point.\<close>

fun code_points :: "units \<Rightarrow> nat list" where
  "code_points [] = []"
| "code_points [a] = [unat a]"
| "code_points (a # b # s) =
     (if high_surrogate a \<and> low_surrogate b
      then (0x10000 + (unat a - 0xD800) * 0x400 + (unat b - 0xDC00)) # code_points s
      else unat a # code_points (b # s))"

fun compare_points :: "nat list \<Rightarrow> nat list \<Rightarrow> int" where
  "compare_points (x # xs) (y # ys) = (if x \<noteq> y then int x - int y else compare_points xs ys)"
| "compare_points xs ys = int (length xs) - int (length ys)"

definition compareScalarStrings :: "units \<Rightarrow> units \<Rightarrow> int" where
  "compareScalarStrings left right = compare_points (code_points left) (code_points right)"

section \<open>Strings of JSON\<close>

text \<open>\<open>JSON.stringify\<close> of a string: short escapes, control characters, and surrogates without partner.\<close>

definition hex_unit :: "nat \<Rightarrow> 16 word" where
  "hex_unit n = (if n < 10 then 0x30 + word_of_nat n else 0x57 + word_of_nat n)"

definition u_escape :: "16 word \<Rightarrow> units" where
  "u_escape c = [backslash, 0x75, hex_unit (unat c div 0x1000), hex_unit (unat c div 0x100 mod 16),
     hex_unit (unat c div 16 mod 16), hex_unit (unat c mod 16)]"

definition short_escapes :: "(16 word \<times> 16 word) list" where
  "short_escapes = [(0x22, 0x22), (0x5C, 0x5C), (8, 0x62), (12, 0x66), (10, 0x6E), (13, 0x72), (9, 0x74)]"

definition escape_unit :: "16 word \<Rightarrow> units" where
  "escape_unit c =
     (case map_of short_escapes c of
        Some e \<Rightarrow> [backslash, e]
      | None \<Rightarrow> if c < 0x20 then u_escape c else [c])"

fun quote_body :: "units \<Rightarrow> units" where
  "quote_body [] = []"
| "quote_body [a] = (if high_surrogate a \<or> low_surrogate a then u_escape a else escape_unit a)"
| "quote_body (a # b # s) =
     (if high_surrogate a \<and> low_surrogate b then a # b # quote_body s
      else (if high_surrogate a \<or> low_surrogate a then u_escape a else escape_unit a) @ quote_body (b # s))"

definition quote_units :: "units \<Rightarrow> units" where
  "quote_units s = [quote_mark] @ quote_body s @ [quote_mark]"

text \<open>\<open>JSON.parse\<close> of a string token, given its inside.\<close>

definition hex_value :: "16 word \<Rightarrow> nat option" where
  "hex_value c =
     (if 0x30 \<le> c \<and> c \<le> 0x39 then Some (unat c - 0x30)
      else if 0x41 \<le> c \<and> c \<le> 0x46 then Some (unat c - 0x37)
      else if 0x61 \<le> c \<and> c \<le> 0x66 then Some (unat c - 0x57)
      else None)"

definition hex_code :: "16 word \<Rightarrow> 16 word \<Rightarrow> 16 word \<Rightarrow> 16 word \<Rightarrow> 16 word option" where
  "hex_code a b c d =
     (case (hex_value a, hex_value b, hex_value c, hex_value d) of
        (Some x, Some y, Some z, Some w) \<Rightarrow> Some (word_of_nat (x * 0x1000 + y * 0x100 + z * 16 + w))
      | _ \<Rightarrow> None)"

definition parse_escapes :: "(16 word \<times> 16 word) list" where
  "parse_escapes = (0x2F, 0x2F) # map (\<lambda>(c, e). (e, c)) short_escapes"

fun unescape :: "units \<Rightarrow> units option" where
  "unescape [] = Some []"
| "unescape (c # s) =
     (if c = backslash then
        (case s of
           e # a # b # d # f # rest \<Rightarrow>
             if e = 0x75 then
               (case (hex_code a b d f, unescape rest) of (Some u, Some us) \<Rightarrow> Some (u # us) | _ \<Rightarrow> None)
             else (case (map_of parse_escapes e, unescape (a # b # d # f # rest)) of (Some u, Some us) \<Rightarrow> Some (u # us) | _ \<Rightarrow> None)
         | e # rest \<Rightarrow>
             (case (map_of parse_escapes e, unescape rest) of (Some u, Some us) \<Rightarrow> Some (u # us) | _ \<Rightarrow> None)
         | [] \<Rightarrow> None)
      else if c < 0x20 \<or> c = quote_mark then None
      else map_option (Cons c) (unescape s))"

section \<open>Values\<close>

datatype artifact_json =
    ANull
  | ABool bool
  | ANum int
  | AStr units
  | AArr "artifact_json list"
  | AObj "(units \<times> artifact_json) list"

fun join_units :: "units list \<Rightarrow> units" where
  "join_units [] = []"
| "join_units [s] = s"
| "join_units (s # t # ts) = s @ [comma] @ join_units (t # ts)"

function canonicalArtifactJsonText :: "artifact_json \<Rightarrow> units res" where
  "canonicalArtifactJsonText ANull = Inr (ascii ''null'')"
| "canonicalArtifactJsonText (ABool b) = Inr (ascii (if b then ''true'' else ''false''))"
| "canonicalArtifactJsonText (ANum n) =
     (if safe_integer n then Inr (ascii (string_of_int n))
      else Inl (Err ''Artifact JSON numbers must be signed safe integers''))"
| "canonicalArtifactJsonText (AStr s) = Inr (quote_units s)"
| "canonicalArtifactJsonText (AArr items) =
     rbind (traverse (\<lambda>v. canonicalArtifactJsonText v) items) (\<lambda>ts.
     Inr ([open_bracket] @ join_units ts @ [close_bracket]))"
| "canonicalArtifactJsonText (AObj entries) =
     rbind (traverse (\<lambda>(key, v). rbind (canonicalArtifactJsonText v) (\<lambda>t. Inr (quote_units key @ [colon] @ t)))
       (sort_by (\<lambda>a b. compareScalarStrings (fst a) (fst b)) entries)) (\<lambda>ts.
     Inr ([open_brace] @ join_units ts @ [close_brace]))"
  by pat_completeness auto
termination
  by (relation "measure size") (auto simp: size_list_estimation' less_Suc_eq_le dest: size_in_entries)

definition canonicalArtifactJson :: "(units \<Rightarrow> 8 word list) \<Rightarrow> artifact_json \<Rightarrow> 8 word list res" where
  "canonicalArtifactJson encode v = rbind (canonicalArtifactJsonText v) (\<lambda>t. Inr (encode t))"

section \<open>The parser\<close>

text \<open>The parser's index is kept as the rest of the source from the index on.  A failure is its message, the rest, and how far
  beyond the rest's start the index stands.\<close>

type_synonym failure = "units \<times> units \<times> nat"
type_synonym 'a parsed = "failure + ('a \<times> units)"

definition pbind :: "'a parsed \<Rightarrow> ('a \<Rightarrow> units \<Rightarrow> 'b parsed) \<Rightarrow> 'b parsed" where
  "pbind m f = (case m of Inl e \<Rightarrow> Inl e | Inr (x, rest) \<Rightarrow> f x rest)"

lemma pbind_simps [simp]: "pbind (Inl e) f = Inl e" "pbind (Inr (x, rest)) f = f x rest"
  by (simp_all add: pbind_def)

lemma pbind_eq_Inr [simp]: "pbind m f = Inr y \<longleftrightarrow> (\<exists>x rest. m = Inr (x, rest) \<and> f x rest = Inr y)"
  by (cases m) (auto simp: pbind_def)

lemma pbind_cong [fundef_cong]:
  "m = m' \<Longrightarrow> (\<And>x rest. m' = Inr (x, rest) \<Longrightarrow> f x rest = f' x rest) \<Longrightarrow> pbind m f = pbind m' f'"
  by (cases m') (auto simp: pbind_def)

definition fail :: "string \<Rightarrow> units \<Rightarrow> 'a parsed" where
  "fail message rest = Inl (ascii message, rest, 0)"

text \<open>A failure right after a character was taken, which at the end of the source is a step beyond it.\<close>

definition fail_next :: "string \<Rightarrow> units \<Rightarrow> 'a parsed" where
  "fail_next message rest = Inl (ascii message, rest, 1)"

definition quoted :: "string \<Rightarrow> string" where
  "quoted s = [CHR 0x27] @ s @ [CHR 0x27]"

lemma fail_not_Inr [simp]: "fail message rest \<noteq> Inr x" "fail_next message rest \<noteq> Inr x"
  by (simp_all add: fail_def fail_next_def)

definition skip_space :: "units \<Rightarrow> units" where
  "skip_space rest = dropWhile is_space rest"

definition parse_literal :: "string \<Rightarrow> artifact_json \<Rightarrow> units \<Rightarrow> artifact_json parsed" where
  "parse_literal token v rest =
     (if take (length token) rest = ascii token then Inr (v, drop (length token) rest)
      else fail (''expected '' @ token) rest)"

text \<open>The scan of a string token from behind its opening mark: its inside, and the rest behind its closing mark.\<close>

fun scan_string :: "bool \<Rightarrow> units \<Rightarrow> units parsed" where
  "scan_string escaped [] = fail ''unterminated string'' []"
| "scan_string escaped (c # rest) =
     (if \<not> escaped \<and> c = quote_mark then Inr ([], rest)
      else if \<not> escaped \<and> c < 0x20 then fail ''unescaped control character'' rest
      else pbind (scan_string (\<not> escaped \<and> c = backslash) rest) (\<lambda>body r. Inr (c # body, r)))"

definition parse_string :: "units \<Rightarrow> units parsed" where
  "parse_string rest =
     pbind (scan_string False (tl rest)) (\<lambda>body r.
       case unescape body of None \<Rightarrow> fail ''invalid JSON string'' r | Some s \<Rightarrow> Inr (s, r))"

text \<open>The digits of the token \<open>-?(?:0|[1-9][0-9]*)\<close>.\<close>

definition digits_token :: "units \<Rightarrow> units option" where
  "digits_token rest =
     (case rest of
        [] \<Rightarrow> None
      | c # r \<Rightarrow> if c = 0x30 then Some [c] else if is_digit c then Some (takeWhile is_digit rest) else None)"

definition digits_value :: "units \<Rightarrow> nat" where
  "digits_value ds = foldl (\<lambda>n c. 10 * n + (unat c - 0x30)) 0 ds"

definition parse_integer :: "units \<Rightarrow> artifact_json parsed" where
  "parse_integer rest =
     (let negative = (rest \<noteq> [] \<and> hd rest = minus_sign);
          unsigned = (if negative then tl rest else rest) in
      case digits_token unsigned of
        None \<Rightarrow> fail ''invalid number'' rest
      | Some ds \<Rightarrow>
          (let after = drop (length ds) unsigned;
               exact = (if negative then - int (digits_value ds) else int (digits_value ds)) in
           if after \<noteq> [] \<and> hd after \<in> {0x2E, 0x65, 0x45} then fail ''fractional and exponent numbers are not allowed'' after
           else if after \<noteq> [] \<and> \<not> (is_space (hd after) \<or> hd after \<in> {comma, close_bracket, close_brace})
           then fail ''invalid number suffix'' after
           else if \<not> safe_integer exact then fail ''integer is outside the Artifact JSON safe range'' after
           else Inr (ANum exact, after)))"

definition expect_colon :: "units \<Rightarrow> unit parsed" where
  "expect_colon rest =
     (if rest \<noteq> [] \<and> hd rest = colon then Inr ((), tl rest) else fail (''expected '' @ quoted '':'') rest)"

text \<open>\<open>#value\<close>, and the loops of \<open>#object\<close> and \<open>#array\<close> with what they have read.\<close>

function parse_value :: "units \<Rightarrow> artifact_json parsed"
  and parse_members :: "(units \<times> artifact_json) list \<Rightarrow> units \<Rightarrow> artifact_json parsed"
  and parse_elements :: "artifact_json list \<Rightarrow> units \<Rightarrow> artifact_json parsed" where
  "parse_value rest =
     (case rest of
        [] \<Rightarrow> fail ''expected a JSON value'' rest
      | c # behind \<Rightarrow>
          if c = open_brace then
            (let inside = skip_space behind in
             if inside \<noteq> [] \<and> hd inside = close_brace then Inr (AObj [], tl inside) else parse_members [] inside)
          else if c = open_bracket then
            (let inside = skip_space behind in
             if inside \<noteq> [] \<and> hd inside = close_bracket then Inr (AArr [], tl inside) else parse_elements [] inside)
          else if c = quote_mark then pbind (parse_string rest) (\<lambda>s r. Inr (AStr s, r))
          else if c = unit_of CHR ''t'' then parse_literal ''true'' (ABool True) rest
          else if c = unit_of CHR ''f'' then parse_literal ''false'' (ABool False) rest
          else if c = unit_of CHR ''n'' then parse_literal ''null'' ANull rest
          else if c = minus_sign \<or> is_digit c then parse_integer rest
          else fail ''expected a JSON value'' rest)"
| "parse_members entries rest =
     (if \<not> (rest \<noteq> [] \<and> hd rest = quote_mark) then fail ''object key must be a string'' rest
      else pbind (parse_string rest) (\<lambda>key r1.
        if key \<in> fst ` set entries then Inl (ascii ''duplicate object key '' @ quote_units key, r1, 0)
        else pbind (expect_colon (skip_space r1)) (\<lambda>_ r2.
        pbind (parse_value (skip_space r2)) (\<lambda>v r3.
          let r = skip_space r3 in
          if r \<noteq> [] \<and> hd r = close_brace then Inr (AObj (entries @ [(key, v)]), tl r)
          else if r \<noteq> [] \<and> hd r = comma then parse_members (entries @ [(key, v)]) (skip_space (tl r))
          else fail_next (''expected '' @ quoted '','' @ '' or '' @ quoted ''}'') r))))"
| "parse_elements items rest =
     pbind (parse_value rest) (\<lambda>v r1.
       let r = skip_space r1 in
       if r \<noteq> [] \<and> hd r = close_bracket then Inr (AArr (items @ [v]), tl r)
       else if r \<noteq> [] \<and> hd r = comma then parse_elements (items @ [v]) (skip_space (tl r))
       else fail_next (''expected '' @ quoted '','' @ '' or '' @ quoted '']'') r)"
  by pat_completeness auto

text \<open>What a parser leaves is shorter than what it was given.\<close>

lemma skip_space_length: "length (skip_space rest) \<le> length rest"
  by (simp add: skip_space_def length_dropWhile_le)

lemma tl_length: "r \<noteq> [] \<Longrightarrow> length (tl r) < length r"
  by (cases r) simp_all

lemma scan_string_length: "scan_string escaped rest = Inr (body, r) \<Longrightarrow> length r < length rest"
proof (induction escaped rest arbitrary: body rule: scan_string.induct)
  case (2 escaped c rest)
  then show ?case by (auto split: if_splits)
qed simp

lemma parse_string_length: "rest \<noteq> [] \<Longrightarrow> parse_string rest = Inr (s, r) \<Longrightarrow> length r < length rest"
  using tl_length [of rest] by (auto simp: parse_string_def split: option.splits dest!: scan_string_length)

lemma parse_literal_length: "token \<noteq> [] \<Longrightarrow> parse_literal token v rest = Inr (x, r) \<Longrightarrow> length r < length rest"
  by (cases rest; cases token) (auto simp: parse_literal_def split: if_splits)

lemma parse_integer_length: "parse_integer rest = Inr (v, r) \<Longrightarrow> length r < length rest"
  by (cases rest) (auto simp: parse_integer_def digits_token_def Let_def split: option.splits list.splits if_splits)

lemma expect_colon_length: "expect_colon rest = Inr (u, r) \<Longrightarrow> length r < length rest"
  using tl_length [of rest] by (auto simp: expect_colon_def split: if_splits)

lemma parse_shorter:
  "parse_value_parse_members_parse_elements_dom (Inl rest) \<Longrightarrow>
    parse_value rest = Inr (v, r) \<Longrightarrow> length r < length rest"
  "parse_value_parse_members_parse_elements_dom (Inr (Inl (entries, rest))) \<Longrightarrow>
    parse_members entries rest = Inr (v, r) \<Longrightarrow> length r < length rest"
  "parse_value_parse_members_parse_elements_dom (Inr (Inr (items, rest))) \<Longrightarrow>
    parse_elements items rest = Inr (v, r) \<Longrightarrow> length r < length rest"
proof (induction arbitrary: v r and v r and v r rule: parse_value_parse_members_parse_elements.pinduct)
  case (1 rest)
  show ?case
  proof (cases rest)
    case Nil
    with 1 show ?thesis by (simp add: parse_value.psimps)
  next
    case (Cons c behind)
    have shorter: "length (skip_space behind) < length rest"
      using skip_space_length [of behind] Cons by simp
    have tl_shorter: "skip_space behind \<noteq> [] \<Longrightarrow> length (tl (skip_space behind)) < length rest"
      using tl_length [of "skip_space behind"] shorter by simp
    have members: "c = open_brace \<Longrightarrow> parse_members [] (skip_space behind) = Inr (v, r) \<Longrightarrow>
        \<not> (skip_space behind \<noteq> [] \<and> hd (skip_space behind) = close_brace) \<Longrightarrow> length r < length rest"
      using 1(2) [OF Cons] shorter by fastforce
    have elements: "c \<noteq> open_brace \<Longrightarrow> c = open_bracket \<Longrightarrow> parse_elements [] (skip_space behind) = Inr (v, r) \<Longrightarrow>
        \<not> (skip_space behind \<noteq> [] \<and> hd (skip_space behind) = close_bracket) \<Longrightarrow> length r < length rest"
      using 1(3) [OF Cons] shorter by fastforce
    show ?thesis
      using 1(4) [unfolded parse_value.psimps [OF 1(1)]] members elements tl_shorter
      by (auto simp: Let_def Cons split: if_splits
          dest!: parse_literal_length [rotated] parse_integer_length parse_string_length [rotated])
  qed
next
  case (2 entries rest)
  obtain key r1 r2 w r3 where read: "rest \<noteq> []" "parse_string rest = Inr (key, r1)"
      "expect_colon (skip_space r1) = Inr ((), r2)" "parse_value (skip_space r2) = Inr (w, r3)"
    and fresh: "key \<notin> fst ` set entries"
    and then_: "(let r = skip_space r3 in
        if r \<noteq> [] \<and> hd r = close_brace then Inr (AObj (entries @ [(key, w)]), tl r)
        else if r \<noteq> [] \<and> hd r = comma then parse_members (entries @ [(key, w)]) (skip_space (tl r))
        else fail_next (''expected '' @ quoted '','' @ '' or '' @ quoted ''}'') r) = Inr (v, r)"
    and start: "\<not> \<not> (rest \<noteq> [] \<and> hd rest = quote_mark)"
    using 2(4) [unfolded parse_members.psimps [OF 2(1)]] by (auto split: if_splits)
  have "length r3 < length (skip_space r2)"
    using 2(2) [OF start read(2) fresh read(3)] read(4) by simp
  moreover have "length (skip_space r1) > length r2" "length r1 < length rest"
    using read by (auto dest: expect_colon_length parse_string_length)
  ultimately have shorter: "length (skip_space r3) < length rest"
    using skip_space_length [of r1] skip_space_length [of r2] skip_space_length [of r3] by linarith
  have "length r < length rest" if "skip_space r3 \<noteq> []" "hd (skip_space r3) = comma" "hd (skip_space r3) \<noteq> close_brace"
      "parse_members (entries @ [(key, w)]) (skip_space (tl (skip_space r3))) = Inr (v, r)"
    using 2(3) [OF start read(2) fresh read(3,4) refl _ _ that(4)] that(1-3) shorter
      skip_space_length [of "tl (skip_space r3)"] tl_length [of "skip_space r3"] by fastforce
  then show ?case
    using then_ shorter tl_length [of "skip_space r3"] by (auto simp: Let_def split: if_splits)
next
  case (3 items rest)
  obtain w r1 where read: "parse_value rest = Inr (w, r1)"
    and then_: "(let r = skip_space r1 in
        if r \<noteq> [] \<and> hd r = close_bracket then Inr (AArr (items @ [w]), tl r)
        else if r \<noteq> [] \<and> hd r = comma then parse_elements (items @ [w]) (skip_space (tl r))
        else fail_next (''expected '' @ quoted '','' @ '' or '' @ quoted '']'') r) = Inr (v, r)"
    using 3(4) [unfolded parse_elements.psimps [OF 3(1)]] by auto
  have shorter: "length (skip_space r1) < length rest"
    using 3(2) [OF read] skip_space_length [of r1] by linarith
  have "length r < length rest" if "skip_space r1 \<noteq> []" "hd (skip_space r1) = comma" "hd (skip_space r1) \<noteq> close_bracket"
      "parse_elements (items @ [w]) (skip_space (tl (skip_space r1))) = Inr (v, r)"
    using 3(3) [OF read refl _ _ that(4)] that(1-3) shorter
      skip_space_length [of "tl (skip_space r1)"] tl_length [of "skip_space r1"] by fastforce
  then show ?case
    using then_ shorter tl_length [of "skip_space r1"] by (auto simp: Let_def split: if_splits)
qed

termination parse_value
proof (relation "measure (\<lambda>x. case x of Inl rest \<Rightarrow> 2 * length rest
    | Inr (Inl (entries, rest)) \<Rightarrow> 2 * length rest | Inr (Inr (items, rest)) \<Rightarrow> 2 * length rest + 1)", goal_cases)
  case (4 entries rest key r1 u r2)
  then have "length r2 < length (skip_space r1)" "length r1 < length rest"
    by (auto dest: expect_colon_length parse_string_length)
  then show ?case using skip_space_length [of r1] skip_space_length [of r2] by simp
next
  case (5 entries rest key r1 u r2 v r3 r)
  then have "length r2 < length (skip_space r1)" "length r1 < length rest" "length r3 < length (skip_space r2)"
    by (auto dest: expect_colon_length parse_string_length parse_shorter(1))
  then show ?case using 5 skip_space_length [of r1] skip_space_length [of r2] skip_space_length [of r3]
      skip_space_length [of "tl r"] tl_length [of r] by simp
next
  case (7 items rest v r1 r)
  then have "length r1 < length rest" by (auto dest: parse_shorter(1))
  then show ?case using 7 skip_space_length [of r1] skip_space_length [of "tl r"] tl_length [of r] by simp
qed (use skip_space_length in \<open>simp_all add: less_Suc_eq_le le_SucI\<close>)

declare parse_value.simps [simp del] parse_members.simps [simp del] parse_elements.simps [simp del]

text \<open>\<open>parse\<close>, and the error text of \<open>#fail\<close>.\<close>

definition parse :: "units \<Rightarrow> artifact_json parsed" where
  "parse source =
     pbind (parse_value (skip_space source)) (\<lambda>v r.
       if skip_space r \<noteq> [] then fail ''trailing content'' (skip_space r) else Inr (v, []))"

definition failure_message :: "units \<Rightarrow> failure \<Rightarrow> units" where
  "failure_message source e =
     (case e of (message, rest, bump) \<Rightarrow>
        message @ ascii ('' at character '' @ string_of_nat (length source - length rest + bump)))"

definition is_object :: "artifact_json \<Rightarrow> bool" where
  "is_object v = (case v of AObj entries \<Rightarrow> True | _ \<Rightarrow> False)"

text \<open>\<open>parseArtifactJson\<close> of bytes (the decoder throws \<open>None\<close> on malformed UTF-8) or of a string.\<close>

definition parseArtifactJson :: "(8 word list \<Rightarrow> units option) \<Rightarrow> 8 word list + units \<Rightarrow> bool \<Rightarrow> units + artifact_json" where
  "parseArtifactJson decode bytes requireObject =
     (case (case bytes of Inl octets \<Rightarrow> decode octets | Inr text_ \<Rightarrow> Some text_) of
        None \<Rightarrow> Inl (ascii ''The encoded data was not valid for encoding utf-8'')
      | Some source \<Rightarrow>
          (case parse source of
             Inl e \<Rightarrow> Inl (failure_message source e)
           | Inr (v, _) \<Rightarrow>
               if requireObject \<and> \<not> is_object v
               then Inl (ascii ''a top-level protocol or schema document must be an object'') else Inr v))"

section \<open>Strings read back\<close>

lemma hex_table:
  "list_all (\<lambda>n. hex_value (hex_unit n) = Some n \<and> hex_unit n \<noteq> backslash \<and> hex_unit n \<noteq> quote_mark \<and> \<not> hex_unit n < 0x20) [0..<16]"
  by code_simp

lemma hex_unit_facts:
  assumes "n < 16"
  shows "hex_value (hex_unit n) = Some n" "hex_unit n \<noteq> backslash" "hex_unit n \<noteq> quote_mark" "\<not> hex_unit n < 0x20"
  using hex_table assms by (auto simp: list_all_iff)

lemma hex_digits: "m div 0x1000 * 0x1000 + m div 0x100 mod 16 * 0x100 + m div 16 mod 16 * 16 + m mod 16 = m" for m :: nat
proof -
  have "m mod 16 + 16 * (m div 16 mod 16) = m mod 256"
    using mod_mult2_eq [of m 16 16] by simp
  moreover have "m mod 256 + 256 * (m div 0x100 mod 16) = m mod 0x1000"
    using mod_mult2_eq [of m 256 16] by simp
  moreover have "m div 0x1000 * 0x1000 + m mod 0x1000 = m"
    by (rule div_mult_mod_eq)
  ultimately show ?thesis by linarith
qed

lemma unit_bound: "unat (c :: 16 word) < 0x10000"
  using unsigned_less [of c] by simp

lemma unescape_u: "unescape (u_escape c @ rest) = map_option (Cons c) (unescape rest)"
proof -
  have "unat c div 0x1000 < 16"
    using unit_bound [of c] by (simp add: less_mult_imp_div_less)
  then show ?thesis
    by (simp add: u_escape_def hex_code_def hex_unit_facts(1) hex_digits option.case_eq_if map_option_case)
qed

lemma unescape_short:
  "e \<noteq> 0x75 \<Longrightarrow> unescape (backslash # e # rest) =
     (case (map_of parse_escapes e, unescape rest) of (Some u, Some us) \<Rightarrow> Some (u # us) | _ \<Rightarrow> None)"
  by (cases rest; cases "tl rest"; cases "tl (tl rest)"; cases "tl (tl (tl rest))") auto

lemma unescape_escape: "unescape (escape_unit c @ rest) = map_option (Cons c) (unescape rest)"
proof (cases "map_of short_escapes c")
  case None
  then have "c \<noteq> quote_mark" "c \<noteq> backslash"
    by (auto simp: short_escapes_def)
  with None show ?thesis by (auto simp: escape_unit_def unescape_u)
next
  case (Some e)
  then have "e \<noteq> 0x75" "map_of parse_escapes e = Some c"
    by (auto simp: short_escapes_def parse_escapes_def split: if_splits)
  with Some show ?thesis by (simp add: escape_unit_def unescape_short map_option_case del: unescape.simps)
qed

lemma surrogate_plain: "high_surrogate a \<or> low_surrogate a \<Longrightarrow> a \<noteq> backslash \<and> a \<noteq> quote_mark \<and> \<not> a < 0x20"
  by (auto simp: high_surrogate_def low_surrogate_def word_less_nat_alt word_le_nat_alt)

lemma unescape_plain:
  "c \<noteq> backslash \<Longrightarrow> c \<noteq> quote_mark \<Longrightarrow> \<not> c < 0x20 \<Longrightarrow> unescape (c # rest) = map_option (Cons c) (unescape rest)"
  by simp

lemma unescape_quote: "unescape (quote_body s) = Some s"
proof (induction s rule: quote_body.induct)
  case (2 a)
  show ?case using unescape_u [of a "[]"] unescape_escape [of a "[]"] by auto
next
  case (3 a b s)
  then show ?case
    using surrogate_plain [of a] surrogate_plain [of b]
    by (auto simp: unescape_u unescape_escape unescape_plain simp del: unescape.simps(2))
qed simp

text \<open>The scan passes over every piece of a quoted string.\<close>

definition scan_passes :: "units \<Rightarrow> bool" where
  "scan_passes piece \<longleftrightarrow>
     (\<forall>rest. scan_string False (piece @ rest) = pbind (scan_string False rest) (\<lambda>body r. Inr (piece @ body, r)))"

lemma pbind_assoc [simp]: "pbind (pbind m f) g = pbind m (\<lambda>x rest. pbind (f x rest) g)"
  by (simp add: pbind_def split: sum.splits)

lemma scan_plain: "c \<noteq> backslash \<Longrightarrow> c \<noteq> quote_mark \<Longrightarrow> \<not> c < 0x20 \<Longrightarrow> scan_passes [c]"
  by (simp add: scan_passes_def)

lemma scan_escaped: "scan_passes [backslash, e]"
  by (simp add: scan_passes_def)

lemma scan_append: "scan_passes p \<Longrightarrow> scan_passes q \<Longrightarrow> scan_passes (p @ q)"
  by (simp add: scan_passes_def)

lemma scan_u: "scan_passes (u_escape c)"
proof -
  have "unat c div 0x1000 < 16"
    using unit_bound [of c] by (simp add: less_mult_imp_div_less)
  then show ?thesis by (simp add: u_escape_def scan_passes_def hex_unit_facts)
qed

lemma scan_escape: "scan_passes (escape_unit c)"
proof (cases "map_of short_escapes c")
  case None
  then have "c \<noteq> quote_mark" "c \<noteq> backslash"
    by (auto simp: short_escapes_def)
  with None show ?thesis by (auto simp: escape_unit_def scan_u scan_plain)
next
  case (Some e)
  then show ?thesis by (simp add: escape_unit_def scan_escaped)
qed

lemma scan_quote: "scan_passes (quote_body s)"
proof (induction s rule: quote_body.induct)
  case 1
  show ?case by (simp add: scan_passes_def pbind_def split: sum.splits)
next
  case (2 a)
  show ?case by (simp add: scan_u scan_escape)
next
  case (3 a b s)
  have "scan_passes ([a] @ [b] @ quote_body s)" if "high_surrogate a" "low_surrogate b"
    using 3(1) that surrogate_plain [of a] surrogate_plain [of b] by (intro scan_append scan_plain) auto
  then show ?case using 3 by (auto intro: scan_append scan_u scan_escape)
qed

lemma parse_quoted: "parse_string (quote_units s @ rest) = Inr (s, rest)"
  using scan_quote [of s] by (simp add: parse_string_def quote_units_def scan_passes_def unescape_quote)

section \<open>Numbers read back\<close>

lemma unat_unit_of [simp]: "unat (unit_of c) = of_char c"
proof -
  have "of_char c mod (256 :: nat) < 256" by (rule mod_less_divisor) simp
  then have "of_char c < (65536 :: nat)" unfolding of_char_mod_256 by linarith
  then show ?thesis by (simp add: unit_of_def unat_of_nat)
qed

lemma digit_unit: "is_digit (unit_of c) \<longleftrightarrow> 48 \<le> (of_char c :: nat) \<and> of_char c < (58 :: nat)"
  by (auto simp: is_digit_def word_le_nat_alt)

lemma digits_of_nat: "list_all is_digit (ascii (string_of_nat n))"
  by (simp add: list_all_iff digit_unit string_of_nat_digits)

lemma digits_value_ascii: "digits_value (ascii s) = nat_of_digits s"
proof -
  have "foldl (\<lambda>n c. 10 * n + (unat c - 0x30)) a (ascii s) = foldl (\<lambda>n c. 10 * n + (of_char c - 48)) a s" for a
    by (induction s arbitrary: a) simp_all
  then show ?thesis by (simp add: digits_value_def)
qed

lemma string_of_nat_not_Nil [simp]: "string_of_nat n \<noteq> []"
  by (subst string_of_nat.simps) simp

lemma no_leading_zero: "0 < n \<Longrightarrow> hd (ascii (string_of_nat n)) \<noteq> 0x30"
proof (induction n rule: string_of_nat.induct)
  case (1 n)
  show ?case
  proof (cases "n < 10")
    case True
    have "unat (hd (ascii (string_of_nat n))) = 48 + n"
      by (subst string_of_nat.simps) (use True in \<open>simp add: of_char_of take_bit_eq_mod\<close>)
    with 1(2) show ?thesis by auto
  next
    case False
    then have "hd (ascii (string_of_nat n)) = hd (ascii (string_of_nat (n div 10)))"
      by (subst string_of_nat.simps) (simp add: hd_append)
    with 1(1) [OF False] False show ?thesis by simp
  qed
qed

definition ends :: "units \<Rightarrow> bool" where
  "ends rest \<longleftrightarrow> rest = [] \<or> hd rest \<in> {comma, close_bracket, close_brace}"

lemma ends_facts:
  assumes "ends rest"
  shows "\<not> (rest \<noteq> [] \<and> is_digit (hd rest))" "\<not> (rest \<noteq> [] \<and> hd rest \<in> {0x2E, 0x65, 0x45})"
    "skip_space rest = rest"
  using assms by (cases rest; auto simp: ends_def is_digit_def skip_space_def is_space_def)+

lemma takeWhile_digits: "list_all is_digit ds \<Longrightarrow> ends rest \<Longrightarrow> takeWhile is_digit (ds @ rest) = ds"
  using ends_facts(1) [of rest] by (induction ds) (auto simp: takeWhile_eq_Nil_iff)

lemma digits_token_nat: "ends rest \<Longrightarrow> digits_token (ascii (string_of_nat n) @ rest) = Some (ascii (string_of_nat n))"
proof (cases "n = 0")
  case True
  then show ?thesis by (subst (1 2) string_of_nat.simps) (simp add: digits_token_def unit_of_def)
next
  case False
  assume ends: "ends rest"
  obtain c cs where cs: "ascii (string_of_nat n) = c # cs" by (cases "ascii (string_of_nat n)") auto
  then have "c \<noteq> 0x30" "list_all is_digit (c # cs)"
    using no_leading_zero [of n] digits_of_nat [of n] False by auto
  with cs show ?thesis
    using takeWhile_digits [OF _ ends, of "c # cs"] by (auto simp: digits_token_def)
qed

lemma hd_digit: "is_digit (hd (ascii (string_of_nat n)))"
  using digits_of_nat [of n] by (cases "ascii (string_of_nat n)") auto

lemma parse_number: "safe_integer n \<Longrightarrow> ends rest \<Longrightarrow> parse_integer (ascii (string_of_int n) @ rest) = Inr (ANum n, rest)"
proof -
  assume n: "safe_integer n" "ends rest"
  let ?m = "nat \<bar>n\<bar>"
  have "hd (ascii (string_of_nat ?m) @ rest) \<noteq> minus_sign"
    using hd_digit [of ?m] by (cases "ascii (string_of_nat ?m)") (auto simp: is_digit_def)
  moreover have "unit_of CHR ''-'' = minus_sign" by (simp add: unit_of_def)
  moreover have "int (digits_value (ascii (string_of_nat ?m))) = \<bar>n\<bar>"
    by (simp only: digits_value_ascii nat_of_digits_string_of_nat int_nat_eq) simp
  ultimately show ?thesis
    using n ends_facts(2) [OF n(2)] digits_token_nat [OF n(2), of ?m]
    by (cases "n < 0") (auto simp: parse_integer_def string_of_int_def Let_def ends_def)
qed

section \<open>Values read back\<close>

abbreviation key_order :: "units \<times> 'a \<Rightarrow> units \<times> 'a \<Rightarrow> int" where
  "key_order a b \<equiv> compareScalarStrings (fst a) (fst b)"

text \<open>The value with the entries of every object in canonical order, and the values that are objects of JavaScript: no
  two entries with one key.\<close>

function normal :: "artifact_json \<Rightarrow> artifact_json" where
  "normal (AArr items) = AArr (map normal items)"
| "normal (AObj entries) = AObj (map (\<lambda>(k, v). (k, normal v)) (sort_by key_order entries))"
| "normal ANull = ANull"
| "normal (ABool b) = ABool b"
| "normal (ANum n) = ANum n"
| "normal (AStr s) = AStr s"
  by pat_completeness auto
termination
  by (relation "measure size") (auto simp: size_list_estimation' less_Suc_eq_le dest: size_in_entries)

fun keyed_once :: "artifact_json \<Rightarrow> bool" where
  "keyed_once (AArr items) \<longleftrightarrow> list_all keyed_once items"
| "keyed_once (AObj entries) \<longleftrightarrow> distinct (map fst entries) \<and> list_all (\<lambda>(k, v). keyed_once v) entries"
| "keyed_once v \<longleftrightarrow> True"

definition starts :: "units \<Rightarrow> bool" where
  "starts t \<longleftrightarrow> t \<noteq> [] \<and> \<not> is_space (hd t) \<and> hd t \<notin> {close_bracket, close_brace}"

definition reads :: "artifact_json \<Rightarrow> units \<Rightarrow> bool" where
  "reads v t \<longleftrightarrow> starts t \<and> (\<forall>rest. ends rest \<longrightarrow> parse_value (t @ rest) = Inr (normal v, rest))"

lemma readsD: "reads v t \<Longrightarrow> ends rest \<Longrightarrow> parse_value (t @ rest) = Inr (normal v, rest)"
  by (simp add: reads_def)

lemma skip_starts: "starts t \<Longrightarrow> skip_space (t @ rest) = t @ rest"
  by (cases t) (simp_all add: starts_def skip_space_def)

lemma skip_plain [simp]:
  "skip_space (comma # rest) = comma # rest" "skip_space (close_bracket # rest) = close_bracket # rest"
  "skip_space (close_brace # rest) = close_brace # rest" "skip_space (colon # rest) = colon # rest"
  "skip_space (quote_mark # rest) = quote_mark # rest"
  by (simp_all add: skip_space_def is_space_def)

lemma ends_plain [simp]: "ends (comma # rest)" "ends (close_bracket # rest)" "ends (close_brace # rest)" "ends []"
  by (simp_all add: ends_def)

lemma elements_read:
  "list_all2 reads vs ts \<Longrightarrow> vs \<noteq> [] \<Longrightarrow>
    parse_elements items (join_units ts @ close_bracket # rest) = Inr (AArr (items @ map normal vs), rest)"
proof (induction ts arbitrary: vs items rule: join_units.induct)
  case (2 t)
  then obtain v where v: "vs = [v]" "reads v t" by (cases vs) auto
  show ?case
    using readsD [OF v(2), of "close_bracket # rest"] v(1) by (subst parse_elements.simps) simp
next
  case (3 t u us)
  then obtain v ws where v: "vs = v # ws" "reads v t" "list_all2 reads ws (u # us)" "ws \<noteq> []" by (cases vs) auto
  then have "starts u" by (auto simp: reads_def list_all2_Cons2)
  then have "starts (join_units (u # us))" by (cases us) (auto simp: starts_def)
  then have skip: "skip_space (join_units (u # us) @ close_bracket # rest) = join_units (u # us) @ close_bracket # rest"
    by (rule skip_starts)
  show ?case
    using readsD [OF v(2), of "comma # join_units (u # us) @ close_bracket # rest"] v(1) skip "3.IH" [OF v(3,4), of "items @ [normal v]"]
    by (subst parse_elements.simps) simp
qed simp

definition member_reads :: "units \<times> artifact_json \<Rightarrow> units \<Rightarrow> bool" where
  "member_reads e t \<longleftrightarrow> (\<exists>u. t = quote_units (fst e) @ [colon] @ u \<and> reads (snd e) u)"

lemma members_read:
  "list_all2 member_reads es ts \<Longrightarrow> es \<noteq> [] \<Longrightarrow> distinct (map fst (before @ es)) \<Longrightarrow>
    parse_members before (join_units ts @ close_brace # rest) = Inr (AObj (before @ map (\<lambda>(k, v). (k, normal v)) es), rest)"
proof (induction ts arbitrary: es before rule: join_units.induct)
  case (2 t)
  then obtain k v where es: "es = [(k, v)]" "member_reads (k, v) t" by (cases es) auto
  then obtain u where v: "es = [(k, v)]" "t = quote_units k @ [colon] @ u" "reads v u"
    by (auto simp: member_reads_def)
  then have "starts u" by (simp add: reads_def)
  then show ?case
    using readsD [OF v(3), of "close_brace # rest"] v(1,2) 2(3) parse_quoted [of k "colon # u @ close_brace # rest"]
    by (subst parse_members.simps) (auto simp: expect_colon_def quote_units_def skip_starts)
next
  case (3 t t' us)
  then obtain k v fs where es: "es = (k, v) # fs" "member_reads (k, v) t"
      "list_all2 member_reads fs (t' # us)" "fs \<noteq> []"
    by (cases es) auto
  then obtain u where v: "es = (k, v) # fs" "t = quote_units k @ [colon] @ u" "reads v u"
      "list_all2 member_reads fs (t' # us)" "fs \<noteq> []"
    by (auto simp: member_reads_def)
  then have u: "starts u" by (simp add: reads_def)
  obtain s where s: "join_units (t' # us) @ close_brace # rest = quote_mark # s"
    using v(4) by (cases us) (auto simp: member_reads_def quote_units_def list_all2_Cons2)
  have "distinct (map fst ((before @ [(k, normal v)]) @ fs))" using 3(4) v(1) by simp
  note IH = "3.IH" [OF v(4,5) this, unfolded s]
  show ?case
    using readsD [OF v(3), of "comma # quote_mark # s"] v(1,2) 3(4) s u
      parse_quoted [of k "colon # u @ comma # quote_mark # s"] IH
    by (subst parse_members.simps) (auto simp: expect_colon_def quote_units_def skip_starts)
qed simp

text \<open>The text of a value is read back.\<close>

lemma literal_facts:
  "starts (ascii ''null'')" "starts (ascii ''true'')" "starts (ascii ''false'')"
  "parse_value (ascii ''null'' @ rest) = Inr (ANull, rest)" "parse_value (ascii ''true'' @ rest) = Inr (ABool True, rest)"
  "parse_value (ascii ''false'' @ rest) = Inr (ABool False, rest)"
  by (simp_all add: starts_def is_space_def unit_of_def parse_value.simps parse_literal_def)

lemma number_reads: "safe_integer n \<Longrightarrow> reads (ANum n) (ascii (string_of_int n))"
proof -
  assume n: "safe_integer n"
  obtain c cs where c: "ascii (string_of_int n) = c # cs"
    by (cases "ascii (string_of_int n)") (auto simp: string_of_int_def split: if_splits)
  have kind: "c = minus_sign \<or> is_digit c"
    using hd_digit [of "nat n"] c by (auto simp: string_of_int_def unit_of_def split: if_splits)
  then have "starts (c # cs)" by (auto simp: starts_def is_space_def is_digit_def word_le_nat_alt)
  moreover have "c \<noteq> open_brace" "c \<noteq> open_bracket" "c \<noteq> quote_mark"
      "c \<noteq> unit_of CHR ''t''" "c \<noteq> unit_of CHR ''f''" "c \<noteq> unit_of CHR ''n''"
    using kind by (auto simp: is_digit_def unit_of_def)
  then have "parse_value (c # cs @ rest) = parse_integer (c # cs @ rest)" for rest
    using kind by (subst parse_value.simps) simp
  ultimately show ?thesis
    using parse_number [OF n] c by (simp add: reads_def)
qed

lemma string_reads: "reads (AStr s) (quote_units s)"
proof -
  have "parse_value (quote_units s @ rest) = Inr (AStr s, rest)" for rest
    using parse_quoted [of s rest] by (subst parse_value.simps) (simp add: quote_units_def)
  then show ?thesis by (simp add: reads_def starts_def quote_units_def is_space_def)
qed

lemma array_reads: "list_all2 reads vs ts \<Longrightarrow> reads (AArr vs) ([open_bracket] @ join_units ts @ [close_bracket])"
proof -
  assume all: "list_all2 reads vs ts"
  have "parse_value ([open_bracket] @ join_units ts @ [close_bracket] @ rest) = Inr (normal (AArr vs), rest)" for rest
  proof (cases ts)
    case Nil
    with all show ?thesis by (subst parse_value.simps) simp
  next
    case (Cons t us)
    then have "starts t" using all by (auto simp: list_all2_Cons2 reads_def)
    then have "starts (join_units ts)" unfolding Cons by (cases us) (auto simp: starts_def)
    then have "skip_space (join_units ts @ close_bracket # rest) = join_units ts @ close_bracket # rest"
      and "hd (join_units ts @ close_bracket # rest) \<noteq> close_bracket"
      by (auto simp: skip_starts) (auto simp: starts_def)
    with elements_read [OF all, of "[]" rest] Cons all show ?thesis
      by (subst parse_value.simps) auto
  qed
  then show ?thesis by (simp add: reads_def starts_def is_space_def)
qed

lemma object_reads:
  assumes all: "list_all2 member_reads (sort_by key_order entries) ts" and keys: "distinct (map fst (sort_by key_order entries))"
  shows "reads (AObj entries) ([open_brace] @ join_units ts @ [close_brace])"
proof -
  have "parse_value ([open_brace] @ join_units ts @ [close_brace] @ rest) = Inr (normal (AObj entries), rest)" for rest
  proof (cases ts)
    case Nil
    with all show ?thesis by (subst parse_value.simps) simp
  next
    case (Cons t us)
    then obtain s where s: "join_units ts @ close_brace # rest = quote_mark # s"
      using all by (cases us) (auto simp: member_reads_def quote_units_def list_all2_Cons2)
    have "sort_by key_order entries \<noteq> []" using all Cons by auto
    with members_read [OF all, of "[]" rest] keys s show ?thesis
      by (subst parse_value.simps) (simp del: sort_by_eq_Nil)
  qed
  then show ?thesis by (simp add: reads_def starts_def is_space_def)
qed

lemma distinct_sorted_keys: "distinct (map fst entries) \<Longrightarrow> distinct (map fst (sort_by key_order entries))"
  by (simp add: distinct_map)

theorem canonical_reads: "canonicalArtifactJsonText v = Inr t \<Longrightarrow> keyed_once v \<Longrightarrow> reads v t"
proof (induction v arbitrary: t rule: canonicalArtifactJsonText.induct)
  case 1
  then show ?case using literal_facts by (simp add: reads_def)
next
  case (2 b)
  then show ?case using literal_facts by (cases b) (auto simp: reads_def)
next
  case (3 n)
  then show ?case by (auto simp: number_reads split: if_splits)
next
  case (4 s)
  then show ?case using string_reads by auto
next
  case (5 items)
  then obtain ts where ts: "list_all2 (\<lambda>v t. canonicalArtifactJsonText v = Inr t) items ts"
    and t: "t = [open_bracket] @ join_units ts @ [close_bracket]"
    by (auto simp: traverse_Inr_iff)
  have "list_all2 reads items ts"
    using ts 5(1,3) by (auto simp: list_all2_conv_all_nth list_all_length)
  then show ?case unfolding t by (rule array_reads)
next
  case (6 entries)
  let ?es = "sort_by key_order entries"
  obtain ts where ts: "list_all2 (\<lambda>(key, v) t. rbind (canonicalArtifactJsonText v) (\<lambda>u. Inr (quote_units key @ [colon] @ u)) = Inr t) ?es ts"
    and t: "t = [open_brace] @ join_units ts @ [close_brace]"
    using 6(2) by (auto simp: traverse_Inr_iff case_prod_unfold)
  have "member_reads e t" if "e \<in> set ?es"
      "rbind (canonicalArtifactJsonText (snd e)) (\<lambda>u. Inr (quote_units (fst e) @ [colon] @ u)) = Inr t" for e t
  proof -
    have "keyed_once (snd e)" using that(1) 6(3) by (auto simp: list_all_iff)
    with that 6(1) [of e "fst e" "snd e"] show ?thesis by (auto simp: member_reads_def)
  qed
  then have "list_all2 member_reads ?es ts"
    by (intro list.rel_mono_strong [OF ts]) (simp add: case_prod_unfold)
  then show ?case unfolding t by (rule object_reads) (rule distinct_sorted_keys, use 6(3) in simp)
qed

section \<open>Canonical order\<close>

lemma code_points_Nil [simp]: "code_points s = [] \<longleftrightarrow> s = []" "[] = code_points s \<longleftrightarrow> s = []"
  by (cases s rule: code_points.cases; simp)+

lemma surrogate_bounds:
  "high_surrogate a \<Longrightarrow> 0xD800 \<le> unat a \<and> unat a \<le> 0xDBFF" "low_surrogate a \<Longrightarrow> 0xDC00 \<le> unat a \<and> unat a \<le> 0xDFFF"
  by (simp_all add: high_surrogate_def low_surrogate_def word_le_nat_alt)

lemma mixed_radix: "x * 1024 + y = z * 1024 + w \<Longrightarrow> y < 1024 \<Longrightarrow> w < 1024 \<Longrightarrow> x = z \<and> y = w" for x y z w :: nat
proof -
  assume eq: "x * 1024 + y = z * 1024 + w" and small: "y < 1024" "w < 1024"
  have "(x * 1024 + y) div 1024 = x" "(z * 1024 + w) div 1024 = z" using small by simp_all
  with eq show ?thesis by simp
qed

lemma pair_inj:
  assumes "high_surrogate a" "low_surrogate b" "high_surrogate c" "low_surrogate d"
    and "(unat a - 0xD800) * 0x400 + (unat b - 0xDC00) = (unat c - 0xD800) * 0x400 + (unat d - 0xDC00)"
  shows "a = c \<and> b = d"
proof -
  note bounds = surrogate_bounds(1) [OF assms(1)] surrogate_bounds(2) [OF assms(2)]
    surrogate_bounds(1) [OF assms(3)] surrogate_bounds(2) [OF assms(4)]
  have "unat a - 0xD800 = unat c - 0xD800 \<and> unat b - 0xDC00 = unat d - 0xDC00"
    by (rule mixed_radix) (use assms(5) bounds in auto)
  then have "unat a = unat c" "unat b = unat d"
    using bounds by linarith+
  then show ?thesis by (simp add: unsigned_word_eqI)
qed

lemma code_points_inj: "code_points s = code_points t \<Longrightarrow> s = t"
proof (induction s arbitrary: t rule: code_points.induct)
  case (2 a)
  then show ?case
    using unit_bound [of a]
    by (cases t rule: code_points.cases) (auto split: if_splits intro: unsigned_word_eqI)
next
  case (3 a b s)
  show ?case
  proof (cases t rule: code_points.cases)
    case (3 c d u)
    then show ?thesis
      using "3.prems" "3.IH" unit_bound [of a] unit_bound [of c] pair_inj [of a b c d]
      by (auto split: if_splits dest: unsigned_word_eqI)
  next
    case (2 c)
    then show ?thesis
      using "3.prems" unit_bound [of c] by (auto split: if_splits)
  qed (use "3.prems" in \<open>auto split: if_splits\<close>)
qed simp

lemma compare_points_flip: "compare_points xs ys \<le> 0 \<or> compare_points ys xs \<le> 0"
  by (induction xs ys rule: compare_points.induct) auto

lemma compare_points_trans: "compare_points xs ys \<le> 0 \<Longrightarrow> compare_points ys zs \<le> 0 \<Longrightarrow> compare_points xs zs \<le> 0"
proof (induction xs ys arbitrary: zs rule: compare_points.induct)
  case (1 x xs y ys)
  then show ?case by (cases zs) (auto split: if_splits)
qed (auto split: if_splits)

lemma compare_points_antisym: "compare_points xs ys \<le> 0 \<Longrightarrow> compare_points ys xs \<le> 0 \<Longrightarrow> xs = ys"
  by (induction xs ys rule: compare_points.induct) (auto split: if_splits)

interpretation key_order: comparator key_order
  using compare_points_flip compare_points_trans by unfold_locales (auto simp: compareScalarStrings_def)

lemma sort_sorted: "sorted_wrt key_order.le xs \<Longrightarrow> sort_by key_order xs = xs"
proof (induction xs)
  case (Cons x xs)
  then show ?case by (cases xs) auto
qed simp

lemma sort_values: "sort_by key_order (map (\<lambda>(k, v). (k, f v)) xs) = map (\<lambda>(k, v). (k, f v)) (sort_by key_order xs)"
proof -
  have "insort_by key_order (fst x, f (snd x)) (map (\<lambda>(k, v). (k, f v)) ys) = map (\<lambda>(k, v). (k, f v)) (insort_by key_order x ys)" for x ys
    by (induction ys) (auto simp: case_prod_unfold)
  then show ?thesis by (induction xs) (auto simp: case_prod_unfold)
qed

lemma sort_normal: "sort_by key_order (map (\<lambda>(k, v). (k, f v)) (sort_by key_order xs)) = map (\<lambda>(k, v). (k, f v)) (sort_by key_order xs)"
  by (simp only: sort_values sort_sorted [OF key_order.sorted_sort])

lemma traverse_map: "traverse f (map g xs) = traverse (\<lambda>x. f (g x)) xs"
  by (induction xs) simp_all

lemma canonical_normal: "canonicalArtifactJsonText (normal v) = canonicalArtifactJsonText v"
proof (induction v rule: normal.induct)
  case (1 items)
  then show ?case by (simp add: traverse_map cong: traverse_cong)
next
  case (2 entries)
  have "traverse (\<lambda>e. rbind (canonicalArtifactJsonText (normal (snd e))) (\<lambda>t. Inr (quote_units (fst e) @ [colon] @ t))) (sort_by key_order entries) =
      traverse (\<lambda>e. rbind (canonicalArtifactJsonText (snd e)) (\<lambda>t. Inr (quote_units (fst e) @ [colon] @ t))) (sort_by key_order entries)"
    using 2 by (intro traverse_cong) (auto simp: case_prod_unfold)
  then show ?case by (simp add: sort_normal [unfolded case_prod_unfold] traverse_map case_prod_unfold)
qed simp_all

section \<open>What the parser gives\<close>

fun all_safe :: "artifact_json \<Rightarrow> bool" where
  "all_safe (AArr items) \<longleftrightarrow> list_all all_safe items"
| "all_safe (AObj entries) \<longleftrightarrow> list_all (\<lambda>(k, v). all_safe v) entries"
| "all_safe (ANum n) \<longleftrightarrow> safe_integer n"
| "all_safe v \<longleftrightarrow> True"

lemma traverse_total: "list_all (\<lambda>x. \<exists>y. f x = Inr y) xs \<Longrightarrow> \<exists>ys. traverse f xs = Inr ys"
  by (induction xs) auto

lemma safe_has_text: "all_safe v \<Longrightarrow> \<exists>t. canonicalArtifactJsonText v = Inr t"
proof (induction v rule: canonicalArtifactJsonText.induct)
  case (5 items)
  then have "\<exists>ts. traverse canonicalArtifactJsonText items = Inr ts"
    by (intro traverse_total) (simp add: list_all_iff)
  then show ?case by auto
next
  case (6 entries)
  have "\<exists>ts. traverse (\<lambda>(key, v). rbind (canonicalArtifactJsonText v) (\<lambda>t. Inr (quote_units key @ [colon] @ t)))
      (sort_by key_order entries) = Inr ts"
    using 6 by (intro traverse_total) (fastforce simp: list_all_iff)
  then show ?case by auto
qed auto

lemma literal_result: "parse_literal token v rest = Inr (x, r) \<Longrightarrow> x = v"
  by (auto simp: parse_literal_def split: if_splits)

lemma integer_result: "parse_integer rest = Inr (v, r) \<Longrightarrow> all_safe v \<and> keyed_once v"
  by (auto simp: parse_integer_def Let_def split: option.splits if_splits)

lemma parse_good:
  "parse_value rest = Inr (v, r) \<Longrightarrow> all_safe v \<and> keyed_once v"
  "parse_members entries rest = Inr (v, r) \<Longrightarrow> all_safe (AObj entries) \<Longrightarrow> keyed_once (AObj entries) \<Longrightarrow> all_safe v \<and> keyed_once v"
  "parse_elements items rest = Inr (v, r) \<Longrightarrow> all_safe (AArr items) \<Longrightarrow> keyed_once (AArr items) \<Longrightarrow> all_safe v \<and> keyed_once v"
proof (induction arbitrary: v r and v r and v r rule: parse_value_parse_members_parse_elements.induct)
  case (1 rest)
  show ?case
    using 1(3) 1(1,2)
    by (subst (asm) parse_value.simps) (auto simp: Let_def split: list.splits if_splits dest!: literal_result dest: integer_result)
next
  case (2 entries rest)
  show ?case
    using 2(3-5) 2(1,2)
    by (subst (asm) parse_members.simps) (auto simp: Let_def split: if_splits)
next
  case (3 items rest)
  show ?case
    using 3(3-5) 3(1,2)
    by (subst (asm) parse_elements.simps) (auto simp: Let_def split: if_splits)
qed

lemma sorted_unique:
  "sorted_wrt key_order.le xs \<Longrightarrow> sorted_wrt key_order.le ys \<Longrightarrow> set xs = set ys \<Longrightarrow>
    distinct (map fst xs) \<Longrightarrow> distinct (map fst ys) \<Longrightarrow> xs = ys"
proof (induction xs arbitrary: ys)
  case (Cons x xs)
  then obtain y zs where ys: "ys = y # zs" by (cases ys) auto
  have "key_order x y \<le> 0" "key_order y x \<le> 0"
    using Cons.prems(1-3) key_order.cmp_flip [of x x] unfolding ys by (force, force)
  then have "fst x = fst y"
    using compare_points_antisym code_points_inj by (simp add: compareScalarStrings_def)
  moreover have "y \<in> set (x # xs)" using Cons.prems(3) ys by auto
  ultimately have "x = y" using Cons.prems(4) by force
  moreover from this have "set xs = set zs"
    using Cons.prems(3-5) unfolding ys by (auto simp: image_iff)
  ultimately show ?case using Cons.IH [of zs] Cons.prems ys by simp
qed simp

text \<open>Objects with the same entries have one normal form, whatever the order the entries were added in.\<close>

lemma normal_order:
  assumes "set es = set fs" "distinct (map fst es)" "distinct (map fst fs)"
  shows "normal (AObj es) = normal (AObj fs)"
  using sorted_unique [of "sort_by key_order es" "sort_by key_order fs"] assms
  by (simp add: key_order.sorted_sort distinct_sorted_keys)

section \<open>Well-formed text\<close>

text \<open>The text has no surrogate without its partner, so that its UTF-8 bytes give it back.\<close>

definition well_formed :: "units \<Rightarrow> bool" where
  "well_formed s \<longleftrightarrow> list_all (\<lambda>n. n < 0xD800 \<or> 0xDFFF < n) (code_points s)"

lemma surrogate_iff: "high_surrogate a \<or> low_surrogate a \<longleftrightarrow> 0xD800 \<le> unat a \<and> unat a \<le> 0xDFFF"
  by (auto simp: high_surrogate_def low_surrogate_def word_le_nat_alt)

lemma well_formed_cons: "\<not> high_surrogate a \<Longrightarrow> \<not> low_surrogate a \<Longrightarrow> well_formed (a # s) = well_formed s"
  using surrogate_iff [of a] by (cases s) (auto simp: well_formed_def)

lemma well_formed_pair: "high_surrogate a \<Longrightarrow> low_surrogate b \<Longrightarrow> well_formed (a # b # s) = well_formed s"
  by (simp add: well_formed_def)

lemma well_formed_append: "well_formed s \<Longrightarrow> well_formed t \<Longrightarrow> well_formed (s @ t)"
proof (induction s rule: code_points.induct)
  case (2 a)
  then show ?case using surrogate_iff [of a] well_formed_cons [of a t] by (auto simp: well_formed_def)
next
  case (3 a b s)
  show ?case
  proof (cases "high_surrogate a \<and> low_surrogate b")
    case False
    then have "\<not> high_surrogate a" "\<not> low_surrogate a"
      using 3(3) surrogate_iff [of a] by (auto simp: well_formed_def)
    with 3 False show ?thesis by (simp add: well_formed_cons)
  qed (use 3 in \<open>simp add: well_formed_pair\<close>)
qed simp

lemma well_formed_below: "list_all (\<lambda>c. unat c < 0xD800) s \<Longrightarrow> well_formed s"
proof (induction s)
  case (Cons a s)
  then show ?case using surrogate_iff [of a] by (auto simp: well_formed_cons)
qed (simp add: well_formed_def)

lemma well_formed_ascii [simp]: "well_formed (ascii s)"
proof (rule well_formed_below)
  have "of_char c < (0xD800 :: nat)" for c :: char
    using mod_less_divisor [of 256 "of_char c :: nat"] unfolding of_char_mod_256 by linarith
  then show "list_all (\<lambda>c. unat c < 0xD800) (ascii s)" by (simp add: list_all_iff)
qed

lemma hex_unit_below: "n < 16 \<Longrightarrow> unat (hex_unit n) < 0xD800"
proof -
  have "list_all (\<lambda>n. hex_unit n < 0xD800) [0..<16]" by code_simp
  then show "n < 16 \<Longrightarrow> unat (hex_unit n) < 0xD800" by (simp add: list_all_iff word_less_nat_alt)
qed

lemma well_formed_u: "well_formed (u_escape c)"
proof -
  have "unat c div 0x1000 < 16"
    using unit_bound [of c] by (simp add: less_mult_imp_div_less)
  then show ?thesis by (intro well_formed_below) (simp add: u_escape_def hex_unit_below)
qed

lemma well_formed_escape: "\<not> high_surrogate c \<Longrightarrow> \<not> low_surrogate c \<Longrightarrow> well_formed (escape_unit c)"
proof (cases "map_of short_escapes c")
  case None
  assume "\<not> high_surrogate c" "\<not> low_surrogate c"
  then have "well_formed [c]" by (subst well_formed_cons) (simp_all add: well_formed_def)
  with None show ?thesis by (simp add: escape_unit_def well_formed_u)
next
  case (Some e)
  then have "e \<in> set (map snd short_escapes)" by (force dest: map_of_SomeD)
  then have "unat e < 0xD800" by (auto simp: short_escapes_def)
  with Some show ?thesis by (intro well_formed_below) (simp add: escape_unit_def)
qed

lemma well_formed_quote: "well_formed (quote_body s)"
proof (induction s rule: quote_body.induct)
  case (3 a b s)
  then show ?case
    by (auto simp: well_formed_pair intro!: well_formed_append well_formed_u well_formed_escape)
qed (auto simp: well_formed_u well_formed_escape, simp add: well_formed_def)

lemma join_well_formed: "list_all well_formed ts \<Longrightarrow> well_formed (join_units ts)"
proof (induction ts rule: join_units.induct)
  case 1
  then show ?case by (simp add: well_formed_def)
next
  case (3 s t ts)
  then show ?case
    using well_formed_ascii [of "'',''"] by (simp add: unit_of_def) (metis append_Cons append_Nil well_formed_append)
qed simp

lemma enclosed_well_formed: "well_formed t \<Longrightarrow> unat a < 0xD800 \<Longrightarrow> unat b < 0xD800 \<Longrightarrow> well_formed ([a] @ t @ [b])"
  by (intro well_formed_append well_formed_below [of "[a]"] well_formed_below [of "[b]"]) simp_all

lemma quote_well_formed: "well_formed (quote_units s)"
  unfolding quote_units_def by (rule enclosed_well_formed [OF well_formed_quote]) simp_all

lemma canonical_well_formed: "canonicalArtifactJsonText v = Inr t \<Longrightarrow> well_formed t"
proof (induction v arbitrary: t rule: canonicalArtifactJsonText.induct)
  case 1
  then have "t = ascii ''null''" by simp
  then show ?case by (simp only: well_formed_ascii)
next
  case (2 b)
  then have "t = ascii (if b then ''true'' else ''false'')" by simp
  then show ?case by (simp only: well_formed_ascii)
next
  case (3 n)
  then have "t = ascii (string_of_int n)" by (simp split: if_splits)
  then show ?case by (simp only: well_formed_ascii)
next
  case (4 s)
  then show ?case using quote_well_formed by auto
next
  case (5 items)
  then obtain ts where ts: "list_all2 (\<lambda>v t. canonicalArtifactJsonText v = Inr t) items ts"
    and t: "t = [open_bracket] @ join_units ts @ [close_bracket]"
    by (auto simp: traverse_Inr_iff)
  have "list_all2 (\<lambda>v t. well_formed t) items ts"
    by (intro list.rel_mono_strong [OF ts]) (use 5(1) in blast)
  then have "list_all well_formed ts" by (auto simp: list_all2_conv_all_nth list_all_length)
  then show ?case unfolding t by (intro enclosed_well_formed join_well_formed) simp_all
next
  case (6 entries)
  let ?es = "sort_by key_order entries"
  obtain ts where ts: "list_all2 (\<lambda>(key, v) t. rbind (canonicalArtifactJsonText v) (\<lambda>u. Inr (quote_units key @ [colon] @ u)) = Inr t) ?es ts"
    and t: "t = [open_brace] @ join_units ts @ [close_brace]"
    using 6(2) by (auto simp: traverse_Inr_iff case_prod_unfold)
  have "well_formed t" if "e \<in> set ?es"
      "rbind (canonicalArtifactJsonText (snd e)) (\<lambda>u. Inr (quote_units (fst e) @ [colon] @ u)) = Inr t" for e t
    using that 6(1) [of e "fst e" "snd e"] quote_well_formed [of "fst e"]
    by (auto intro!: well_formed_append simp: well_formed_cons high_surrogate_def low_surrogate_def)
  then have "list_all2 (\<lambda>e t. well_formed t) ?es ts"
    by (intro list.rel_mono_strong [OF ts]) (simp add: case_prod_unfold)
  then have "list_all well_formed ts" by (auto simp: list_all2_conv_all_nth list_all_length)
  then show ?case unfolding t by (intro enclosed_well_formed join_well_formed) simp_all
qed

unbundle bit_operations_syntax

text \<open>A coding of that kind, for the examples: UTF-16, the high byte first.\<close>

definition utf16_encode :: "units \<Rightarrow> 8 word list" where
  "utf16_encode s = concat (map (\<lambda>c. [ucast (drop_bit 8 c), ucast c]) s)"

fun utf16_decode :: "8 word list \<Rightarrow> units option" where
  "utf16_decode [] = Some []"
| "utf16_decode [b] = None"
| "utf16_decode (h # l # bs) = map_option (Cons (push_bit 8 (ucast h) OR ucast l)) (utf16_decode bs)"

lemma utf16_unit: "push_bit 8 (ucast (ucast (drop_bit 8 c) :: 8 word)) OR ucast (ucast c :: 8 word) = c" for c :: "16 word"
  by (rule bit_word_eqI) (auto simp: bit_simps)

lemma utf16_coding: "utf16_decode (utf16_encode s) = Some s"
  by (induction s) (simp_all add: utf16_encode_def utf16_unit)

definition example_value :: artifact_json where
  "example_value = AObj [(ascii ''b'', AArr [ANum (- 70), AStr [0xD800, 0x22], ABool True]), (ascii ''a'', AObj []), ([], ANull)]"

definition example_bytes :: "8 word list" where
  "example_bytes = utf16_encode ([open_brace] @ join_units [quote_units [] @ ascii '':null'', quote_units (ascii ''a'') @ ascii '':{}'',
     quote_units (ascii ''b'') @ ascii '':[-70,'' @ quote_units [0xD800, 0x22] @ ascii '',true]''] @ [close_brace])"

lemma example_number: "string_of_int (- 70) = ''-70''"
  by code_simp

lemma example_text: "canonicalArtifactJson utf16_encode example_value = Inr example_bytes"
  by (simp add: canonicalArtifactJson_def example_value_def example_bytes_def compareScalarStrings_def
      example_number safe_integer_def MAX_SAFE_INTEGER_def unit_of_def)

lemma example_normal:
  "normal example_value = AObj [([], ANull), (ascii ''a'', AObj []), (ascii ''b'', AArr [ANum (- 70), AStr [0xD800, 0x22], ABool True])]"
  by code_simp

section \<open>The properties\<close>



text \<open>Two values have one canonical text exactly when they differ in the order of object entries only.\<close>

theorem canonical_identity:
  assumes "keyed_once v" "keyed_once w" "all_safe v"
  shows "canonicalArtifactJsonText v = canonicalArtifactJsonText w \<longleftrightarrow> normal v = normal w"
proof
  assume same: "canonicalArtifactJsonText v = canonicalArtifactJsonText w"
  obtain t where "canonicalArtifactJsonText v = Inr t" using safe_has_text [OF assms(3)] by blast
  with same canonical_reads [OF _ assms(1)] canonical_reads [OF _ assms(2)] have "reads v t" "reads w t" by auto
  then show "normal v = normal w" using readsD [of v t "[]"] readsD [of w t "[]"] by simp
next
  assume "normal v = normal w"
  then show "canonicalArtifactJsonText v = canonicalArtifactJsonText w" by (metis canonical_normal)
qed

theorem canonical_identity_witness:
  "canonicalArtifactJsonText (AObj [(ascii ''a'', ANum 1), (ascii ''b'', ANull)]) = canonicalArtifactJsonText (AObj [(ascii ''b'', ANull), (ascii ''a'', ANum 1)])"
proof -
  have keys: "keyed_once (AObj [(ascii ''a'', ANum 1), (ascii ''b'', ANull)])" "keyed_once (AObj [(ascii ''b'', ANull), (ascii ''a'', ANum 1)])"
    and safe: "all_safe (AObj [(ascii ''a'', ANum 1), (ascii ''b'', ANull)])"
    by code_simp+
  have "normal (AObj [(ascii ''a'', ANum 1), (ascii ''b'', ANull)]) = normal (AObj [(ascii ''b'', ANull), (ascii ''a'', ANum 1)])"
    by code_simp
  then show ?thesis by (rule iffD2 [OF canonical_identity [OF keys safe]])
qed

text \<open>C28. Whatever the strict parser accepts has no duplicate key at any depth and safe integers only, is an object where
  one is required, and has a canonical text.\<close>

theorem parsed_has_canonical_text:
  assumes "parseArtifactJson decode bytes requireObject = Inr v"
  shows "keyed_once v \<and> all_safe v \<and> (requireObject \<longrightarrow> is_object v) \<and> (\<exists>t. canonicalArtifactJsonText v = Inr t)"
  using assms parse_good(1) safe_has_text [of v]
  by (fastforce simp: parseArtifactJson_def parse_def split: option.splits sum.splits if_splits)

lemma example_parsed:
  "parseArtifactJson utf16_decode (Inr (ascii '' {'' @ quote_units (ascii ''a'') @ ascii '' : [ 0 , -12 ] } '')) True =
    Inr (AObj [(ascii ''a'', AArr [ANum 0, ANum (- 12)])])"
  by code_simp

theorem parsed_has_canonical_text_witness:
  "keyed_once (AObj [(ascii ''a'', AArr [ANum 0, ANum (- 12)])]) \<and> all_safe (AObj [(ascii ''a'', AArr [ANum 0, ANum (- 12)])]) \<and>
    is_object (AObj [(ascii ''a'', AArr [ANum 0, ANum (- 12)])])"
  using parsed_has_canonical_text [OF example_parsed] by blast

end
