(* ===== verification/Tables.thy ===== *)
theory Tables
  imports Prelude Effects
begin

text \<open>
  The statements of SQL that the services send, on tables kept as lists of rows: \<open>SELECT\<close> is \<open>filter\<close>,
  \<open>UPDATE ... WHERE\<close> maps the rows that satisfy a condition, \<open>INSERT\<close> appends a row or, on a conflict, updates the
  one that is there.  A transaction that throws leaves the database as it was.
\<close>

definition update_where :: "('r \<Rightarrow> bool) \<Rightarrow> ('r \<Rightarrow> 'r) \<Rightarrow> 'r list \<Rightarrow> 'r list" where
  "update_where P f rows = map (\<lambda>r. if P r then f r else r) rows"

text \<open>\<open>rows[0]\<close> of a select.\<close>

definition first_row :: "('r \<Rightarrow> bool) \<Rightarrow> 'r list \<Rightarrow> 'r option" where
  "first_row P rows = find P rows"

text \<open>\<open>INSERT ... ON CONFLICT (key) DO UPDATE SET ... WHERE\<close>: the row with the same key is updated, if the condition holds of it.\<close>

definition insert_on_conflict :: "('r \<Rightarrow> 'k) \<Rightarrow> 'r \<Rightarrow> ('r \<Rightarrow> bool) \<Rightarrow> ('r \<Rightarrow> 'r) \<Rightarrow> 'r list \<Rightarrow> 'r list" where
  "insert_on_conflict key row P f rows =
     (if list_ex (\<lambda>r. key r = key row) rows then update_where (\<lambda>r. key r = key row \<and> P r) f rows else rows @ [row])"

abbreviation insert_or_update :: "('r \<Rightarrow> 'k) \<Rightarrow> 'r \<Rightarrow> ('r \<Rightarrow> 'r) \<Rightarrow> 'r list \<Rightarrow> 'r list" where
  "insert_or_update key row f rows \<equiv> insert_on_conflict key row (\<lambda>_. True) f rows"

abbreviation insert_or_nothing :: "('r \<Rightarrow> 'k) \<Rightarrow> 'r \<Rightarrow> 'r list \<Rightarrow> 'r list" where
  "insert_or_nothing key row rows \<equiv> insert_on_conflict key row (\<lambda>_. False) id rows"

text \<open>\<open>BEGIN; ...; COMMIT\<close>, with \<open>ROLLBACK\<close> when the body throws.\<close>

definition transaction :: "('d, 'a) io \<Rightarrow> ('d, 'a) io" where
  "transaction body = (\<lambda>d. case body d of (Inl e, _) \<Rightarrow> (Inl e, d) | (Inr x, d') \<Rightarrow> (Inr x, d'))"

lemma transaction_Inl: "transaction body d = (Inl e, d') \<Longrightarrow> d' = d"
  by (auto simp: transaction_def split: prod.splits sum.splits)

lemma transaction_Inr [simp]: "transaction body d = (Inr x, d') \<longleftrightarrow> body d = (Inr x, d')"
  by (auto simp: transaction_def split: prod.splits sum.splits)

lemma transaction_kept: "I d \<Longrightarrow> (\<And>x d'. body d = (Inr x, d') \<Longrightarrow> I d') \<Longrightarrow> I (snd (transaction body d))"
  by (auto simp: transaction_def split: prod.splits sum.splits)

text \<open>Reading the database, and writing it.\<close>

definition select :: "('d \<Rightarrow> 'a) \<Rightarrow> ('d, 'a) io" where
  "select f = (\<lambda>d. (Inr (f d), d))"

definition command :: "('d \<Rightarrow> 'd) \<Rightarrow> ('d, unit) io" where
  "command f = (\<lambda>d. (Inr (), f d))"

definition refuse_if :: "bool \<Rightarrow> string \<Rightarrow> ('d, unit) io" where
  "refuse_if bad message = lift (throw_if bad (Err message))"

lemma io_steps [simp]:
  "bind_io (select f) g d = g (f d) d" "bind_io (command h) k d = k () (h d)"
  "bind_io (refuse_if bad message) k d = (if bad then (Inl (Err message), d) else k () d)"
  "refuse_if bad message d = (if bad then Inl (Err message) else Inr (), d)"
  "command h d = (Inr (), h d)" "select f d = (Inr (f d), d)" "return x d = (Inr x, d)" "throw e d = (Inl e, d)"
  by (simp_all add: bind_io_def select_def command_def refuse_if_def lift_def throw_if_def return_def throw_def)

lemma bind_io_Inr: "bind_io m f d = (Inr y, d') \<longleftrightarrow> (\<exists>x d1. m d = (Inr x, d1) \<and> f x d1 = (Inr y, d'))"
  by (auto simp: bind_io_def split: prod.splits sum.splits)

section \<open>Rows and keys\<close>

lemma set_update_where: "set (update_where P f rows) = (\<lambda>r. if P r then f r else r) ` set rows"
  by (simp add: update_where_def)

lemma set_update_one:
  assumes "r \<in> set rows" "\<And>s. s \<in> set rows \<Longrightarrow> P s \<longleftrightarrow> s = r"
  shows "set (update_where P f rows) = insert (f r) (set rows - {r})"
  unfolding set_update_where using assms by (auto simp: image_iff)

lemma update_where_none: "(\<And>r. r \<in> set rows \<Longrightarrow> \<not> P r) \<Longrightarrow> update_where P f rows = rows"
  by (simp add: update_where_def map_idI)

lemma list_ex_update_where: "list_ex Q (update_where P f rows) \<longleftrightarrow> (\<exists>r\<in>set rows. Q (if P r then f r else r))"
  by (auto simp: list_ex_iff set_update_where)

text \<open>A table with a primary key: rows with one key are one row.\<close>

definition unique :: "('r \<Rightarrow> 'k) \<Rightarrow> 'r list \<Rightarrow> bool" where
  "unique key rows \<longleftrightarrow> distinct (map key rows)"

lemma unique_row: "unique key rows \<Longrightarrow> r \<in> set rows \<Longrightarrow> s \<in> set rows \<Longrightarrow> key r = key s \<Longrightarrow> r = s"
  by (auto simp: unique_def distinct_map inj_on_def)

lemma first_rowD: "first_row P rows = Some r \<Longrightarrow> r \<in> set rows \<and> P r"
  by (auto simp: first_row_def find_Some_iff)

lemma first_row_None: "first_row P rows = None \<longleftrightarrow> (\<forall>r\<in>set rows. \<not> P r)"
  by (auto simp: first_row_def find_None_iff)

lemma unique_first: "unique key rows \<Longrightarrow> r \<in> set rows \<Longrightarrow> first_row (\<lambda>s. key s = key r) rows = Some r"
  by (cases "first_row (\<lambda>s. key s = key r) rows") (auto simp: first_row_None dest!: first_rowD intro: unique_row)

lemma unique_update_where:
  assumes "unique key rows" "\<And>r. r \<in> set rows \<Longrightarrow> P r \<Longrightarrow> key (f r) = key r"
  shows "unique key (update_where P f rows)"
proof -
  have "map key (update_where P f rows) = map key rows"
    using assms(2) by (simp add: update_where_def)
  with assms(1) show ?thesis by (simp add: unique_def)
qed

lemma unique_append: "unique key (rows @ [row]) \<longleftrightarrow> unique key rows \<and> (\<forall>r\<in>set rows. key r \<noteq> key row)"
  by (auto simp: unique_def image_iff)

lemma unique_insert:
  "unique key rows \<Longrightarrow> (\<And>r. r \<in> set rows \<Longrightarrow> key (f r) = key r) \<Longrightarrow> unique key (insert_on_conflict key row P f rows)"
  by (auto simp: insert_on_conflict_def unique_update_where unique_append list_ex_iff)

lemma set_insert_on_conflict:
  "set (insert_on_conflict key row P f rows) \<subseteq> insert row (set rows \<union> f ` {r \<in> set rows. key r = key row \<and> P r})"
  by (auto simp: insert_on_conflict_def set_update_where)

end
