(* ===== verification/Directory.thy ===== *)
theory Directory
  imports Tables JsValue
begin

text \<open>
  The directory of customers: the tables of services/aven-api/migrations, the customer store
  (services/aven-api/src/customers/store.ts), the work queue of the provisioner
  (services/platform-provisioner/src/control.ts) and the store of movements between runtimes (movement.ts of the
  same service).  Every transaction is one operation on the tables.  Times are milliseconds.
\<close>

section \<open>Rows\<close>

datatype desired_state = WantReady | WantSuspended
datatype observed_state = Pending | Reconciling | IsReady | IsSuspended | HasFailed | IsUnknown
datatype provision_action = DoReconcile | DoSuspend
datatype operation_status = OpQueued | OpRunning | OpSucceeded | OpFailed | OpUnknown
datatype movement_phase =
    Paused | Fenced | Copied | Verified | Returning | Activated | MoveCompleted | MoveCancelled | Superseded
datatype movement_mode = Move | Rollback
datatype event_type = PurchaseGranted | PurchaseRevoked

record catalog_entry =
  ca_componentRef :: string
  ca_targetSchemaVersion :: int
  ca_migrationSetDigest :: string

record customer_runtime =
  cr_id :: string
  cr_release_sha :: "string option"
  cr_component_catalog :: "catalog_entry list option"
  cr_retired_at :: "int option"

record customer_environment =
  ce_id :: string
  ce_purchased_name :: string
  ce_owner_subject_id :: string
  ce_database_name :: string
  ce_desired_state :: desired_state
  ce_observed_state :: observed_state
  ce_routing_generation :: int
  ce_runtime_id :: string
  ce_movement_id :: "string option"
  ce_last_error :: "string option"
  ce_created_at :: int

record environment_component =
  cc_environment_id :: string
  cc_component_ref :: string
  cc_desired_state :: desired_state
  cc_observed_state :: observed_state
  cc_target_schema_version :: int
  cc_observed_schema_version :: "int option"
  cc_migration_set_digest :: string
  cc_observed_migration_set_digest :: "string option"
  cc_routing_generation :: int
  cc_last_operation_id :: "string option"
  cc_last_error :: "string option"

record component_operation =
  co_id :: string
  co_environment_id :: string
  co_component_ref :: string
  co_action :: provision_action
  co_status :: operation_status
  co_target_schema_version :: int
  co_migration_set_digest :: string
  co_routing_generation :: int
  co_attempt :: nat
  co_lease_owner :: "string option"
  co_lease_expires_at :: "int option"
  co_last_error :: "string option"
  co_created_at :: int

record membership =
  cm_environment_id :: string
  cm_subject_id :: string
  cm_role :: string

record entitlement_event =
  ee_eventId :: string
  ee_eventType :: event_type
  ee_subjectId :: string
  ee_purchasedName :: string
  ee_occurredAt :: int

record movement =
  mv_id :: string
  mv_environment_id :: string
  mv_source_runtime_id :: string
  mv_destination_runtime_id :: string
  mv_source_generation :: int
  mv_destination_generation :: int
  mv_phase :: movement_phase
  mv_mode :: movement_mode
  mv_rollback_of :: "string option"
  mv_accept_divergence :: bool
  mv_evidence :: json_record
  mv_last_error :: "string option"

record heartbeat =
  hb_worker_name :: string
  hb_instance_id :: string
  hb_catalog_digest :: string
  hb_started_at :: int
  hb_last_heartbeat_at :: int

text \<open>The tables; \<open>d_controllers\<close> holds the movements on which a session has an advisory lock.\<close>

record directory =
  d_events :: "entitlement_event list"
  d_environments :: "customer_environment list"
  d_memberships :: "membership list"
  d_components :: "environment_component list"
  d_operations :: "component_operation list"
  d_heartbeats :: "heartbeat list"
  d_runtimes :: "customer_runtime list"
  d_default_runtime :: string
  d_movements :: "movement list"
  d_controllers :: "string list"

definition component_key :: "environment_component \<Rightarrow> string \<times> string" where
  "component_key c = (cc_environment_id c, cc_component_ref c)"

definition operation_key :: "component_operation \<Rightarrow> string \<times> string \<times> provision_action \<times> int \<times> int \<times> string" where
  "operation_key o1 = (co_environment_id o1, co_component_ref o1, co_action o1, co_routing_generation o1,
     co_target_schema_version o1, co_migration_set_digest o1)"

definition membership_key :: "membership \<Rightarrow> string \<times> string" where
  "membership_key m = (cm_environment_id m, cm_subject_id m)"

text \<open>The initial content of the tables: the one runtime that is there from the start, and the default.\<close>

definition initial_directory :: directory where
  "initial_directory = \<lparr>d_events = [], d_environments = [], d_memberships = [], d_components = [], d_operations = [],
     d_heartbeats = [],
     d_runtimes = [\<lparr>cr_id = ''primary'', cr_release_sha = None, cr_component_catalog = None, cr_retired_at = None\<rparr>],
     d_default_runtime = ''primary'', d_movements = [], d_controllers = []\<rparr>"

text \<open>\<open>/^[a-f0-9]{n}$/\<close> and \<open>/^[a-z][a-z0-9-]{0,62}$/\<close>.\<close>

definition hex_of_length :: "nat \<Rightarrow> string \<Rightarrow> bool" where
  "hex_of_length n s \<longleftrightarrow> length s = n \<and> list_all (\<lambda>c. c \<in> set ''0123456789abcdef'') s"

definition runtime_name :: "string \<Rightarrow> bool" where
  "runtime_name s \<longleftrightarrow>
     (case s of
        [] \<Rightarrow> False
      | c # cs \<Rightarrow> c \<in> set ''abcdefghijklmnopqrstuvwxyz'' \<and> length cs \<le> 62 \<and>
          list_all (\<lambda>c. c \<in> set ''abcdefghijklmnopqrstuvwxyz0123456789-'') cs)"

end
