(* ===== verification/Placement.thy ===== *)
theory Placement
  imports Directory
begin

text \<open>
  services/aven-api/src/customers/store.ts: purchases and revocations, and the authorization of a request; and
  services/platform-provisioner/src/control.ts: the queue of the work that follows from them.  The policy of
  memberships is libs/aven-customer-contracts/src/authorization.ts.
\<close>

section \<open>Memberships\<close>

definition policy :: "(string \<times> (string \<times> string list) list) list" where
  "policy =
     [(''ceo.aven:component:data:artifacts@1'',
         [(''owner'', [''artifacts:read'', ''artifacts:write'']),
          (''admin'', [''artifacts:read'', ''artifacts:write'']),
          (''member'', [''artifacts:read'', ''artifacts:write''])]),
      (''ceo.aven:component:data:intents@1'',
         [(''owner'', [''intents:read'', ''intents:write'', ''intents:delete'', ''intents:merge'']),
          (''admin'', [''intents:read'', ''intents:write'', ''intents:delete'', ''intents:merge'']),
          (''member'', [''intents:read'', ''intents:write''])]),
      (''os.aven:component:actors:run-repository@1'',
         [(''owner'', [''actor-runs:read'', ''actor-runs:write'']),
          (''admin'', [''actor-runs:read'', ''actor-runs:write'']),
          (''member'', [''actor-runs:read'', ''actor-runs:write''])])]"

definition membershipAllows :: "string \<Rightarrow> string \<Rightarrow> string list \<Rightarrow> bool" where
  "membershipAllows role component actions =
     (case (if role \<in> set [''owner'', ''admin'', ''member''] then map_of policy component else None) of
        None \<Rightarrow> False
      | Some roles \<Rightarrow>
          (case map_of roles role of
             None \<Rightarrow> False
           | Some granted \<Rightarrow> actions \<noteq> [] \<and> list_all (\<lambda>a. a \<in> set granted) actions))"

section \<open>Entitlements\<close>

text \<open>\<open>databaseNameForEnvironment\<close> of libs/aven-customer-contracts/src/roles.ts; the UUID schema is zod's.\<close>

definition environmentHex :: "(string \<Rightarrow> bool) \<Rightarrow> string \<Rightarrow> string res" where
  "environmentHex uuid environmentId =
     rbind (throw_if (\<not> uuid environmentId) (Err ''Invalid UUID'')) (\<lambda>_. Inr (filter (\<lambda>c. c \<noteq> CHR ''-'') environmentId))"

definition databaseNameForEnvironment :: "(string \<Rightarrow> bool) \<Rightarrow> string \<Rightarrow> string res" where
  "databaseNameForEnvironment uuid environmentId =
     rbind (environmentHex uuid environmentId) (\<lambda>hex.
     rbind (throw_if (\<not> hex_of_length 32 hex) (Err ''Invalid string'')) (\<lambda>_. Inr (''cust_'' @ hex)))"

text \<open>The event is kept once; \<open>None\<close> is returned for a new one.\<close>

definition replay_check :: "entitlement_event \<Rightarrow> (directory, unit) io" where
  "replay_check event =
     bind_io (select (\<lambda>d. first_row (\<lambda>e. ee_eventId e = ee_eventId event) (d_events d))) (\<lambda>replay.
       if replay = Some event then return ()
       else throw (Coded 409 ''ENTITLEMENT_EVENT_CONFLICT'' ''The event ID is already bound to different entitlement data.''))"

definition desired_of :: "event_type \<Rightarrow> desired_state" where
  "desired_of t = (if t = PurchaseGranted then WantReady else WantSuspended)"

text \<open>The environment of the purchased name: the one that is there in its next generation, unless it is moving, or a new one.\<close>

definition renew_environment :: "string \<Rightarrow> entitlement_event \<Rightarrow> directory \<Rightarrow> directory" where
  "renew_environment environmentId event = d_environments_update (update_where (\<lambda>e. ce_id e = environmentId) (\<lambda>e.
     e\<lparr>ce_owner_subject_id := ee_subjectId event, ce_desired_state := desired_of (ee_eventType event), ce_observed_state := Pending,
       ce_routing_generation := (if ce_movement_id e = None then ce_routing_generation e + 1 else ce_routing_generation e)\<rparr>))"

definition add_environment :: "string \<Rightarrow> string \<Rightarrow> string \<Rightarrow> int \<Rightarrow> entitlement_event \<Rightarrow> directory \<Rightarrow> directory" where
  "add_environment environmentId database runtime now event = d_environments_update (\<lambda>rows. rows @
     [\<lparr>ce_id = environmentId, ce_purchased_name = ee_purchasedName event, ce_owner_subject_id = ee_subjectId event,
       ce_database_name = database, ce_desired_state = desired_of (ee_eventType event), ce_observed_state = Pending,
       ce_routing_generation = 1, ce_runtime_id = runtime, ce_movement_id = None, ce_last_error = None, ce_created_at = now\<rparr>])"

definition environment_taken :: "string \<Rightarrow> string \<Rightarrow> string \<Rightarrow> directory \<Rightarrow> bool" where
  "environment_taken environmentId database name d =
     list_ex (\<lambda>e. ce_id e = environmentId \<or> ce_database_name e = database \<or> ce_purchased_name e = name) (d_environments d)"

text \<open>The default placement: its runtime must not be retired.\<close>

definition default_placement :: "directory \<Rightarrow> customer_runtime option" where
  "default_placement d = first_row (\<lambda>r. cr_id r = d_default_runtime d \<and> cr_retired_at r = None) (d_runtimes d)"

definition catalog_of_component :: "environment_component \<Rightarrow> catalog_entry" where
  "catalog_of_component c = \<lparr>ca_componentRef = cc_component_ref c, ca_targetSchemaVersion = cc_target_schema_version c,
     ca_migrationSetDigest = cc_migration_set_digest c\<rparr>"

definition owner_membership :: "string \<Rightarrow> string \<Rightarrow> directory \<Rightarrow> directory" where
  "owner_membership environmentId subject = d_memberships_update (insert_or_update membership_key
     \<lparr>cm_environment_id = environmentId, cm_subject_id = subject, cm_role = ''owner''\<rparr> (\<lambda>m. m\<lparr>cm_role := ''owner''\<rparr>))"

definition entitle_component :: "string \<Rightarrow> desired_state \<Rightarrow> int \<Rightarrow> catalog_entry \<Rightarrow> directory \<Rightarrow> directory" where
  "entitle_component environmentId desired generation c = d_components_update (insert_or_update component_key
     \<lparr>cc_environment_id = environmentId, cc_component_ref = ca_componentRef c, cc_desired_state = desired,
       cc_observed_state = Pending, cc_target_schema_version = ca_targetSchemaVersion c, cc_observed_schema_version = None,
       cc_migration_set_digest = ca_migrationSetDigest c, cc_observed_migration_set_digest = None,
       cc_routing_generation = generation, cc_last_operation_id = None, cc_last_error = None\<rparr>
     (\<lambda>r. r\<lparr>cc_desired_state := desired, cc_observed_state := Pending, cc_target_schema_version := ca_targetSchemaVersion c,
       cc_migration_set_digest := ca_migrationSetDigest c, cc_routing_generation := generation\<rparr>))"

definition new_operation :: "string \<Rightarrow> string \<Rightarrow> string \<Rightarrow> provision_action \<Rightarrow> int \<Rightarrow> string \<Rightarrow> int \<Rightarrow> int \<Rightarrow> component_operation" where
  "new_operation operation_id environmentId component action version digest generation now =
     \<lparr>co_id = operation_id, co_environment_id = environmentId, co_component_ref = component, co_action = action, co_status = OpQueued,
       co_target_schema_version = version, co_migration_set_digest = digest, co_routing_generation = generation, co_attempt = 0,
       co_lease_owner = None, co_lease_expires_at = None, co_last_error = None, co_created_at = now\<rparr>"

text \<open>\<open>ON CONFLICT DO NOTHING\<close>, on either key of the table.\<close>

definition same_operation :: "component_operation \<Rightarrow> component_operation \<Rightarrow> bool" where
  "same_operation row o1 \<longleftrightarrow> co_id o1 = co_id row \<or> operation_key o1 = operation_key row"

definition queue_entitled :: "string \<Rightarrow> string \<Rightarrow> desired_state \<Rightarrow> int \<Rightarrow> int \<Rightarrow> catalog_entry \<Rightarrow> directory \<Rightarrow> directory" where
  "queue_entitled operation_id environmentId desired generation now c =
     (let row = new_operation operation_id environmentId (ca_componentRef c)
          (if desired = WantReady then DoReconcile else DoSuspend)
          (ca_targetSchemaVersion c) (ca_migrationSetDigest c) generation now in
      d_operations_update (\<lambda>rows. if list_ex (same_operation row) rows then rows else rows @ [row]))"

text \<open>The components of the environment: as they are, or the catalog of its runtime.\<close>

definition entitled_components :: "catalog_entry list \<Rightarrow> bool \<Rightarrow> string \<Rightarrow> customer_runtime option \<Rightarrow> directory \<Rightarrow> catalog_entry list" where
  "entitled_components defaults present environmentId placement d =
     (if present then map catalog_of_component (filter (\<lambda>c. cc_environment_id c = environmentId) (d_components d))
      else case placement of
        None \<Rightarrow> []
      | Some r \<Rightarrow> (case cr_component_catalog r of
          Some catalog \<Rightarrow> catalog
        | None \<Rightarrow> if cr_id r = ''primary'' then defaults else []))"

definition entitle_components :: "(nat \<Rightarrow> string) \<Rightarrow> string \<Rightarrow> desired_state \<Rightarrow> int \<Rightarrow> int \<Rightarrow> catalog_entry list \<Rightarrow> (directory, unit) io" where
  "entitle_components operation_ids environmentId desired generation now components =
     bind_io (for_io (\<lambda>c i. bind_io (command (entitle_component environmentId desired generation c)) (\<lambda>_.
       bind_io (command (queue_entitled (operation_ids i) environmentId desired generation now c)) (\<lambda>_.
       return (i + 1)))) components 0) (\<lambda>_. return ())"

text \<open>The environment is renewed or added; then its owner, its components and their operations.\<close>

definition place_entitled :: "(string \<Rightarrow> bool) \<Rightarrow> string \<Rightarrow> customer_runtime option \<Rightarrow> int \<Rightarrow> entitlement_event \<Rightarrow> (directory, unit) io" where
  "place_entitled uuid environmentId placement now event =
     (case placement of
        None \<Rightarrow> command (renew_environment environmentId event)
      | Some r \<Rightarrow> bind_io (lift (databaseNameForEnvironment uuid environmentId)) (\<lambda>database.
          bind_io (select (environment_taken environmentId database (ee_purchasedName event))) (\<lambda>taken.
          bind_io (refuse_if taken ''duplicate key value violates unique constraint'') (\<lambda>_.
          command (add_environment environmentId database (cr_id r) now event)))))"

definition entitle_environment ::
    "catalog_entry list \<Rightarrow> (string \<Rightarrow> bool) \<Rightarrow> (nat \<Rightarrow> string) \<Rightarrow> int \<Rightarrow> entitlement_event \<Rightarrow> bool \<Rightarrow> string \<Rightarrow> customer_runtime option \<Rightarrow>
      (directory, string \<times> bool) io" where
  "entitle_environment defaults uuid operation_ids now event present environmentId placement =
     bind_io (place_entitled uuid environmentId placement now event) (\<lambda>_.
     bind_io (command (owner_membership environmentId (ee_subjectId event))) (\<lambda>_.
     bind_io (select (\<lambda>d. map_option ce_routing_generation (first_row (\<lambda>e. ce_id e = environmentId) (d_environments d)))) (\<lambda>generation.
     case generation of
       None \<Rightarrow> throw (Err ''environment generation missing'')
     | Some g \<Rightarrow>
         bind_io (select (entitled_components defaults present environmentId placement)) (\<lambda>components.
         bind_io (refuse_if (components = []) ''default runtime has no component catalog'') (\<lambda>_.
         bind_io (entitle_components operation_ids environmentId (desired_of (ee_eventType event)) g now components) (\<lambda>_.
         return (environmentId, False)))))))"

text \<open>\<open>acceptEntitlement\<close>.  \<open>fresh\<close> and \<open>operation_ids\<close> are the UUIDs it draws; the answer is the environment and whether
  the event is a replay.\<close>

definition acceptEntitlement ::
    "catalog_entry list \<Rightarrow> (string \<Rightarrow> bool) \<Rightarrow> string \<Rightarrow> (nat \<Rightarrow> string) \<Rightarrow> int \<Rightarrow> entitlement_event \<Rightarrow> (directory, string \<times> bool) io" where
  "acceptEntitlement defaults uuid fresh operation_ids now event = transaction (
     bind_io (select (\<lambda>d. \<not> list_ex (\<lambda>e. ee_eventId e = ee_eventId event) (d_events d))) (\<lambda>inserted.
     bind_io (command (d_events_update (insert_or_nothing ee_eventId event))) (\<lambda>_.
     bind_io (select (\<lambda>d. first_row (\<lambda>e. ce_purchased_name e = ee_purchasedName event) (d_environments d))) (\<lambda>existing.
     if \<not> inserted then
       bind_io (replay_check event) (\<lambda>_.
       case existing of
         None \<Rightarrow> throw (Err ''entitlement replay has no environment'')
       | Some e \<Rightarrow> return (ce_id e, True))
     else
       (case existing of
          Some e \<Rightarrow> entitle_environment defaults uuid operation_ids now event True (ce_id e) None
        | None \<Rightarrow>
            bind_io (select default_placement) (\<lambda>placement.
            bind_io (refuse_if (placement = None) ''default customer runtime is unavailable'') (\<lambda>_.
            entitle_environment defaults uuid operation_ids now event False fresh placement)))))))"

section \<open>Authorization of a request\<close>

record identity_claims =
  ic_sub :: string
  ic_sid :: string
  ic_role :: string

record placement_grant =
  pg_iss :: string
  pg_aud :: string
  pg_sub :: string
  pg_sid :: string
  pg_role :: string
  pg_membershipRole :: string
  pg_environmentId :: string
  pg_databaseName :: string
  pg_runtimeId :: string
  pg_routingGeneration :: int
  pg_componentRef :: string
  pg_actions :: "string list"

text \<open>The join of environments, memberships and components.\<close>

definition authorization_rows ::
    "string \<Rightarrow> string \<Rightarrow> string \<Rightarrow> directory \<Rightarrow> (customer_environment \<times> membership \<times> environment_component) list" where
  "authorization_rows environmentId subject componentRef d =
     [(e, m, c).
        e \<leftarrow> filter (\<lambda>e. ce_id e = environmentId) (d_environments d),
        m \<leftarrow> filter (\<lambda>m. cm_environment_id m = ce_id e \<and> cm_subject_id m = subject) (d_memberships d),
        c \<leftarrow> filter (\<lambda>c. cc_environment_id c = ce_id e \<and> cc_component_ref c = componentRef) (d_components d)]"

definition authorize :: "string \<Rightarrow> identity_claims \<Rightarrow> string \<Rightarrow> string \<Rightarrow> string list \<Rightarrow> (directory, placement_grant) io" where
  "authorize issuer claims environmentId componentRef actions =
     bind_io (select (authorization_rows environmentId (ic_sub claims) componentRef)) (\<lambda>rows.
     case rows of
       [] \<Rightarrow> throw (Coded 404 ''ENVIRONMENT_NOT_FOUND'' ''Environment not found.'')
     | (e, m, c) # _ \<Rightarrow>
         if \<not> membershipAllows (cm_role m) componentRef actions
         then throw (Coded 403 ''MEMBERSHIP_ACTION_DENIED'' ''Your customer role does not permit this action.'')
         else if ce_movement_id e \<noteq> None \<or> ce_desired_state e \<noteq> WantReady \<or> ce_observed_state e \<noteq> IsReady \<or>
           cc_observed_state c \<noteq> IsReady
         then throw (Coded 503 ''COMPONENT_NOT_READY'' ''The customer component is not ready.'')
         else return \<lparr>pg_iss = issuer, pg_aud = componentRef, pg_sub = ic_sub claims, pg_sid = ic_sid claims, pg_role = ic_role claims,
           pg_membershipRole = cm_role m, pg_environmentId = environmentId, pg_databaseName = ce_database_name e,
           pg_runtimeId = ce_runtime_id e, pg_routingGeneration = ce_routing_generation e, pg_componentRef = componentRef,
           pg_actions = actions\<rparr>)"

text \<open>\<open>list\<close>: the environments of a subject, oldest first, with their components.\<close>

record environment_summary =
  es_id :: string
  es_purchasedName :: string
  es_role :: string
  es_desiredState :: desired_state
  es_observedState :: observed_state
  es_routingGeneration :: int
  es_components :: "(string \<times> desired_state \<times> observed_state) list"

definition list_environments :: "string \<Rightarrow> directory \<Rightarrow> environment_summary list" where
  "list_environments subject d =
     map (\<lambda>(e, m). \<lparr>es_id = ce_id e, es_purchasedName = ce_purchased_name e, es_role = cm_role m,
         es_desiredState = ce_desired_state e, es_observedState = ce_observed_state e, es_routingGeneration = ce_routing_generation e,
         es_components = map (\<lambda>c. (cc_component_ref c, cc_desired_state c, cc_observed_state c))
           (sort_by (\<lambda>a b. string_order (cc_component_ref a) (cc_component_ref b))
             (filter (\<lambda>c. cc_environment_id c = ce_id e) (d_components d)))\<rparr>)
       (sort_by (\<lambda>a b. or_else (ce_created_at (fst a) - ce_created_at (fst b)) (string_order (ce_id (fst a)) (ce_id (fst b))))
         [(e, m). e \<leftarrow> d_environments d,
           m \<leftarrow> filter (\<lambda>m. cm_environment_id m = ce_id e \<and> cm_subject_id m = subject) (d_memberships d)])"

section \<open>The provisioner's queue\<close>

record provision_operation =
  po_id :: string
  po_environmentId :: string
  po_databaseName :: string
  po_componentRef :: string
  po_action :: provision_action
  po_targetSchemaVersion :: int
  po_migrationSetDigest :: string
  po_routingGeneration :: int

definition heartbeat_worker :: "string \<Rightarrow> string" where
  "heartbeat_worker runtimeId =
     (if runtimeId = ''primary'' then ''platform-provisioner'' else ''platform-provisioner:'' @ runtimeId)"

definition record_heartbeat :: "string \<Rightarrow> string \<Rightarrow> string \<Rightarrow> int \<Rightarrow> directory \<Rightarrow> directory" where
  "record_heartbeat instanceId runtimeId catalogDigest now = d_heartbeats_update (insert_or_update hb_worker_name
     \<lparr>hb_worker_name = heartbeat_worker runtimeId, hb_instance_id = instanceId, hb_catalog_digest = catalogDigest,
       hb_started_at = now, hb_last_heartbeat_at = now\<rparr>
     (\<lambda>h. h\<lparr>hb_instance_id := instanceId, hb_catalog_digest := catalogDigest, hb_last_heartbeat_at := now\<rparr>))"

text \<open>\<open>queueCustomerReconciliation\<close>: one operation for each component of a settled environment; a worker with a lease keeps
  its operation.\<close>

definition lease_over :: "int \<Rightarrow> component_operation \<Rightarrow> bool" where
  "lease_over now o1 \<longleftrightarrow> (case co_lease_expires_at o1 of None \<Rightarrow> True | Some t \<Rightarrow> t \<le> now)"

definition reconcilable :: "string \<Rightarrow> directory \<Rightarrow> (customer_environment \<times> environment_component) list" where
  "reconcilable environmentId d =
     [(e, c).
        e \<leftarrow> filter (\<lambda>e. ce_id e = environmentId \<and> ce_desired_state e = WantReady \<and> ce_movement_id e = None) (d_environments d),
        c \<leftarrow> filter (\<lambda>c. cc_environment_id c = ce_id e \<and> cc_desired_state c = WantReady) (d_components d)]"

definition requeue :: "int \<Rightarrow> string \<Rightarrow> customer_environment \<times> environment_component \<Rightarrow> (directory, unit) io" where
  "requeue now operation_id ec =
     (let row = new_operation operation_id (ce_id (fst ec)) (cc_component_ref (snd ec)) DoReconcile (cc_target_schema_version (snd ec))
          (cc_migration_set_digest (snd ec)) (ce_routing_generation (fst ec)) now in
      bind_io (select (\<lambda>d. list_ex (\<lambda>o1. co_id o1 = operation_id) (d_operations d) \<and>
        \<not> list_ex (\<lambda>o1. operation_key o1 = operation_key row) (d_operations d))) (\<lambda>taken.
      bind_io (refuse_if taken ''duplicate key value violates unique constraint'') (\<lambda>_.
      command (d_operations_update (insert_on_conflict operation_key row
        (\<lambda>o1. co_status o1 \<noteq> OpRunning \<or> lease_over now o1)
        (\<lambda>o1. o1\<lparr>co_status := OpQueued, co_last_error := None, co_lease_owner := None, co_lease_expires_at := None\<rparr>))))))"

definition queueCustomerReconciliation :: "(nat \<Rightarrow> string) \<Rightarrow> int \<Rightarrow> string \<Rightarrow> (directory, unit) io" where
  "queueCustomerReconciliation operation_ids now environmentId =
     bind_io (select (reconcilable environmentId)) (\<lambda>rows.
     bind_io (for_io (\<lambda>ec i. bind_io (requeue now (operation_ids i) ec) (\<lambda>_. return (i + 1))) rows 0) (\<lambda>_.
     return ()))"

text \<open>\<open>claim\<close>: the oldest operation of the environments placed on the runtime and not moving, in their generation, that is
  queued or whose lease is over.\<close>

definition claimable :: "string \<Rightarrow> int \<Rightarrow> directory \<Rightarrow> (component_operation \<times> customer_environment) list" where
  "claimable runtimeId now d =
     [(o1, e).
        o1 \<leftarrow> d_operations d,
        e \<leftarrow> filter (\<lambda>e. ce_id e = co_environment_id o1 \<and> ce_runtime_id e = runtimeId \<and> ce_movement_id e = None \<and>
            co_routing_generation o1 = ce_routing_generation e \<and>
            (co_status o1 = OpQueued \<or>
              co_status o1 = OpRunning \<and> (case co_lease_expires_at o1 of None \<Rightarrow> False | Some t \<Rightarrow> t < now))) (d_environments d)]"

definition operation_order :: "component_operation \<times> customer_environment \<Rightarrow> component_operation \<times> customer_environment \<Rightarrow> int" where
  "operation_order a b = or_else (co_created_at (fst a) - co_created_at (fst b)) (string_order (co_id (fst a)) (co_id (fst b)))"

definition take_lease :: "string \<Rightarrow> int \<Rightarrow> int \<Rightarrow> component_operation \<Rightarrow> directory \<Rightarrow> directory" where
  "take_lease instanceId leaseSeconds now row d =
     d\<lparr>d_operations := update_where (\<lambda>o1. co_id o1 = co_id row)
           (\<lambda>o1. o1\<lparr>co_status := OpRunning, co_attempt := co_attempt o1 + 1, co_lease_owner := Some instanceId,
             co_lease_expires_at := Some (now + leaseSeconds * 1000)\<rparr>) (d_operations d),
       d_components := update_where (\<lambda>c. cc_environment_id c = co_environment_id row \<and> cc_component_ref c = co_component_ref row)
           (\<lambda>c. c\<lparr>cc_observed_state := Reconciling, cc_last_operation_id := Some (co_id row)\<rparr>) (d_components d),
       d_environments := update_where (\<lambda>e. ce_id e = co_environment_id row) (\<lambda>e. e\<lparr>ce_observed_state := Reconciling\<rparr>) (d_environments d)\<rparr>"

definition claim :: "string \<Rightarrow> string \<Rightarrow> int \<Rightarrow> int \<Rightarrow> (directory, provision_operation option) io" where
  "claim instanceId runtimeId leaseSeconds now = transaction (
     bind_io (select (\<lambda>d. sort_by operation_order (claimable runtimeId now d))) (\<lambda>rows.
     case rows of
       [] \<Rightarrow> return None
     | (row, e) # _ \<Rightarrow>
         bind_io (command (take_lease instanceId leaseSeconds now row)) (\<lambda>_.
         return (Some \<lparr>po_id = co_id row, po_environmentId = co_environment_id row, po_databaseName = ce_database_name e,
           po_componentRef = co_component_ref row, po_action = co_action row,
           po_targetSchemaVersion = co_target_schema_version row, po_migrationSetDigest = co_migration_set_digest row,
           po_routingGeneration = co_routing_generation row\<rparr>))))"

text \<open>The environment of an operation, if it still is where the operation was claimed.\<close>

definition still_placed :: "string \<Rightarrow> provision_operation \<Rightarrow> directory \<Rightarrow> bool" where
  "still_placed runtimeId operation d = list_ex (\<lambda>e. ce_id e = po_environmentId operation \<and> ce_runtime_id e = runtimeId \<and>
     ce_routing_generation e = po_routingGeneration operation \<and> ce_movement_id e = None) (d_environments d)"

definition held :: "string \<Rightarrow> provision_operation \<Rightarrow> component_operation \<Rightarrow> bool" where
  "held instanceId operation o1 \<longleftrightarrow> co_id o1 = po_id operation \<and> co_status o1 = OpRunning \<and> co_lease_owner o1 = Some instanceId"

definition settle_operation :: "string \<Rightarrow> provision_operation \<Rightarrow> operation_status \<Rightarrow> string option \<Rightarrow> directory \<Rightarrow> directory" where
  "settle_operation instanceId operation status error = d_operations_update (update_where (held instanceId operation)
     (\<lambda>o1. o1\<lparr>co_status := status, co_lease_owner := None, co_lease_expires_at := None, co_last_error := error\<rparr>))"

definition component_of :: "provision_operation \<Rightarrow> environment_component \<Rightarrow> bool" where
  "component_of operation c \<longleftrightarrow> cc_environment_id c = po_environmentId operation \<and> cc_component_ref c = po_componentRef operation \<and>
     cc_routing_generation c = po_routingGeneration operation"

definition observe_component :: "provision_operation \<Rightarrow> directory \<Rightarrow> directory" where
  "observe_component operation = d_components_update (update_where (component_of operation)
     (\<lambda>c. c\<lparr>cc_observed_state := (if po_action operation = DoSuspend then IsSuspended else IsReady),
       cc_observed_schema_version := Some (po_targetSchemaVersion operation),
       cc_observed_migration_set_digest := Some (po_migrationSetDigest operation), cc_last_error := None\<rparr>))"

text \<open>An environment is ready, or suspended, when all of its components are.\<close>

definition all_observed :: "observed_state \<Rightarrow> string \<Rightarrow> directory \<Rightarrow> bool" where
  "all_observed state environmentId d \<longleftrightarrow>
     \<not> list_ex (\<lambda>c. cc_environment_id c = environmentId \<and> cc_observed_state c \<noteq> state) (d_components d)"

definition observe_environment :: "string \<Rightarrow> directory \<Rightarrow> directory" where
  "observe_environment environmentId d = d_environments_update (update_where (\<lambda>e. ce_id e = environmentId) (\<lambda>e. e\<lparr>ce_observed_state :=
     (if ce_desired_state e = WantSuspended \<and> all_observed IsSuspended (ce_id e) d then IsSuspended
      else if ce_desired_state e = WantReady \<and> all_observed IsReady (ce_id e) d then IsReady
      else Reconciling)\<rparr>)) d"

definition finish_operation :: "string \<Rightarrow> string \<Rightarrow> provision_operation \<Rightarrow> (directory, unit) io" where
  "finish_operation instanceId runtimeId operation = transaction (
     bind_io (select (still_placed runtimeId operation)) (\<lambda>placed.
     bind_io (refuse_if (\<not> placed) ''customer placement changed during provisioning'') (\<lambda>_.
     bind_io (select (\<lambda>d. list_ex (held instanceId operation) (d_operations d))) (\<lambda>current.
     bind_io (command (settle_operation instanceId operation OpSucceeded None)) (\<lambda>_.
     bind_io (refuse_if (\<not> current) ''provisioning attempt is stale'') (\<lambda>_.
     bind_io (command (observe_component operation)) (\<lambda>_.
     command (observe_environment (po_environmentId operation)))))))))"

definition fail_component :: "provision_operation \<Rightarrow> string \<Rightarrow> directory \<Rightarrow> directory" where
  "fail_component operation message d =
     d\<lparr>d_components := update_where (component_of operation)
           (\<lambda>c. c\<lparr>cc_observed_state := HasFailed, cc_last_error := Some message\<rparr>) (d_components d),
       d_environments := update_where (\<lambda>e. ce_id e = po_environmentId operation)
           (\<lambda>e. e\<lparr>ce_observed_state := HasFailed, ce_last_error := Some message\<rparr>) (d_environments d)\<rparr>"

definition fail_operation :: "string \<Rightarrow> string \<Rightarrow> provision_operation \<Rightarrow> string \<Rightarrow> (directory, unit) io" where
  "fail_operation instanceId runtimeId operation error = transaction (
     let message = take 1000 error in
     bind_io (select (still_placed runtimeId operation)) (\<lambda>placed.
     bind_io (select (\<lambda>d. list_ex (held instanceId operation) (d_operations d))) (\<lambda>current.
     bind_io (command (settle_operation instanceId operation OpFailed (Some message))) (\<lambda>_.
     if placed \<and> current then command (fail_component operation message) else return ()))))"

text \<open>The operator's \<open>reconcile\<close> of a runtime (move-cli.ts); restoring the provisioner's authority in a customer's database is
  a port that may throw.\<close>

definition settled_on :: "string \<Rightarrow> directory \<Rightarrow> string list" where
  "settled_on runtimeId d = map ce_id (sort_by (\<lambda>a b. string_order (ce_id a) (ce_id b))
     (filter (\<lambda>e. ce_runtime_id e = runtimeId \<and> ce_desired_state e = WantReady \<and> ce_movement_id e = None) (d_environments d)))"

definition mark_reconciling :: "string \<Rightarrow> directory \<Rightarrow> directory" where
  "mark_reconciling environmentId d =
     d\<lparr>d_components := update_where (\<lambda>c. cc_environment_id c = environmentId \<and> cc_desired_state c = WantReady)
           (\<lambda>c. c\<lparr>cc_observed_state := Pending\<rparr>) (d_components d),
       d_environments := update_where (\<lambda>e. ce_id e = environmentId) (\<lambda>e. e\<lparr>ce_observed_state := Reconciling\<rparr>) (d_environments d)\<rparr>"

definition reconcile_runtime :: "(string \<Rightarrow> unit res) \<Rightarrow> (string \<Rightarrow> nat \<Rightarrow> string) \<Rightarrow> int \<Rightarrow> string \<Rightarrow> (directory, unit) io" where
  "reconcile_runtime restore operation_ids now runtimeId = transaction (
     bind_io (select (settled_on runtimeId)) (\<lambda>customers.
     for_io (\<lambda>customer _.
       bind_io (lift (restore customer)) (\<lambda>_.
       bind_io (queueCustomerReconciliation (operation_ids customer) now customer) (\<lambda>_.
       command (mark_reconciling customer)))) customers ()))"

end
