(* ===== verification/Movement.thy ===== *)
theory Movement
  imports Directory
begin

text \<open>
  services/platform-provisioner/src/movement.ts: the store of movements between runtimes.  The constraints of the
  table that the code relies on (one open movement per environment) throw; the advisory locks are the list
  \<open>d_controllers\<close>.
\<close>

section \<open>Runtimes\<close>

text \<open>\<open>registerRuntime\<close>: the release of a runtime is bound once.\<close>

definition registerRuntime :: "string \<Rightarrow> string \<Rightarrow> (directory, unit) io" where
  "registerRuntime runtime releaseSha =
     bind_io (refuse_if (\<not> runtime_name runtime \<or> \<not> hex_of_length 40 releaseSha) ''runtime identity is invalid'') (\<lambda>_.
     bind_io (select (\<lambda>d. list_all (\<lambda>r. cr_id r = runtime \<longrightarrow> cr_release_sha r = None \<or> cr_release_sha r = Some releaseSha)
       (d_runtimes d))) (\<lambda>free.
     bind_io (command (d_runtimes_update (insert_on_conflict cr_id
         \<lparr>cr_id = runtime, cr_release_sha = Some releaseSha, cr_component_catalog = None, cr_retired_at = None\<rparr>
         (\<lambda>r. cr_release_sha r = None \<or> cr_release_sha r = Some releaseSha)
         (\<lambda>r. r\<lparr>cr_release_sha := Some releaseSha\<rparr>)))) (\<lambda>_.
     refuse_if (\<not> free) ''runtime ID is already bound to another release'')))"

definition valid_entry :: "catalog_entry \<Rightarrow> bool" where
  "valid_entry c \<longleftrightarrow> ca_componentRef c \<noteq> [] \<and> safe_integer (ca_targetSchemaVersion c) \<and> 1 \<le> ca_targetSchemaVersion c \<and>
     hex_of_length 64 (ca_migrationSetDigest c)"

definition valid_catalog :: "catalog_entry list \<Rightarrow> bool" where
  "valid_catalog catalog \<longleftrightarrow> catalog \<noteq> [] \<and> distinct (map ca_componentRef catalog) \<and> list_all valid_entry catalog"

text \<open>\<open>selectDefaultRuntime\<close>: the catalog of a runtime is kept once; \<open>ck\<close> are the collation keys of \<open>localeCompare\<close>.\<close>

definition selectDefaultRuntime :: "collation \<Rightarrow> string \<Rightarrow> string \<Rightarrow> catalog_entry list \<Rightarrow> (directory, unit) io" where
  "selectDefaultRuntime ck runtime releaseSha catalog =
     bind_io (refuse_if (\<not> valid_catalog catalog) ''runtime component catalog is invalid'') (\<lambda>_.
     let canonical = sort_by (\<lambda>a b. localeCompare ck (ca_componentRef a) (ca_componentRef b)) catalog;
         matches = (\<lambda>r. cr_id r = runtime \<and> cr_release_sha r = Some releaseSha \<and> cr_retired_at r = None \<and>
           (cr_component_catalog r = None \<or> cr_component_catalog r = Some canonical)) in
     transaction (
       bind_io (select (\<lambda>d. list_ex matches (d_runtimes d))) (\<lambda>found.
       bind_io (command (d_runtimes_update (update_where matches (\<lambda>r. r\<lparr>cr_component_catalog := Some canonical\<rparr>)))) (\<lambda>_.
       bind_io (refuse_if (\<not> found) ''runtime release or immutable catalog does not match'') (\<lambda>_.
       command (d_default_runtime_update (\<lambda>_. runtime)))))))"

section \<open>Beginning a movement\<close>

record movement_input =
  mi_id :: "string option"
  mi_environmentId :: string
  mi_sourceRuntimeId :: string
  mi_destinationRuntimeId :: string
  mi_expectedGeneration :: int
  mi_rollbackOf :: "string option"
  mi_acceptDivergence :: "bool option"

definition accepts_divergence :: "movement_input \<Rightarrow> bool" where
  "accepts_divergence input = (mi_acceptDivergence input = Some True)"

definition open_phase :: "movement_phase \<Rightarrow> bool" where
  "open_phase p \<longleftrightarrow> p \<notin> {MoveCompleted, MoveCancelled, Superseded}"

definition same_input :: "movement_input \<Rightarrow> movement \<Rightarrow> bool" where
  "same_input input prior \<longleftrightarrow>
     mv_environment_id prior = mi_environmentId input \<and> mv_source_runtime_id prior = mi_sourceRuntimeId input \<and>
     mv_destination_runtime_id prior = mi_destinationRuntimeId input \<and> mv_source_generation prior = mi_expectedGeneration input \<and>
     mv_rollback_of prior = mi_rollbackOf input \<and> mv_accept_divergence prior = accepts_divergence input"

definition ready_to_move :: "movement_input \<Rightarrow> customer_environment \<Rightarrow> bool" where
  "ready_to_move input e \<longleftrightarrow> ce_runtime_id e = mi_sourceRuntimeId input \<and> ce_routing_generation e = mi_expectedGeneration input \<and>
     ce_movement_id e = None \<and> ce_desired_state e = WantReady \<and> ce_observed_state e = IsReady"

definition usable_runtimes :: "movement_input \<Rightarrow> directory \<Rightarrow> customer_runtime list" where
  "usable_runtimes input d = filter (\<lambda>r. cr_id r \<in> set [mi_sourceRuntimeId input, mi_destinationRuntimeId input] \<and>
     cr_release_sha r \<noteq> None \<and> cr_retired_at r = None) (d_runtimes d)"

text \<open>The retained movement a rollback goes back on.\<close>

definition retained_for :: "movement_input \<Rightarrow> movement \<Rightarrow> bool" where
  "retained_for input retained \<longleftrightarrow> accepts_divergence input \<and> mv_environment_id retained = mi_environmentId input \<and>
     mv_source_runtime_id retained = mi_destinationRuntimeId input \<and>
     mv_destination_runtime_id retained = mi_sourceRuntimeId input"

definition supersede :: "string \<Rightarrow> directory \<Rightarrow> directory" where
  "supersede retained = d_movements_update (update_where (\<lambda>m. mv_id m = retained \<and> mv_phase m = Activated)
     (\<lambda>m. m\<lparr>mv_phase := Superseded\<rparr>))"

definition prepare_rollback :: "movement_input \<Rightarrow> (directory, unit) io" where
  "prepare_rollback input =
     (case mi_rollbackOf input of
        None \<Rightarrow> refuse_if (accepts_divergence input) ''divergence acceptance applies only to rollback''
      | Some r \<Rightarrow>
          bind_io (select (\<lambda>d. first_row (\<lambda>m. mv_id m = r \<and> mv_phase m \<in> {Activated, MoveCompleted}) (d_movements d))) (\<lambda>retained.
          case retained of
            None \<Rightarrow> throw (Err ''rollback requires a retained customer movement and explicit divergence acceptance'')
          | Some old \<Rightarrow>
              bind_io (refuse_if (\<not> retained_for input old)
                ''rollback requires a retained customer movement and explicit divergence acceptance'') (\<lambda>_.
              bind_io (select (\<lambda>d. mv_id old \<in> set (d_controllers d))) (\<lambda>locked.
              bind_io (refuse_if locked ''the previous movement controller is still active; retry rollback after it exits'') (\<lambda>_.
              if mv_phase old = Activated then command (supersede (mv_id old)) else return ())))))"

definition new_movement :: "string \<Rightarrow> movement_input \<Rightarrow> movement" where
  "new_movement movementId input =
     \<lparr>mv_id = movementId, mv_environment_id = mi_environmentId input, mv_source_runtime_id = mi_sourceRuntimeId input,
      mv_destination_runtime_id = mi_destinationRuntimeId input, mv_source_generation = mi_expectedGeneration input,
      mv_destination_generation = mi_expectedGeneration input + 1, mv_phase = Paused,
      mv_mode = (if mi_rollbackOf input = None then Move else Rollback), mv_rollback_of = mi_rollbackOf input,
      mv_accept_divergence = accepts_divergence input, mv_evidence = [], mv_last_error = None\<rparr>"

text \<open>The insertion, which the index \<open>customer_movement_active_idx\<close> refuses while the environment has an open movement.\<close>

definition insert_movement :: "movement \<Rightarrow> (directory, unit) io" where
  "insert_movement m =
     bind_io (select (\<lambda>d. list_ex (\<lambda>o1. mv_environment_id o1 = mv_environment_id m \<and> open_phase (mv_phase o1)) (d_movements d))) (\<lambda>taken.
     bind_io (refuse_if taken ''duplicate key value violates unique constraint'') (\<lambda>_.
     command (d_movements_update (\<lambda>rows. rows @ [m]))))"

definition hold_environment :: "string \<Rightarrow> string \<Rightarrow> directory \<Rightarrow> directory" where
  "hold_environment environmentId movementId = d_environments_update (update_where (\<lambda>e. ce_id e = environmentId)
     (\<lambda>e. e\<lparr>ce_movement_id := Some movementId\<rparr>))"

text \<open>\<open>begin\<close>.  \<open>fresh\<close> is the UUID it draws when the caller gives none.\<close>

definition beginMovement :: "string \<Rightarrow> movement_input \<Rightarrow> (directory, string) io" where
  "beginMovement fresh input =
     (let movementId = (case mi_id input of Some i \<Rightarrow> i | None \<Rightarrow> fresh) in
      bind_io (refuse_if (\<not> safe_integer (mi_expectedGeneration input) \<or> mi_expectedGeneration input < 1 \<or>
        MAX_SAFE_INTEGER \<le> mi_expectedGeneration input) ''routing generation is invalid'') (\<lambda>_.
      transaction (
        bind_io (select (\<lambda>d. first_row (\<lambda>e. ce_id e = mi_environmentId input) (d_environments d))) (\<lambda>environment.
        bind_io (select (\<lambda>d. first_row (\<lambda>m. mv_id m = movementId) (d_movements d))) (\<lambda>prior.
        case prior of
          Some p \<Rightarrow>
            bind_io (refuse_if (\<not> same_input input p) ''movement ID is already bound to different input'') (\<lambda>_. return movementId)
        | None \<Rightarrow>
            bind_io (refuse_if (case environment of None \<Rightarrow> True | Some e \<Rightarrow> \<not> ready_to_move input e)
              ''customer placement is not ready or has changed'') (\<lambda>_.
            bind_io (select (\<lambda>d. length (usable_runtimes input d))) (\<lambda>runtimes.
            bind_io (refuse_if (runtimes \<noteq> 2) ''two distinct release-bound runtimes are required'') (\<lambda>_.
            bind_io (select (\<lambda>d. list_ex (\<lambda>o1. co_environment_id o1 = mi_environmentId input \<and> co_status o1 = OpRunning)
              (d_operations d))) (\<lambda>provisioning.
            bind_io (refuse_if provisioning ''customer provisioning is still running'') (\<lambda>_.
            bind_io (prepare_rollback input) (\<lambda>_.
            bind_io (insert_movement (new_movement movementId input)) (\<lambda>_.
            bind_io (command (hold_environment (mi_environmentId input) movementId)) (\<lambda>_.
            return movementId)))))))))))))"

section \<open>Reading and advancing\<close>

record located_movement = movement +
  mv_database_name :: string

definition locate :: "movement \<Rightarrow> customer_environment \<Rightarrow> located_movement" where
  "locate m e = movement.extend m \<lparr>mv_database_name = ce_database_name e\<rparr>"

definition read_movement :: "string \<Rightarrow> (directory, located_movement) io" where
  "read_movement movementId =
     bind_io (select (\<lambda>d. [locate m e. m \<leftarrow> filter (\<lambda>m. mv_id m = movementId) (d_movements d),
       e \<leftarrow> filter (\<lambda>e. ce_id e = mv_environment_id m) (d_environments d)])) (\<lambda>rows.
     case rows of [] \<Rightarrow> throw (Err ''customer movement does not exist'') | m # _ \<Rightarrow> return m)"

fun successor :: "movement_phase \<Rightarrow> movement_phase option" where
  "successor Paused = Some Fenced"
| "successor Fenced = Some Copied"
| "successor Copied = Some Verified"
| "successor Activated = Some MoveCompleted"
| "successor _ = None"

definition advance :: "string \<Rightarrow> movement_phase \<Rightarrow> movement_phase \<Rightarrow> json_record \<Rightarrow> (directory, unit) io" where
  "advance movementId origin target evidence =
     bind_io (refuse_if (successor origin \<noteq> Some target) ''invalid movement phase transition'') (\<lambda>_.
     bind_io (select (\<lambda>d. list_ex (\<lambda>m. mv_id m = movementId \<and> mv_phase m = origin) (d_movements d))) (\<lambda>found.
     bind_io (command (d_movements_update (update_where (\<lambda>m. mv_id m = movementId \<and> mv_phase m = origin)
       (\<lambda>m. m\<lparr>mv_phase := target, mv_evidence := spread (mv_evidence m) evidence, mv_last_error := None\<rparr>)))) (\<lambda>_.
     refuse_if (\<not> found) ''movement phase changed'')))"

definition returnable :: "string \<Rightarrow> movement \<Rightarrow> bool" where
  "returnable movementId m \<longleftrightarrow> mv_id m = movementId \<and>
     mv_phase m \<in> {Paused, Fenced, Copied, Verified, Returning, MoveCancelled} \<and> mv_destination_generation m < MAX_SAFE_INTEGER"

definition requestReturn :: "string \<Rightarrow> (directory, unit) io" where
  "requestReturn movementId =
     bind_io (select (\<lambda>d. list_ex (returnable movementId) (d_movements d))) (\<lambda>found.
     bind_io (command (d_movements_update (update_where (returnable movementId)
       (\<lambda>m. m\<lparr>mv_phase := (if mv_phase m = MoveCancelled then mv_phase m else Returning)\<rparr>)))) (\<lambda>_.
     refuse_if (\<not> found) ''return is only allowed before activation; use explicit retained rollback afterwards''))"

section \<open>Activation\<close>

text \<open>The members of the evidence, which came from JSON.\<close>

fun member :: "json \<Rightarrow> string \<Rightarrow> json option res" where
  "member JNull name = Inl (Err ''null is not an object'')"
| "member (JObj kvs) name = Inr (map_of kvs name)"
| "member _ name = Inr None"

fun is_primitive :: "json option \<Rightarrow> bool" where
  "is_primitive (Some (JArr _)) = False"
| "is_primitive (Some (JObj _)) = False"
| "is_primitive _ = True"

text \<open>\<open>new Set(refs).size === refs.length\<close>: objects differ from one another, other values by their value.\<close>

definition all_different :: "json option list \<Rightarrow> bool" where
  "all_different refs \<longleftrightarrow> distinct (filter is_primitive refs)"

record verified_component =
  vc_component_ref :: string
  vc_schema_version :: int
  vc_migration_set_digest :: string

definition verified_component_of :: "json \<Rightarrow> verified_component res" where
  "verified_component_of c =
     rbind (member c ''component_ref'') (\<lambda>name.
     rbind (member c ''schema_version'') (\<lambda>version.
     rbind (member c ''migration_set_digest'') (\<lambda>digest.
     case (name, version, digest) of
       (Some (JStr n), Some (JNum v), Some (JStr g)) \<Rightarrow>
         if safe_integer v \<and> 1 \<le> v \<and> hex_of_length 64 g
         then Inr \<lparr>vc_component_ref = n, vc_schema_version = v, vc_migration_set_digest = g\<rparr>
         else Inl (Err ''verified component evidence is invalid'')
     | _ \<Rightarrow> Inl (Err ''verified component evidence is invalid''))))"

definition place_component :: "string \<Rightarrow> int \<Rightarrow> verified_component \<Rightarrow> directory \<Rightarrow> directory" where
  "place_component environmentId generation c = d_components_update (insert_or_update component_key
     \<lparr>cc_environment_id = environmentId, cc_component_ref = vc_component_ref c, cc_desired_state = WantReady,
       cc_observed_state = IsReady, cc_target_schema_version = vc_schema_version c,
       cc_observed_schema_version = Some (vc_schema_version c), cc_migration_set_digest = vc_migration_set_digest c,
       cc_observed_migration_set_digest = Some (vc_migration_set_digest c), cc_routing_generation = generation,
       cc_last_operation_id = None, cc_last_error = None\<rparr>
     (\<lambda>r. r\<lparr>cc_target_schema_version := vc_schema_version c, cc_observed_schema_version := Some (vc_schema_version c),
       cc_migration_set_digest := vc_migration_set_digest c, cc_observed_migration_set_digest := Some (vc_migration_set_digest c),
       cc_routing_generation := generation, cc_observed_state := IsReady\<rparr>))"

definition place_verified :: "string \<Rightarrow> int \<Rightarrow> json \<Rightarrow> unit \<Rightarrow> (directory, unit) io" where
  "place_verified environmentId generation c u =
     bind_io (lift (verified_component_of c)) (\<lambda>v. command (place_component environmentId generation v))"

definition place_components :: "string \<Rightarrow> int \<Rightarrow> json_record \<Rightarrow> (directory, unit) io" where
  "place_components environmentId generation evidence =
     (case map_of evidence ''verifiedComponents'' of
        Some (JArr (c # cs)) \<Rightarrow>
          bind_io (lift (traverse (\<lambda>c. member c ''component_ref'') (c # cs))) (\<lambda>refs.
          bind_io (select (\<lambda>d. map cc_component_ref (filter (\<lambda>r. cc_environment_id r = environmentId) (d_components d)))) (\<lambda>required.
          bind_io (refuse_if (\<not> all_different refs \<or> \<not> list_all (\<lambda>ref. Some (JStr ref) \<in> set refs) required)
            ''verified components do not cover the customer installation'') (\<lambda>_.
          for_io (place_verified environmentId generation) (c # cs) ())))
      | _ \<Rightarrow> throw (Err ''verified component evidence is missing''))"

text \<open>What a movement publishes: its destination, or the source in yet another generation when it returns.\<close>

definition publication :: "json_record option \<Rightarrow> located_movement \<Rightarrow> located_movement" where
  "publication returnEvidence m =
     (case returnEvidence of
        None \<Rightarrow> m
      | Some evidence \<Rightarrow> m\<lparr>mv_destination_runtime_id := mv_source_runtime_id m,
          mv_destination_generation := mv_destination_generation m + 1, mv_evidence := spread (mv_evidence m) evidence\<rparr>)"

definition publishable :: "string \<Rightarrow> bool \<Rightarrow> located_movement \<Rightarrow> directory \<Rightarrow> customer_environment \<Rightarrow> bool" where
  "publishable movementId returning m d e \<longleftrightarrow>
     ce_id e = mv_environment_id m \<and> ce_movement_id e = Some movementId \<and> ce_runtime_id e = mv_source_runtime_id m \<and>
     ce_routing_generation e = mv_source_generation m \<and> ce_desired_state e = WantReady \<and>
     list_ex (\<lambda>r. mv_id r = movementId \<and> mv_phase r = (if returning then Returning else Verified)) (d_movements d)"

definition publish_placement :: "string \<Rightarrow> bool \<Rightarrow> located_movement \<Rightarrow> directory \<Rightarrow> directory" where
  "publish_placement movementId returning m d = d_environments_update (update_where (publishable movementId returning m d)
     (\<lambda>e. e\<lparr>ce_runtime_id := mv_destination_runtime_id m, ce_routing_generation := mv_destination_generation m,
       ce_movement_id := None, ce_observed_state := IsReady\<rparr>)) d"

definition close_movement :: "string \<Rightarrow> json_record option \<Rightarrow> directory \<Rightarrow> directory" where
  "close_movement movementId returnEvidence = d_movements_update (update_where (\<lambda>m. mv_id m = movementId)
     (\<lambda>m. m\<lparr>mv_phase := (if returnEvidence \<noteq> None then MoveCancelled else Activated),
       mv_evidence := spread (mv_evidence m) (case returnEvidence of None \<Rightarrow> [] | Some evidence \<Rightarrow> evidence)\<rparr>))"

definition activate :: "string \<Rightarrow> json_record option \<Rightarrow> (directory, unit) io" where
  "activate movementId returnEvidence = transaction (
     bind_io (read_movement movementId) (\<lambda>m0.
     bind_io (refuse_if (returnEvidence \<noteq> None \<and> mv_phase m0 \<noteq> Returning) ''movement is not returning'') (\<lambda>_.
     let m = publication returnEvidence m0; returning = (returnEvidence \<noteq> None) in
     bind_io (select (\<lambda>d. list_ex (publishable movementId returning m d) (d_environments d))) (\<lambda>found.
     bind_io (command (publish_placement movementId returning m)) (\<lambda>_.
     bind_io (refuse_if (\<not> found) ''customer placement or entitlement changed; activation refused'') (\<lambda>_.
     bind_io (place_components (mv_environment_id m) (mv_destination_generation m) (mv_evidence m)) (\<lambda>_.
     command (close_movement movementId returnEvidence))))))))"

end
