(* ===== verification/Directory_Run.thy ===== *)
theory Directory_Run
  imports Placement Movement Systems
begin

text \<open>
  The directory as a system: every call of the customer store, the provisioner and the movement store, in any order, and
  what every reachable directory satisfies.
\<close>

section \<open>The calls\<close>

text \<open>The parameters of the platform: the default catalog, zod's UUID check, the collation keys.\<close>

record platform =
  pf_defaults :: "catalog_entry list"
  pf_uuid :: "string \<Rightarrow> bool"
  pf_collation :: collation

datatype directory_call =
    Entitle string "nat \<Rightarrow> string" int entitlement_event
  | Beat string string string int
  | Claim string string int int
  | Finish string string provision_operation
  | Fail string string provision_operation string
  | ReconcileRuntime "string \<Rightarrow> unit res" "string \<Rightarrow> nat \<Rightarrow> string" int string
  | RegisterRuntime string string
  | SelectDefault string string "catalog_entry list"
  | Begin string movement_input
  | Advance string movement_phase movement_phase json_record
  | RequestReturn string
  | Activate string "json_record option"
  | Lock string
  | Unlock string

fun perform_call :: "platform \<Rightarrow> directory \<Rightarrow> directory_call \<Rightarrow> directory" where
  "perform_call pf d (Entitle fresh ids now event) = snd (acceptEntitlement (pf_defaults pf) (pf_uuid pf) fresh ids now event d)"
| "perform_call pf d (Beat instanceId runtime digest now) = record_heartbeat instanceId runtime digest now d"
| "perform_call pf d (Claim instanceId runtime lease now) = snd (claim instanceId runtime lease now d)"
| "perform_call pf d (Finish instanceId runtime operation) = snd (finish_operation instanceId runtime operation d)"
| "perform_call pf d (Fail instanceId runtime operation error) = snd (fail_operation instanceId runtime operation error d)"
| "perform_call pf d (ReconcileRuntime restore ids now runtime) = snd (reconcile_runtime restore ids now runtime d)"
| "perform_call pf d (RegisterRuntime runtime sha) = snd (registerRuntime runtime sha d)"
| "perform_call pf d (SelectDefault runtime sha catalog) = snd (selectDefaultRuntime (pf_collation pf) runtime sha catalog d)"
| "perform_call pf d (Begin fresh input) = snd (beginMovement fresh input d)"
| "perform_call pf d (Advance movementId origin target evidence) = snd (advance movementId origin target evidence d)"
| "perform_call pf d (RequestReturn movementId) = snd (requestReturn movementId d)"
| "perform_call pf d (Activate movementId evidence) = snd (activate movementId evidence d)"
| "perform_call pf d (Lock movementId) = d_controllers_update (\<lambda>locks. if movementId \<in> set locks then locks else locks @ [movementId]) d"
| "perform_call pf d (Unlock movementId) = d_controllers_update (filter (\<lambda>l. l \<noteq> movementId)) d"

section \<open>Movements hold their environments\<close>

definition held_phase :: "movement_phase \<Rightarrow> bool" where
  "held_phase p \<longleftrightarrow> p \<in> {Paused, Fenced, Copied, Verified, Returning}"

definition holds :: "movement \<Rightarrow> customer_environment \<Rightarrow> bool" where
  "holds m e \<longleftrightarrow> mv_environment_id m = ce_id e \<and> held_phase (mv_phase m) \<and> mv_source_runtime_id m = ce_runtime_id e \<and>
     mv_source_generation m = ce_routing_generation e"

definition moves_ok :: "customer_environment list \<Rightarrow> movement list \<Rightarrow> component_operation list \<Rightarrow> bool" where
  "moves_ok es ms ops \<longleftrightarrow>
     unique ce_id es \<and> unique mv_id ms \<and> unique co_id ops \<and>
     (\<forall>e\<in>set es. \<forall>i. ce_movement_id e = Some i \<longrightarrow> (\<exists>m\<in>set ms. mv_id m = i \<and> holds m e)) \<and>
     (\<forall>m\<in>set ms. held_phase (mv_phase m) \<longrightarrow> (\<exists>e\<in>set es. ce_id e = mv_environment_id m \<and> ce_movement_id e = Some (mv_id m))) \<and>
     (\<forall>m\<in>set ms. \<forall>n\<in>set ms. mv_environment_id m = mv_environment_id n \<longrightarrow> open_phase (mv_phase m) \<longrightarrow> open_phase (mv_phase n) \<longrightarrow> m = n) \<and>
     (\<forall>e\<in>set es. \<forall>o1\<in>set ops. ce_movement_id e \<noteq> None \<longrightarrow> co_environment_id o1 = ce_id e \<longrightarrow> co_status o1 \<noteq> OpRunning)"

abbreviation directory_ok :: "directory \<Rightarrow> bool" where
  "directory_ok d \<equiv> moves_ok (d_environments d) (d_movements d) (d_operations d)"

lemma moves_unique: "moves_ok es ms ops \<Longrightarrow> unique ce_id es" "moves_ok es ms ops \<Longrightarrow> unique mv_id ms" "moves_ok es ms ops \<Longrightarrow> unique co_id ops"
  by (simp_all add: moves_ok_def)

lemma moving_held: "moves_ok es ms ops \<Longrightarrow> e \<in> set es \<Longrightarrow> ce_movement_id e = Some i \<Longrightarrow> \<exists>m\<in>set ms. mv_id m = i \<and> holds m e"
  by (simp add: moves_ok_def)

lemma held_moving: "moves_ok es ms ops \<Longrightarrow> m \<in> set ms \<Longrightarrow> held_phase (mv_phase m) \<Longrightarrow>
    \<exists>e\<in>set es. ce_id e = mv_environment_id m \<and> ce_movement_id e = Some (mv_id m)"
  by (simp add: moves_ok_def)

lemma one_open: "moves_ok es ms ops \<Longrightarrow> m \<in> set ms \<Longrightarrow> n \<in> set ms \<Longrightarrow> mv_environment_id m = mv_environment_id n \<Longrightarrow>
    open_phase (mv_phase m) \<Longrightarrow> open_phase (mv_phase n) \<Longrightarrow> m = n"
  by (simp add: moves_ok_def)

lemma moving_quiet: "moves_ok es ms ops \<Longrightarrow> e \<in> set es \<Longrightarrow> o1 \<in> set ops \<Longrightarrow> ce_movement_id e \<noteq> None \<Longrightarrow>
    co_environment_id o1 = ce_id e \<Longrightarrow> co_status o1 \<noteq> OpRunning"
  by (simp add: moves_ok_def)

text \<open>A change of environments that leaves every movement where it is.\<close>

definition stays :: "customer_environment \<Rightarrow> customer_environment \<Rightarrow> bool" where
  "stays e e' \<longleftrightarrow> ce_id e' = ce_id e \<and> ce_movement_id e' = ce_movement_id e \<and>
     (ce_movement_id e \<noteq> None \<longrightarrow> ce_runtime_id e' = ce_runtime_id e \<and> ce_routing_generation e' = ce_routing_generation e)"

lemma stays_holds: "stays e e' \<Longrightarrow> ce_movement_id e = Some i \<Longrightarrow> holds m e' = holds m e"
  by (auto simp: stays_def holds_def)

lemma moves_okI:
  assumes "unique ce_id es" "unique mv_id ms" "unique co_id ops"
    and "\<And>e i. e \<in> set es \<Longrightarrow> ce_movement_id e = Some i \<Longrightarrow> \<exists>m\<in>set ms. mv_id m = i \<and> holds m e"
    and "\<And>m. m \<in> set ms \<Longrightarrow> held_phase (mv_phase m) \<Longrightarrow> \<exists>e\<in>set es. ce_id e = mv_environment_id m \<and> ce_movement_id e = Some (mv_id m)"
    and "\<And>m n. m \<in> set ms \<Longrightarrow> n \<in> set ms \<Longrightarrow> mv_environment_id m = mv_environment_id n \<Longrightarrow>
      open_phase (mv_phase m) \<Longrightarrow> open_phase (mv_phase n) \<Longrightarrow> m = n"
    and "\<And>e o1. e \<in> set es \<Longrightarrow> o1 \<in> set ops \<Longrightarrow> ce_movement_id e \<noteq> None \<Longrightarrow> co_environment_id o1 = ce_id e \<Longrightarrow> co_status o1 \<noteq> OpRunning"
  shows "moves_ok es ms ops"
  using assms unfolding moves_ok_def by (intro conjI ballI allI impI) simp_all

lemma environments_stay:
  assumes ok: "moves_ok es ms ops" and stay: "\<And>e. e \<in> set es \<Longrightarrow> stays e (f e)"
  shows "moves_ok (update_where P f es) ms ops"
proof (rule moves_okI)
  let ?g = "\<lambda>e. if P e then f e else e"
  have g: "stays e (?g e)" if "e \<in> set es" for e using stay [OF that] by (simp add: stays_def)
  show "unique ce_id (update_where P f es)"
    using stay by (intro unique_update_where [OF moves_unique(1) [OF ok]]) (simp add: stays_def)
  show "unique mv_id ms" "unique co_id ops" by (rule moves_unique [OF ok])+
  show "m = n" if "m \<in> set ms" "n \<in> set ms" "mv_environment_id m = mv_environment_id n"
      "open_phase (mv_phase m)" "open_phase (mv_phase n)" for m n
    using that by (rule one_open [OF ok])
  show "\<exists>m\<in>set ms. mv_id m = i \<and> holds m e'" if e': "e' \<in> set (update_where P f es)" "ce_movement_id e' = Some i" for e' i
  proof -
    obtain e where e: "e \<in> set es" "e' = ?g e" using e'(1) by (auto simp: set_update_where)
    have i: "ce_movement_id e = Some i" using e'(2) g [OF e(1)] e(2) by (simp add: stays_def)
    from moving_held [OF ok e(1) i] stays_holds [OF g [OF e(1)] i] show ?thesis unfolding e(2) by blast
  qed
  show "\<exists>e'\<in>set (update_where P f es). ce_id e' = mv_environment_id m \<and> ce_movement_id e' = Some (mv_id m)"
    if held: "m \<in> set ms" "held_phase (mv_phase m)" for m
  proof -
    obtain e where e: "e \<in> set es" "ce_id e = mv_environment_id m" "ce_movement_id e = Some (mv_id m)"
      using held_moving [OF ok held] by blast
    then have "?g e \<in> set (update_where P f es)" by (simp add: set_update_where)
    moreover have "ce_id (?g e) = mv_environment_id m \<and> ce_movement_id (?g e) = Some (mv_id m)"
      using g [OF e(1)] e(2,3) by (simp add: stays_def)
    ultimately show ?thesis by blast
  qed
  show "co_status o1 \<noteq> OpRunning" if e': "e' \<in> set (update_where P f es)" "o1 \<in> set ops" "ce_movement_id e' \<noteq> None"
      "co_environment_id o1 = ce_id e'" for e' o1
  proof -
    obtain e where e: "e \<in> set es" "e' = ?g e" using e'(1) by (auto simp: set_update_where)
    show ?thesis by (rule moving_quiet [OF ok e(1) e'(2)]) (use e'(3,4) g [OF e(1)] e(2) in \<open>simp_all add: stays_def\<close>)
  qed
qed

lemma environment_added:
  assumes "moves_ok es ms ops" "ce_movement_id e = None" "\<And>e'. e' \<in> set es \<Longrightarrow> ce_id e' \<noteq> ce_id e"
  shows "moves_ok (es @ [e]) ms ops"
  using assms unfolding moves_ok_def unique_append by auto

text \<open>A change of operations that starts work in settled environments only.\<close>

lemma operations_changed:
  assumes ok: "moves_ok es ms ops" and unique: "unique co_id ops'"
    and started: "\<And>o1. o1 \<in> set ops' \<Longrightarrow> co_status o1 = OpRunning \<Longrightarrow>
      (\<exists>o2\<in>set ops. co_status o2 = OpRunning \<and> co_environment_id o2 = co_environment_id o1) \<or>
      (\<forall>e\<in>set es. ce_id e = co_environment_id o1 \<longrightarrow> ce_movement_id e = None)"
  shows "moves_ok es ms ops'"
proof (rule moves_okI)
  show "co_status o1 \<noteq> OpRunning" if "e \<in> set es" "o1 \<in> set ops'" "ce_movement_id e \<noteq> None" "co_environment_id o1 = ce_id e" for e o1
    using started [OF that(2)] that moving_quiet [OF ok that(1) _ that(3)] by metis
qed (rule moves_unique [OF ok] unique moving_held [OF ok] held_moving [OF ok] one_open [OF ok]; assumption)+

lemma operations_settled:
  assumes ok: "moves_ok es ms ops" and "\<And>o1. co_id (f o1) = co_id o1" "\<And>o1. co_status (f o1) \<noteq> OpRunning"
  shows "moves_ok es ms (update_where P f ops)"
proof (rule operations_changed [OF ok])
  show "unique co_id (update_where P f ops)"
    by (rule unique_update_where [OF moves_unique(3) [OF ok]]) (rule assms(2))
  show "(\<exists>o2\<in>set ops. co_status o2 = OpRunning \<and> co_environment_id o2 = co_environment_id o1) \<or>
      (\<forall>e\<in>set es. ce_id e = co_environment_id o1 \<longrightarrow> ce_movement_id e = None)"
    if "o1 \<in> set (update_where P f ops)" "co_status o1 = OpRunning" for o1
    using that assms(3) by (auto simp: set_update_where split: if_splits)
qed

lemma operation_added:
  assumes ok: "moves_ok es ms ops" and "co_status o1 \<noteq> OpRunning" "\<And>o2. o2 \<in> set ops \<Longrightarrow> co_id o2 \<noteq> co_id o1"
  shows "moves_ok es ms (ops @ [o1])"
proof (rule operations_changed [OF ok])
  show "unique co_id (ops @ [o1])" using moves_unique(3) [OF ok] assms(3) by (simp add: unique_append)
qed (use assms(2) in auto)

section \<open>Calls that keep a property of the tables\<close>

text \<open>A body each of whose commands keeps a property, also before it throws.\<close>

definition keeps :: "('d \<Rightarrow> bool) \<Rightarrow> ('d, 'a) io \<Rightarrow> bool" where
  "keeps I m \<longleftrightarrow> (\<forall>d. I d \<longrightarrow> I (snd (m d)))"

lemma keepsD: "keeps I m \<Longrightarrow> I d \<Longrightarrow> I (snd (m d))"
  by (simp add: keeps_def)

named_theorems keeping \<open>bodies that keep a property\<close>

lemma keeps_bind [keeping]: "keeps I m \<Longrightarrow> (\<And>x. keeps I (f x)) \<Longrightarrow> keeps I (bind_io m f)"
  unfolding keeps_def bind_io_def by (fastforce split: prod.split sum.split dest: spec)

lemma keeps_query [keeping]: "keeps I (select f)" "keeps I (return x)" "keeps I (throw e)" "keeps I (lift r)" "keeps I (refuse_if b message)"
  by (simp_all add: keeps_def lift_def refuse_if_def)

lemma keeps_transaction [keeping]: "keeps I body \<Longrightarrow> keeps I (transaction body)"
  unfolding keeps_def transaction_def by (fastforce split: prod.split sum.split dest: spec)

lemma keeps_for [keeping]: "(\<And>x s. keeps I (body x s)) \<Longrightarrow> keeps I (for_io body xs s)"
  by (induction xs arbitrary: s) (auto intro!: keeping)

lemma keeps_command: "(\<And>d. I d \<Longrightarrow> I (f d)) \<Longrightarrow> keeps I (command f)"
  by (simp add: keeps_def)

lemma keeps_cases [keeping]:
  "keeps I m \<Longrightarrow> keeps I n \<Longrightarrow> keeps I (if b then m else n)"
  "keeps I m \<Longrightarrow> (\<And>x. keeps I (f x)) \<Longrightarrow> keeps I (case a of None \<Rightarrow> m | Some x \<Rightarrow> f x)"
  by (auto split: option.split)

section \<open>The customer store and the provisioner\<close>

lemma keeps_entitle [keeping]:
  "keeps directory_ok (command (renew_environment environmentId event))"
  "keeps directory_ok (command (owner_membership environmentId subject))"
  "keeps directory_ok (command (entitle_component environmentId desired g c))"
  "keeps directory_ok (command (queue_entitled operation_id environmentId desired g now c))"
  "keeps directory_ok (command (d_events_update (insert_or_nothing ee_eventId event)))"
proof -
  show "keeps directory_ok (command (renew_environment environmentId event))"
    by (rule keeps_command) (auto simp: renew_environment_def stays_def intro: environments_stay)
  show "keeps directory_ok (command (queue_entitled operation_id environmentId desired g now c))"
    by (rule keeps_command)
      (auto simp: queue_entitled_def Let_def new_operation_def list_ex_iff same_operation_def intro!: operation_added)
qed (rule keeps_command, simp add: owner_membership_def entitle_component_def)+

lemma keeps_added [keeping]:
  "keeps directory_ok (bind_io (select (environment_taken environmentId database (ee_purchasedName event))) (\<lambda>taken. bind_io (refuse_if taken message) (\<lambda>_.
     command (add_environment environmentId database runtime now event))))"
  unfolding keeps_def
  by (auto simp: environment_taken_def add_environment_def list_ex_iff intro!: environment_added)

lemma keeps_acceptEntitlement: "keeps directory_ok (acceptEntitlement defaults uuid fresh ids now event)"
  unfolding acceptEntitlement_def entitle_environment_def place_entitled_def replay_check_def entitle_components_def by (intro keeping)

lemma keeps_requeue [keeping]: "keeps directory_ok (requeue now operation_id ec)"
  unfolding keeps_def requeue_def
  by (auto simp: Let_def insert_on_conflict_def list_ex_iff new_operation_def intro!: operation_added operations_settled)

lemma keeps_mark [keeping]: "keeps directory_ok (command (mark_reconciling environmentId))"
  by (rule keeps_command) (auto simp: mark_reconciling_def stays_def intro: environments_stay)

lemma keeps_reconcile_runtime: "keeps directory_ok (reconcile_runtime restore ids now runtime)"
  unfolding reconcile_runtime_def queueCustomerReconciliation_def by (intro keeping)

lemma keeps_settle [keeping]:
  "keeps directory_ok (command (observe_component operation))"
  "keeps directory_ok (command (observe_environment environmentId))"
  "keeps directory_ok (command (fail_component operation message))"
  "status \<noteq> OpRunning \<Longrightarrow> keeps directory_ok (command (settle_operation instanceId operation status error))"
proof -
  show "keeps directory_ok (command (observe_environment environmentId))" "keeps directory_ok (command (fail_component operation message))"
    by (rule keeps_command, auto simp: observe_environment_def fail_component_def stays_def intro: environments_stay)+
  show "status \<noteq> OpRunning \<Longrightarrow> keeps directory_ok (command (settle_operation instanceId operation status error))"
    by (rule keeps_command) (auto simp: settle_operation_def intro!: operations_settled)
qed (rule keeps_command, simp add: observe_component_def)

lemma keeps_finish: "keeps directory_ok (finish_operation instanceId runtime operation)"
  unfolding finish_operation_def by (intro keeping operation_status.distinct)

lemma keeps_fail: "keeps directory_ok (fail_operation instanceId runtime operation error)"
  unfolding fail_operation_def Let_def by (intro keeping operation_status.distinct)

lemma claimableD:
  "(o1, e) \<in> set (claimable runtime now d) \<Longrightarrow> o1 \<in> set (d_operations d) \<and> e \<in> set (d_environments d) \<and>
    ce_id e = co_environment_id o1 \<and> ce_runtime_id e = runtime \<and> ce_movement_id e = None \<and>
    co_routing_generation o1 = ce_routing_generation e"
  by (auto simp: claimable_def)

lemma lease_ok:
  assumes ok: "directory_ok d" and claimed: "(row, e) \<in> set (claimable runtime now d)"
  shows "directory_ok (take_lease instanceId lease now row d)"
proof -
  let ?lease = "\<lambda>o1. o1\<lparr>co_status := OpRunning, co_attempt := co_attempt o1 + 1, co_lease_owner := Some instanceId,
             co_lease_expires_at := Some (now + lease * 1000)\<rparr>"
  let ?ops = "update_where (\<lambda>o1. co_id o1 = co_id row) ?lease (d_operations d)"
  have "moves_ok (d_environments d) (d_movements d) ?ops"
  proof (rule operations_changed [OF ok])
    show "unique co_id ?ops" by (rule unique_update_where [OF moves_unique(3) [OF ok]]) simp
    show "(\<exists>o2\<in>set (d_operations d). co_status o2 = OpRunning \<and> co_environment_id o2 = co_environment_id o1) \<or>
        (\<forall>e\<in>set (d_environments d). ce_id e = co_environment_id o1 \<longrightarrow> ce_movement_id e = None)"
      if running: "o1 \<in> set ?ops" "co_status o1 = OpRunning" for o1
    proof -
      obtain o2 where o2: "o2 \<in> set (d_operations d)" "o1 = (if co_id o2 = co_id row then ?lease o2 else o2)"
        using running(1) by (auto simp: set_update_where)
      show ?thesis
      proof (cases "co_id o2 = co_id row")
        case True
        then have "o2 = row" using claimableD [OF claimed] o2(1) unique_row [OF moves_unique(3) [OF ok]] by blast
        then have "co_environment_id o1 = ce_id e" using claimableD [OF claimed] o2(2) by simp
        then show ?thesis using claimableD [OF claimed] unique_row [OF moves_unique(1) [OF ok]] by metis
      qed (use o2 running(2) in auto)
    qed
  qed
  then show ?thesis
    unfolding take_lease_def by (auto simp: stays_def intro!: environments_stay)
qed

lemma keeps_claim: "keeps directory_ok (claim instanceId runtime lease now)"
proof -
  have "directory_ok (snd (claim instanceId runtime lease now d))" if "directory_ok d" for d
  proof (cases "sort_by operation_order (claimable runtime now d)")
    case (Cons p rows)
    then have "p \<in> set (claimable runtime now d)" by (metis list.set_intros(1) set_sort_by)
    then show ?thesis
      using Cons that lease_ok [OF that, of "fst p" "snd p"]
      by (auto simp: claim_def transaction_def split: prod.splits)
  qed (use that in \<open>simp add: claim_def transaction_def\<close>)
  then show ?thesis by (simp add: keeps_def)
qed

section \<open>The movement store\<close>

lemma movements_updated:
  assumes ok: "moves_ok es ms ops"
    and same: "\<And>m. mv_id (f m) = mv_id m \<and> mv_environment_id (f m) = mv_environment_id m \<and>
      mv_source_runtime_id (f m) = mv_source_runtime_id m \<and> mv_source_generation (f m) = mv_source_generation m"
    and phase: "\<And>m. m \<in> set ms \<Longrightarrow> P m \<Longrightarrow> held_phase (mv_phase (f m)) = held_phase (mv_phase m) \<and>
      (open_phase (mv_phase (f m)) \<longrightarrow> open_phase (mv_phase m))"
  shows "moves_ok es (update_where P f ms) ops"
proof (rule moves_okI)
  let ?g = "\<lambda>m. if P m then f m else m"
  have g: "mv_id (?g m) = mv_id m" "mv_environment_id (?g m) = mv_environment_id m" "holds (?g m) e = holds m e"
      "held_phase (mv_phase (?g m)) = held_phase (mv_phase m)" "open_phase (mv_phase (?g m)) \<Longrightarrow> open_phase (mv_phase m)"
    if "m \<in> set ms" for m e
    using same [of m] phase [OF that] by (auto simp: holds_def split: if_splits)
  show "unique mv_id (update_where P f ms)"
    by (rule unique_update_where [OF moves_unique(2) [OF ok]]) (simp add: same)
  show "unique ce_id es" "unique co_id ops" by (rule moves_unique [OF ok])+
  show "\<exists>m\<in>set (update_where P f ms). mv_id m = i \<and> holds m e" if e: "e \<in> set es" "ce_movement_id e = Some i" for e i
  proof -
    obtain m where "m \<in> set ms" "mv_id m = i" "holds m e" using moving_held [OF ok e] by blast
    moreover have "?g m \<in> set (update_where P f ms)" using \<open>m \<in> set ms\<close> by (simp add: set_update_where)
    moreover have "mv_id (?g m) = i \<and> holds (?g m) e"
      using g(1,3) [OF \<open>m \<in> set ms\<close>] \<open>mv_id m = i\<close> \<open>holds m e\<close> by simp
    ultimately show ?thesis by blast
  qed
  show "\<exists>e\<in>set es. ce_id e = mv_environment_id m \<and> ce_movement_id e = Some (mv_id m)"
    if m: "m \<in> set (update_where P f ms)" "held_phase (mv_phase m)" for m
  proof -
    obtain n where n: "n \<in> set ms" "m = ?g n" using m(1) by (auto simp: set_update_where)
    then have "held_phase (mv_phase n)" using m(2) g(4) by simp
    from held_moving [OF ok n(1) this] show ?thesis using g(1,2) [OF n(1)] n(2) by simp
  qed
  show "m = n" if m: "m \<in> set (update_where P f ms)" "n \<in> set (update_where P f ms)" "mv_environment_id m = mv_environment_id n"
      "open_phase (mv_phase m)" "open_phase (mv_phase n)" for m n
  proof -
    obtain m' n' where o1: "m' \<in> set ms" "m = ?g m'" and o2: "n' \<in> set ms" "n = ?g n'"
      using m(1,2) by (auto simp: set_update_where)
    have "mv_environment_id m' = mv_environment_id n'"
      using m(3) g(2) [OF o1(1)] g(2) [OF o2(1)] unfolding o1(2) o2(2) by simp
    moreover have "open_phase (mv_phase m')" "open_phase (mv_phase n')"
      using m(4,5) g(5) [OF o1(1)] g(5) [OF o2(1)] unfolding o1(2) o2(2) by blast+
    ultimately have "m' = n'" by (rule one_open [OF ok o1(1) o2(1)])
    then show ?thesis unfolding o1(2) o2(2) by simp
  qed
qed (rule moving_quiet [OF ok])

lemma successor_phases:
  "successor p = Some q \<Longrightarrow> held_phase q = held_phase p \<and> (open_phase q \<longrightarrow> open_phase p)"
  by (cases p) (auto simp: held_phase_def open_phase_def)

lemma advance_ok: "directory_ok d \<Longrightarrow> directory_ok (snd (advance movementId origin target evidence d))"
  using successor_phases [of origin target]
  by (auto simp: advance_def intro!: movements_updated)

lemma requestReturn_ok: "directory_ok d \<Longrightarrow> directory_ok (snd (requestReturn movementId d))"
  by (auto simp: requestReturn_def returnable_def held_phase_def open_phase_def intro!: movements_updated)

lemma supersede_ok: "directory_ok d \<Longrightarrow> directory_ok (supersede retained d)"
  by (auto simp: supersede_def held_phase_def open_phase_def intro!: movements_updated)

lemma movement_started:
  assumes ok: "moves_ok es ms ops" and e: "e \<in> set es" "ce_id e = mv_environment_id m" "ce_movement_id e = None"
    and m: "holds m e" "\<And>n. n \<in> set ms \<Longrightarrow> mv_id n \<noteq> mv_id m"
    and alone: "\<And>n. n \<in> set ms \<Longrightarrow> mv_environment_id n = mv_environment_id m \<Longrightarrow> \<not> open_phase (mv_phase n)"
    and quiet: "\<And>o1. o1 \<in> set ops \<Longrightarrow> co_environment_id o1 = mv_environment_id m \<Longrightarrow> co_status o1 \<noteq> OpRunning"
  shows "moves_ok (update_where (\<lambda>e. ce_id e = mv_environment_id m) (\<lambda>e. e\<lparr>ce_movement_id := Some (mv_id m)\<rparr>) es) (ms @ [m]) ops"
    (is "moves_ok (update_where ?P ?f es) _ _")
proof (rule moves_okI)
  have only: "e' = e" if "e' \<in> set es" "?P e'" for e'
    using unique_row [OF moves_unique(1) [OF ok] that(1) e(1)] that(2) e(2) by simp
  have set_es: "set (update_where ?P ?f es) = insert (?f e) (set es - {e})"
    by (rule set_update_one [OF e(1)]) (use only e(2) in blast)
  show "unique ce_id (update_where ?P ?f es)"
    by (rule unique_update_where [OF moves_unique(1) [OF ok]]) simp
  show "unique mv_id (ms @ [m])" using moves_unique(2) [OF ok] m(2) by (simp add: unique_append)
  show "unique co_id ops" by (rule moves_unique [OF ok])
  show "\<exists>n\<in>set (ms @ [m]). mv_id n = i \<and> holds n e'" if "e' \<in> set (update_where ?P ?f es)" "ce_movement_id e' = Some i" for e' i
    using that m(1) moving_held [OF ok, of e' i] unfolding set_es by (auto simp: holds_def)
  show "\<exists>e'\<in>set (update_where ?P ?f es). ce_id e' = mv_environment_id n \<and> ce_movement_id e' = Some (mv_id n)"
    if n: "n \<in> set (ms @ [m])" "held_phase (mv_phase n)" for n
  proof (cases "n = m")
    case True
    with e(2) show ?thesis unfolding set_es by simp
  next
    case False
    then obtain e' where "e' \<in> set es" "ce_id e' = mv_environment_id n" "ce_movement_id e' = Some (mv_id n)"
      using held_moving [OF ok _ n(2)] n(1) by auto
    with e(3) show ?thesis unfolding set_es by (intro bexI [of _ e']) auto
  qed
  show "n = n'" if "n \<in> set (ms @ [m])" "n' \<in> set (ms @ [m])" "mv_environment_id n = mv_environment_id n'"
      "open_phase (mv_phase n)" "open_phase (mv_phase n')" for n n'
    using that one_open [OF ok, of n n'] alone [of n] alone [of n'] by (cases "n = m"; cases "n' = m") simp_all
  show "co_status o1 \<noteq> OpRunning" if "e' \<in> set (update_where ?P ?f es)" "o1 \<in> set ops" "ce_movement_id e' \<noteq> None"
      "co_environment_id o1 = ce_id e'" for e' o1
    using that moving_quiet [OF ok, of e' o1] quiet [of o1] e(2) unfolding set_es by auto
qed

lemma movement_closed:
  assumes ok: "moves_ok es ms ops" and e: "e \<in> set es" "ce_movement_id e = Some i"
    and f: "ce_id (f e) = ce_id e" "ce_movement_id (f e) = None"
    and P: "\<And>e'. e' \<in> set es \<Longrightarrow> P e' \<longleftrightarrow> e' = e"
    and g: "\<And>m. mv_id (g m) = mv_id m \<and> mv_environment_id (g m) = mv_environment_id m \<and> \<not> held_phase (mv_phase (g m))"
  shows "moves_ok (update_where P f es) (update_where (\<lambda>m. mv_id m = i) g ms) ops"
proof (rule moves_okI)
  obtain m where m: "m \<in> set ms" "mv_id m = i" "holds m e" using moving_held [OF ok e] by blast
  have only: "n = m" if "n \<in> set ms" "mv_id n = i" for n
    using unique_row [OF moves_unique(2) [OF ok] that(1) m(1)] that(2) m(2) by simp
  have set_es: "set (update_where P f es) = insert (f e) (set es - {e})"
    by (rule set_update_one [OF e(1) P])
  have set_ms: "set (update_where (\<lambda>m. mv_id m = i) g ms) = insert (g m) (set ms - {m})"
    by (rule set_update_one [OF m(1)]) (use only m(2) in blast)
  have m_open: "open_phase (mv_phase m)" using m(3) by (auto simp: holds_def held_phase_def open_phase_def)
  have other: "ce_movement_id e' \<noteq> Some i" if "e' \<in> set es" "e' \<noteq> e" for e'
    using moving_held [OF ok that(1), of i] only m(3) that unique_row [OF moves_unique(1) [OF ok] that(1) e(1)]
    by (auto simp: holds_def)
  show "unique ce_id (update_where P f es)"
    by (rule unique_update_where [OF moves_unique(1) [OF ok]]) (use P f(1) in simp)
  show "unique mv_id (update_where (\<lambda>m. mv_id m = i) g ms)"
    by (rule unique_update_where [OF moves_unique(2) [OF ok]]) (simp add: g)
  show "unique co_id ops" by (rule moves_unique [OF ok])
  show "\<exists>n\<in>set (update_where (\<lambda>m. mv_id m = i) g ms). mv_id n = j \<and> holds n e'"
    if e': "e' \<in> set (update_where P f es)" "ce_movement_id e' = Some j" for e' j
  proof -
    have "e' \<in> set es" "e' \<noteq> e" using e' f(2) unfolding set_es by auto
    with moving_held [OF ok _ e'(2)] other [of e'] e'(2) show ?thesis unfolding set_ms by (metis Diff_iff insertCI singletonD m(2))
  qed
  show "\<exists>e'\<in>set (update_where P f es). ce_id e' = mv_environment_id n \<and> ce_movement_id e' = Some (mv_id n)"
    if n: "n \<in> set (update_where (\<lambda>m. mv_id m = i) g ms)" "held_phase (mv_phase n)" for n
  proof -
    have "n \<noteq> g m" using n(2) g [of m] by auto
    then have n': "n \<in> set ms" "n \<noteq> m" using n(1) unfolding set_ms by auto
    obtain e' where "e' \<in> set es" "ce_id e' = mv_environment_id n" "ce_movement_id e' = Some (mv_id n)"
      using held_moving [OF ok n'(1) n(2)] by blast
    moreover from this have "e' \<noteq> e" using e(2) only [OF n'(1)] n'(2) by auto
    ultimately show ?thesis unfolding set_es by blast
  qed
  show "n = n'" if n: "n \<in> set (update_where (\<lambda>m. mv_id m = i) g ms)" "n' \<in> set (update_where (\<lambda>m. mv_id m = i) g ms)"
      "mv_environment_id n = mv_environment_id n'" "open_phase (mv_phase n)" "open_phase (mv_phase n')" for n n'
  proof -
    have "k = m" if "k \<in> set ms" "mv_environment_id k = mv_environment_id m" "open_phase (mv_phase k)" for k
      by (rule one_open [OF ok that(1) m(1) that(2,3) m_open])
    with n one_open [OF ok] g [of m] show ?thesis unfolding set_ms by (metis Diff_iff insertE singletonI)
  qed
  show "co_status o1 \<noteq> OpRunning" if "e' \<in> set (update_where P f es)" "o1 \<in> set ops" "ce_movement_id e' \<noteq> None"
      "co_environment_id o1 = ce_id e'" for e' o1
    using that moving_quiet [OF ok, of e' o1] f(2) unfolding set_es by auto
qed

text \<open>What \<open>begin\<close> does when it does not throw.\<close>

lemma prepare_rollback_Inr:
  assumes "prepare_rollback input d = (Inr u, d1)"
  shows "d1 = d \<or> (\<exists>r. d1 = supersede r d)"
  using assms by (auto simp: prepare_rollback_def split: option.splits if_splits)

lemma begin_Inr:
  assumes "beginMovement fresh input d = (Inr i, d')" "d' \<noteq> d"
  obtains e d1 where "first_row (\<lambda>e. ce_id e = mi_environmentId input) (d_environments d) = Some e" "ready_to_move input e"
    "first_row (\<lambda>m. mv_id m = i) (d_movements d) = None" "length (usable_runtimes input d) = 2"
    "\<not> list_ex (\<lambda>o1. co_environment_id o1 = mi_environmentId input \<and> co_status o1 = OpRunning) (d_operations d)"
    "prepare_rollback input d = (Inr (), d1)"
    "\<not> list_ex (\<lambda>m. mv_environment_id m = mi_environmentId input \<and> open_phase (mv_phase m)) (d_movements d1)"
    "d' = hold_environment (mi_environmentId input) i (d_movements_update (\<lambda>rows. rows @ [new_movement i input]) d1)"
    "0 < mi_expectedGeneration input" "mi_expectedGeneration input < MAX_SAFE_INTEGER"
  using assms
  by (auto simp: beginMovement_def Let_def bind_io_Inr insert_movement_def new_movement_def split: option.splits if_splits)

lemma begin_ok:
  assumes ok: "directory_ok d"
  shows "directory_ok (snd (beginMovement fresh input d))"
proof (cases "fst (beginMovement fresh input d)")
  case (Inl err)
  then have "snd (beginMovement fresh input d) = d"
    by (auto simp: beginMovement_def Let_def transaction_def split: prod.splits sum.splits if_splits)
  with ok show ?thesis by simp
next
  case (Inr i)
  then obtain d' where d': "beginMovement fresh input d = (Inr i, d')" by (metis prod.collapse)
  show ?thesis
  proof (cases "d' = d")
    case False
    obtain e d1 where e: "first_row (\<lambda>e. ce_id e = mi_environmentId input) (d_environments d) = Some e" "ready_to_move input e"
      and fresh: "first_row (\<lambda>m. mv_id m = i) (d_movements d) = None"
      and quiet: "\<not> list_ex (\<lambda>o1. co_environment_id o1 = mi_environmentId input \<and> co_status o1 = OpRunning) (d_operations d)"
      and d1: "prepare_rollback input d = (Inr (), d1)"
      and alone: "\<not> list_ex (\<lambda>m. mv_environment_id m = mi_environmentId input \<and> open_phase (mv_phase m)) (d_movements d1)"
      and d'': "d' = hold_environment (mi_environmentId input) i (d_movements_update (\<lambda>rows. rows @ [new_movement i input]) d1)"
      by (rule begin_Inr [OF d' False])
    have ok1: "directory_ok d1" and same: "d_environments d1 = d_environments d" "d_operations d1 = d_operations d"
        "map mv_id (d_movements d1) = map mv_id (d_movements d)"
      using prepare_rollback_Inr [OF d1] ok supersede_ok [OF ok] by (auto simp: supersede_def update_where_def)
    have fresh1: "mv_id n \<noteq> i" if "n \<in> set (d_movements d1)" for n
      using that fresh same(3) by (auto simp: first_row_None) (metis (no_types, lifting) image_eqI imageE set_map)
    let ?m = "new_movement i input"
    have m: "mv_environment_id ?m = mi_environmentId input" "mv_id ?m = i" by (simp_all add: new_movement_def)
    have "moves_ok (update_where (\<lambda>e. ce_id e = mv_environment_id ?m) (\<lambda>e. e\<lparr>ce_movement_id := Some (mv_id ?m)\<rparr>) (d_environments d1))
        (d_movements d1 @ [?m]) (d_operations d1)"
    proof (rule movement_started [OF ok1, of e])
      show "e \<in> set (d_environments d1)" "ce_id e = mv_environment_id ?m" "ce_movement_id e = None" "holds ?m e"
        using first_rowD [OF e(1)] e(2) same(1) m(1)
        by (auto simp: ready_to_move_def holds_def new_movement_def held_phase_def)
    qed (use fresh1 m alone quiet same in \<open>auto simp: list_ex_iff\<close>)
    then show ?thesis unfolding d' d'' by (simp add: hold_environment_def m)
  qed (use ok d' in simp)
qed

text \<open>What \<open>activate\<close> does when it does not throw.\<close>

lemma place_components_Inr:
  assumes "place_components environmentId g evidence d = (Inr u, d')"
  shows "\<exists>rows. d' = d_components_update (\<lambda>_. rows) d"
proof -
  have loop: "\<exists>rows. d2 = d_components_update (\<lambda>_. rows) d1" if "for_io (place_verified environmentId g) cs () d1 = (Inr (), d2)"
    for cs d1 d2
    using that
  proof (induction cs arbitrary: d1)
    case Nil
    then show ?case by (auto intro: exI [of _ "d_components d2"])
  next
    case (Cons c cs)
    from Cons.prems obtain d3 where "place_verified environmentId g c () d1 = (Inr (), d3)" "for_io (place_verified environmentId g) cs () d3 = (Inr (), d2)"
      by (auto simp: bind_io_Inr)
    with Cons.IH [OF this(2)] show ?case by (auto simp: place_verified_def bind_io_Inr lift_def place_component_def)
  qed
  obtain cs d1 where "for_io (place_verified environmentId g) cs () d1 = (Inr (), d')" "d1 = d"
    using assms by (auto simp: place_components_def bind_io_Inr lift_def simp del: for_io.simps
        split: option.splits json.splits list.splits if_splits)
  with loop show ?thesis by blast
qed

lemma read_Inr:
  assumes "read_movement i d = (Inr m, d')"
  shows "d' = d \<and> (\<exists>row\<in>set (d_movements d). \<exists>e\<in>set (d_environments d). mv_id row = i \<and> ce_id e = mv_environment_id row \<and> m = locate row e)"
proof -
  let ?rows = "[locate m e. m \<leftarrow> filter (\<lambda>m. mv_id m = i) (d_movements d), e \<leftarrow> filter (\<lambda>e. ce_id e = mv_environment_id m) (d_environments d)]"
  obtain tail where "d' = d" "?rows = m # tail"
    using assms by (auto simp: read_movement_def split: list.splits)
  then have "d' = d" "m \<in> set ?rows" by (simp_all only: list.set_intros)
  then show ?thesis by auto
qed

lemma locate_simps [simp]:
  "mv_id (locate m e) = mv_id m" "mv_environment_id (locate m e) = mv_environment_id m"
  "mv_source_runtime_id (locate m e) = mv_source_runtime_id m" "mv_destination_runtime_id (locate m e) = mv_destination_runtime_id m"
  "mv_source_generation (locate m e) = mv_source_generation m" "mv_destination_generation (locate m e) = mv_destination_generation m"
  "mv_phase (locate m e) = mv_phase m" "mv_evidence (locate m e) = mv_evidence m"
  by (simp_all add: locate_def movement.defs)

lemma publication_simps [simp]:
  "mv_id (publication evidence m) = mv_id m" "mv_environment_id (publication evidence m) = mv_environment_id m"
  "mv_source_runtime_id (publication evidence m) = mv_source_runtime_id m"
  "mv_source_generation (publication evidence m) = mv_source_generation m"
  by (simp_all add: publication_def split: option.split)

lemma published_environments: "d_environments (publish_placement i returning m d) = update_where (publishable i returning m d)
    (\<lambda>e. e\<lparr>ce_runtime_id := mv_destination_runtime_id m, ce_routing_generation := mv_destination_generation m,
      ce_movement_id := None, ce_observed_state := IsReady\<rparr>) (d_environments d)"
  by (simp add: publish_placement_def)

lemma activate_Inr:
  assumes "activate i evidence d = (Inr u, d')"
  obtains row e m where "row \<in> set (d_movements d)" "mv_id row = i" "evidence \<noteq> None \<longrightarrow> mv_phase row = Returning"
    "e \<in> set (d_environments d)" "ce_id e = mv_environment_id row" "m = publication evidence (locate row e)"
    "list_ex (publishable i (evidence \<noteq> None) m d) (d_environments d)"
    "d_environments d' = update_where (publishable i (evidence \<noteq> None) m d)
       (\<lambda>e. e\<lparr>ce_runtime_id := mv_destination_runtime_id m, ce_routing_generation := mv_destination_generation m,
         ce_movement_id := None, ce_observed_state := IsReady\<rparr>) (d_environments d)"
    "d_movements d' = d_movements (close_movement i evidence d)" "d_operations d' = d_operations d"
proof -
  obtain m0 d0 d2 where m0: "read_movement i d = (Inr m0, d0)" "evidence \<noteq> None \<longrightarrow> mv_phase m0 = Returning"
    and found: "list_ex (publishable i (evidence \<noteq> None) (publication evidence m0) d) (d_environments d)"
    and placed: "place_components (mv_environment_id m0) (mv_destination_generation (publication evidence m0)) (mv_evidence (publication evidence m0))
      (publish_placement i (evidence \<noteq> None) (publication evidence m0) d) = (Inr (), d2)"
    and d': "d' = close_movement i evidence d2"
    using assms read_Inr [of i d] by (fastforce simp: activate_def Let_def bind_io_Inr split: if_splits)
  obtain rows where "d2 = d_components_update (\<lambda>_. rows) (publish_placement i (evidence \<noteq> None) (publication evidence m0) d)"
    using place_components_Inr [OF placed] by blast
  with d' have after: "d_environments d' = d_environments (publish_placement i (evidence \<noteq> None) (publication evidence m0) d)"
      "d_movements d' = d_movements (close_movement i evidence d)" "d_operations d' = d_operations d"
    by (simp_all add: close_movement_def publish_placement_def)
  obtain row e where row: "row \<in> set (d_movements d)" "e \<in> set (d_environments d)" "mv_id row = i" "ce_id e = mv_environment_id row"
      "m0 = locate row e"
    using read_Inr [OF m0(1)] by blast
  have "evidence \<noteq> None \<longrightarrow> mv_phase row = Returning" using m0(2) row(5) by simp
  then show ?thesis
    by (rule that [OF row(1,3) _ row(2,4) refl found [unfolded row(5)] after(1) [unfolded row(5) published_environments] after(2,3)])
qed

lemma closed_movements: "d_movements (close_movement i evidence d) = update_where (\<lambda>m. mv_id m = i)
     (\<lambda>m. m\<lparr>mv_phase := (if evidence \<noteq> None then MoveCancelled else Activated),
       mv_evidence := spread (mv_evidence m) (case evidence of None \<Rightarrow> [] | Some evidence \<Rightarrow> evidence)\<rparr>) (d_movements d)"
  by (simp add: close_movement_def)

text \<open>The environment that an activation places, and the movement that held it.\<close>

lemma published_one:
  assumes ok: "directory_ok d" and found: "list_ex (publishable i returning m d) (d_environments d)"
  obtains e where "e \<in> set (d_environments d)" "ce_id e = mv_environment_id m" "ce_movement_id e = Some i" "ce_desired_state e = WantReady"
    "ce_runtime_id e = mv_source_runtime_id m" "ce_routing_generation e = mv_source_generation m"
    "\<And>e'. e' \<in> set (d_environments d) \<Longrightarrow> publishable i returning m d e' \<longleftrightarrow> e' = e"
proof -
  obtain e where e: "e \<in> set (d_environments d)" "publishable i returning m d e" using found by (auto simp: list_ex_iff)
  have only: "e' = e" if "e' \<in> set (d_environments d)" "publishable i returning m d e'" for e'
    using unique_row [OF moves_unique(1) [OF ok] that(1) e(1)] that(2) e(2) by (simp add: publishable_def)
  have "publishable i returning m d e' \<longleftrightarrow> e' = e" if "e' \<in> set (d_environments d)" for e'
    using only [OF that] e(2) by blast
  with e(2) [unfolded publishable_def] show ?thesis by (intro that [OF e(1)]) blast+
qed

lemma activate_ok:
  assumes ok: "directory_ok d"
  shows "directory_ok (snd (activate i evidence d))"
proof (cases "fst (activate i evidence d)")
  case (Inl err)
  then have "snd (activate i evidence d) = d"
    by (auto simp: activate_def transaction_def split: prod.splits sum.splits)
  with ok show ?thesis by simp
next
  case (Inr u)
  then obtain d' where d': "activate i evidence d = (Inr u, d')" by (metis prod.collapse)
  obtain row e0 m where found: "list_ex (publishable i (evidence \<noteq> None) m d) (d_environments d)"
    and after: "d_environments d' = update_where (publishable i (evidence \<noteq> None) m d)
       (\<lambda>e. e\<lparr>ce_runtime_id := mv_destination_runtime_id m, ce_routing_generation := mv_destination_generation m,
         ce_movement_id := None, ce_observed_state := IsReady\<rparr>) (d_environments d)"
       "d_movements d' = d_movements (close_movement i evidence d)" "d_operations d' = d_operations d"
    by (rule activate_Inr [OF d']) blast
  obtain e where e: "e \<in> set (d_environments d)" "ce_movement_id e = Some i"
      "\<And>e'. e' \<in> set (d_environments d) \<Longrightarrow> publishable i (evidence \<noteq> None) m d e' \<longleftrightarrow> e' = e"
    by (rule published_one [OF ok found]) blast
  have "moves_ok (d_environments d') (d_movements d') (d_operations d')"
    unfolding after closed_movements
    by (rule movement_closed [OF ok e(1,2) _ _ e(3)]) (simp_all add: held_phase_def)
  then show ?thesis unfolding d' by simp
qed

section \<open>The invariant\<close>

lemma registered_ok: "directory_ok d \<Longrightarrow> directory_ok (snd (registerRuntime runtime sha d))"
  by (simp add: registerRuntime_def)

lemma select_ok: "directory_ok d \<Longrightarrow> directory_ok (snd (selectDefaultRuntime ck runtime sha catalog d))"
  by (auto simp: selectDefaultRuntime_def Let_def transaction_def split: prod.splits sum.splits if_splits)

lemma call_ok: "directory_ok d \<Longrightarrow> directory_ok (perform_call pf d c)"
  by (cases c)
    (simp_all add: keepsD [OF keeps_acceptEntitlement] record_heartbeat_def keepsD [OF keeps_claim] keepsD [OF keeps_finish]
      keepsD [OF keeps_fail] keepsD [OF keeps_reconcile_runtime] registered_ok select_ok begin_ok advance_ok requestReturn_ok activate_ok)

lemma initial_ok: "directory_ok initial_directory"
  by (simp add: initial_directory_def moves_ok_def unique_def)

interpretation directory_system: invariant_system initial_directory "perform_call pf" directory_ok for pf
  by unfold_locales (simp_all add: initial_ok call_ok)

end
