(* ===== verification/Directory_Safety.thy ===== *)
theory Directory_Safety
  imports Directory_Run
begin

text \<open>
  What holds of every reachable directory and of every call on one: the constraints of the tables, the placement of
  customers, authorization, and the replay of entitlements.
\<close>

section \<open>The constraints of the tables\<close>

text \<open>The checks of the table of movements (migrations 0002 and 0004).\<close>

definition movement_row :: "movement \<Rightarrow> bool" where
  "movement_row m \<longleftrightarrow> 0 < mv_source_generation m \<and> mv_source_generation m < MAX_SAFE_INTEGER \<and>
     mv_destination_generation m = mv_source_generation m + 1 \<and> mv_source_runtime_id m \<noteq> mv_destination_runtime_id m \<and>
     (mv_mode m = Move \<and> mv_rollback_of m = None \<and> \<not> mv_accept_divergence m \<or>
      mv_mode m = Rollback \<and> mv_rollback_of m \<noteq> None \<and> mv_accept_divergence m)"

definition schema_ok :: "directory \<Rightarrow> bool" where
  "schema_ok d \<longleftrightarrow>
     unique ee_eventId (d_events d) \<and> unique ce_purchased_name (d_environments d) \<and> unique ce_database_name (d_environments d) \<and>
     unique membership_key (d_memberships d) \<and> unique component_key (d_components d) \<and> unique operation_key (d_operations d) \<and>
     unique hb_worker_name (d_heartbeats d) \<and> unique cr_id (d_runtimes d) \<and>
     list_all (\<lambda>e. 0 < ce_routing_generation e) (d_environments d) \<and> list_all movement_row (d_movements d)"

lemma list_all_update_where: "list_all Q rows \<Longrightarrow> (\<And>r. Q r \<Longrightarrow> P r \<Longrightarrow> Q (f r)) \<Longrightarrow> list_all Q (update_where P f rows)"
  by (auto simp: list_all_iff set_update_where)

lemmas schema_intros = unique_update_where unique_insert list_all_update_where

lemma schema_entitle [keeping]:
  "keeps schema_ok (command (renew_environment environmentId event))"
  "keeps schema_ok (command (owner_membership environmentId subject))"
  "keeps schema_ok (command (entitle_component environmentId desired g c))"
  "keeps schema_ok (command (queue_entitled operation_id environmentId desired g now c))"
  "keeps schema_ok (command (d_events_update (insert_or_nothing ee_eventId event)))"
  "keeps schema_ok (bind_io (select (environment_taken environmentId database (ee_purchasedName event))) (\<lambda>taken. bind_io (refuse_if taken message) (\<lambda>_.
     command (add_environment environmentId database runtime now event))))"
  unfolding keeps_def schema_ok_def
  by (auto simp: renew_environment_def owner_membership_def entitle_component_def queue_entitled_def Let_def new_operation_def
      membership_key_def component_key_def list_ex_iff same_operation_def unique_append environment_taken_def add_environment_def
      intro!: schema_intros)

lemma schema_acceptEntitlement: "keeps schema_ok (acceptEntitlement defaults uuid fresh ids now event)"
  unfolding acceptEntitlement_def entitle_environment_def place_entitled_def replay_check_def entitle_components_def by (intro keeping)

lemma schema_requeue [keeping]: "keeps schema_ok (requeue now operation_id ec)"
  unfolding keeps_def requeue_def schema_ok_def
  by (auto simp: Let_def operation_key_def intro!: schema_intros)

lemma schema_mark [keeping]:
  "keeps schema_ok (command (mark_reconciling environmentId))"
  "keeps schema_ok (command (observe_component operation))"
  "keeps schema_ok (command (observe_environment environmentId))"
  "keeps schema_ok (command (fail_component operation message))"
  "keeps schema_ok (command (settle_operation instanceId operation status error))"
  "keeps schema_ok (command (take_lease instanceId lease now row))"
  unfolding keeps_def schema_ok_def
  by (auto simp: mark_reconciling_def observe_component_def observe_environment_def fail_component_def settle_operation_def take_lease_def
      component_key_def operation_key_def intro!: schema_intros)

lemma schema_provisioner:
  "keeps schema_ok (reconcile_runtime restore ids now runtime)" "keeps schema_ok (claim instanceId runtime lease now)"
  "keeps schema_ok (finish_operation instanceId runtime operation)" "keeps schema_ok (fail_operation instanceId runtime operation error)"
  unfolding reconcile_runtime_def queueCustomerReconciliation_def claim_def finish_operation_def fail_operation_def Let_def
  by (intro keeping; auto split: list.split prod.split intro!: keeping)+

lemma schema_advance: "schema_ok d \<Longrightarrow> schema_ok (snd (advance i origin target evidence d))"
  by (auto simp: advance_def schema_ok_def movement_row_def intro!: schema_intros)

lemma schema_requestReturn: "schema_ok d \<Longrightarrow> schema_ok (snd (requestReturn i d))"
  by (auto simp: requestReturn_def schema_ok_def movement_row_def intro!: schema_intros)

lemma schema_runtimes: "schema_ok d \<Longrightarrow> schema_ok (snd (registerRuntime runtime sha d))"
  by (auto simp: registerRuntime_def schema_ok_def intro!: schema_intros)

lemma schema_select: "schema_ok d \<Longrightarrow> schema_ok (snd (selectDefaultRuntime ck runtime sha catalog d))"
  by (auto simp: selectDefaultRuntime_def Let_def transaction_def schema_ok_def split: prod.splits sum.splits if_splits intro!: schema_intros)

lemma two_runtimes:
  assumes "unique cr_id (d_runtimes d)" "length (usable_runtimes input d) = 2"
  shows "mi_sourceRuntimeId input \<noteq> mi_destinationRuntimeId input"
proof
  assume same: "mi_sourceRuntimeId input = mi_destinationRuntimeId input"
  have "distinct (map cr_id (usable_runtimes input d))"
    using assms(1) by (simp add: unique_def usable_runtimes_def distinct_map_filter)
  moreover have "set (map cr_id (usable_runtimes input d)) \<subseteq> {mi_sourceRuntimeId input}"
    using same by (auto simp: usable_runtimes_def)
  ultimately have "length (map cr_id (usable_runtimes input d)) \<le> 1"
    using card_mono [of "{mi_sourceRuntimeId input}"] by (metis card.empty card_insert_if distinct_card empty_iff finite.simps One_nat_def)
  with assms(2) show False by simp
qed

lemma rollback_checked:
  assumes "prepare_rollback input d = (Inr (), d1)"
  shows "mi_rollbackOf input = None \<and> \<not> accepts_divergence input \<or> mi_rollbackOf input \<noteq> None \<and> accepts_divergence input"
  using assms by (auto simp: prepare_rollback_def retained_for_def split: option.splits if_splits)

lemma schema_begin:
  assumes ok: "schema_ok d"
  shows "schema_ok (snd (beginMovement fresh input d))"
proof (cases "fst (beginMovement fresh input d)")
  case (Inl err)
  then have "snd (beginMovement fresh input d) = d"
    by (auto simp: beginMovement_def Let_def transaction_def split: prod.splits sum.splits if_splits)
  with ok show ?thesis by simp
next
  case (Inr i)
  then obtain d' where d': "beginMovement fresh input d = (Inr i, d')" by (metis prod.collapse)
  show ?thesis
  proof (cases "d' = d")
    case False
    obtain d1 where d1: "length (usable_runtimes input d) = 2" "prepare_rollback input d = (Inr (), d1)"
      and d'': "d' = hold_environment (mi_environmentId input) i (d_movements_update (\<lambda>rows. rows @ [new_movement i input]) d1)"
      and generation: "0 < mi_expectedGeneration input" "mi_expectedGeneration input < MAX_SAFE_INTEGER"
      by (rule begin_Inr [OF d' False])
    have "movement_row (new_movement i input)"
      using two_runtimes [OF _ d1(1)] ok rollback_checked [OF d1(2)] generation
      by (auto simp: movement_row_def new_movement_def schema_ok_def)
    moreover have "schema_ok d1"
      using prepare_rollback_Inr [OF d1(2)] ok
      by (auto simp: supersede_def schema_ok_def movement_row_def intro!: schema_intros)
    ultimately show ?thesis
      unfolding d' d'' by (auto simp: hold_environment_def schema_ok_def intro!: schema_intros)
  qed (use ok d' in simp)
qed

lemma schema_placed: "for_io (place_verified environmentId g) cs () d = (Inr (), d') \<Longrightarrow> schema_ok d \<Longrightarrow> schema_ok d'"
proof (induction cs arbitrary: d)
  case (Cons c cs)
  from Cons.prems(1) obtain d1 where d1: "place_verified environmentId g c () d = (Inr (), d1)" "for_io (place_verified environmentId g) cs () d1 = (Inr (), d')"
    by (auto simp: bind_io_Inr)
  have "schema_ok d1"
    using d1(1) Cons.prems(2)
    by (auto simp: place_verified_def bind_io_Inr lift_def place_component_def schema_ok_def component_key_def intro!: schema_intros)
  then show ?case by (rule Cons.IH [OF d1(2)])
qed simp

lemma schema_activate:
  assumes ok: "schema_ok d"
  shows "schema_ok (snd (activate i evidence d))"
proof (cases "fst (activate i evidence d)")
  case (Inl err)
  then have "snd (activate i evidence d) = d"
    by (auto simp: activate_def transaction_def split: prod.splits sum.splits)
  with ok show ?thesis by simp
next
  case (Inr u)
  then obtain d' where d': "activate i evidence d = (Inr u, d')" by (metis prod.collapse)
  obtain m0 d0 d2 where m0: "read_movement i d = (Inr m0, d0)"
    and placed: "place_components (mv_environment_id m0) (mv_destination_generation (publication evidence m0)) (mv_evidence (publication evidence m0))
      (publish_placement i (evidence \<noteq> None) (publication evidence m0) d) = (Inr (), d2)"
    and d2: "d' = close_movement i evidence d2"
    using d' read_Inr [of i d] by (fastforce simp: activate_def Let_def bind_io_Inr split: if_splits)
  obtain row where row: "row \<in> set (d_movements d)" "mv_destination_generation m0 = mv_destination_generation row"
    using read_Inr [OF m0] by auto
  then have "movement_row row" using ok by (simp add: schema_ok_def list_all_iff)
  then have "0 < mv_destination_generation (publication evidence m0)"
    using row(2) by (auto simp: publication_def movement_row_def split: option.split)
  then have published: "schema_ok (publish_placement i (evidence \<noteq> None) (publication evidence m0) d)"
    using ok by (auto simp: publish_placement_def schema_ok_def intro!: schema_intros)
  have "schema_ok d2"
    using placed published by (auto simp: place_components_def bind_io_Inr lift_def simp del: for_io.simps
        split: option.splits json.splits list.splits if_splits dest!: schema_placed)
  then show ?thesis
    unfolding d' d2 by (auto simp: close_movement_def schema_ok_def movement_row_def intro!: schema_intros)
qed

lemma schema_perform: "schema_ok d \<Longrightarrow> schema_ok (perform_call pf d c)"
  by (cases c)
    (simp_all add: keepsD [OF schema_acceptEntitlement] keepsD [OF schema_provisioner(1)] keepsD [OF schema_provisioner(2)]
      keepsD [OF schema_provisioner(3)] keepsD [OF schema_provisioner(4)] schema_runtimes schema_select schema_begin schema_advance
      schema_requestReturn schema_activate,
     auto simp: record_heartbeat_def schema_ok_def intro!: schema_intros)

lemma initial_schema: "schema_ok initial_directory"
  by (simp add: initial_directory_def schema_ok_def unique_def)

interpretation schema_system: invariant_system initial_directory "perform_call pf" schema_ok for pf
  by unfold_locales (simp_all add: initial_schema schema_perform)

section \<open>Environments through time\<close>

text \<open>The environment is there under its name, in the same generation or a later one, and on the same runtime.\<close>

definition same_environment :: "customer_environment \<Rightarrow> customer_environment \<Rightarrow> bool" where
  "same_environment e e' \<longleftrightarrow> ce_id e' = ce_id e \<and> ce_purchased_name e' = ce_purchased_name e \<and> ce_database_name e' = ce_database_name e \<and>
     ce_routing_generation e \<le> ce_routing_generation e'"

definition settled :: "customer_environment \<Rightarrow> directory \<Rightarrow> bool" where
  "settled e d \<longleftrightarrow> (\<exists>e'\<in>set (d_environments d). same_environment e e' \<and> ce_runtime_id e' = ce_runtime_id e)"

lemma settled_update:
  assumes "settled e d" "\<And>e'. same_environment e e' \<Longrightarrow> same_environment e (f e') \<and> ce_runtime_id (f e') = ce_runtime_id e'"
  shows "\<exists>e'\<in>set (update_where P f (d_environments d)). same_environment e e' \<and> ce_runtime_id e' = ce_runtime_id e"
proof -
  obtain e' where e': "e' \<in> set (d_environments d)" "same_environment e e'" "ce_runtime_id e' = ce_runtime_id e"
    using assms(1) by (auto simp: settled_def)
  then have "(if P e' then f e' else e') \<in> set (update_where P f (d_environments d))" by (simp add: set_update_where)
  with e' assms(2) [OF e'(2)] show ?thesis by (metis (no_types, lifting))
qed

lemma settled_entitle [keeping]:
  "keeps (settled e) (command (renew_environment environmentId event))"
  "keeps (settled e) (command (owner_membership environmentId subject))"
  "keeps (settled e) (command (entitle_component environmentId desired g c))"
  "keeps (settled e) (command (queue_entitled operation_id environmentId desired g now c))"
  "keeps (settled e) (command (d_events_update (insert_or_nothing ee_eventId event)))"
  "keeps (settled e) (command (add_environment environmentId database runtime now event))"
proof -
  show "keeps (settled e) (command (renew_environment environmentId event))"
    by (rule keeps_command, subst settled_def, simp add: renew_environment_def, rule settled_update) (auto simp: same_environment_def)
  show "keeps (settled e) (command (add_environment environmentId database runtime now event))"
    by (rule keeps_command) (auto simp: settled_def add_environment_def)
qed (rule keeps_command, simp add: settled_def owner_membership_def entitle_component_def queue_entitled_def Let_def)+

lemma settled_provision [keeping]:
  "keeps (settled e) (command (mark_reconciling environmentId))"
  "keeps (settled e) (command (observe_component operation))"
  "keeps (settled e) (command (observe_environment environmentId))"
  "keeps (settled e) (command (fail_component operation message))"
  "keeps (settled e) (command (settle_operation instanceId operation status error))"
  "keeps (settled e) (command (take_lease instanceId lease now row))"
  "keeps (settled e) (command (hold_environment environmentId movementId))"
proof -
  show "keeps (settled e) (command (mark_reconciling environmentId))" "keeps (settled e) (command (observe_environment environmentId))"
    "keeps (settled e) (command (fail_component operation message))" "keeps (settled e) (command (take_lease instanceId lease now row))"
    "keeps (settled e) (command (hold_environment environmentId movementId))"
    by (rule keeps_command, subst settled_def, simp add: mark_reconciling_def observe_environment_def fail_component_def take_lease_def
        hold_environment_def, rule settled_update; simp add: same_environment_def)+
qed (rule keeps_command, simp add: settled_def observe_component_def settle_operation_def)+

lemma settled_requeue [keeping]: "keeps (settled e) (requeue now operation_id ec)"
  by (auto simp: keeps_def requeue_def Let_def settled_def)

lemma settled_moves [keeping]:
  "keeps (settled e) (command (supersede r))" "keeps (settled e) (command (d_movements_update f))" "keeps (settled e) (command (d_runtimes_update g))"
  by (rule keeps_command, simp add: settled_def supersede_def)+

lemma settled_call:
  assumes "settled e d" "case c of Activate _ _ \<Rightarrow> False | _ \<Rightarrow> True"
  shows "settled e (perform_call pf d c)"
proof -
  have entitle: "keeps (settled e) (acceptEntitlement defaults uuid fresh ids now event)" for defaults uuid fresh ids now event
    unfolding acceptEntitlement_def entitle_environment_def place_entitled_def replay_check_def entitle_components_def by (intro keeping)
  have provision: "keeps (settled e) (reconcile_runtime restore ids now runtime)" "keeps (settled e) (claim instanceId runtime lease now)"
      "keeps (settled e) (finish_operation instanceId runtime operation)" "keeps (settled e) (fail_operation instanceId runtime operation error)"
    for restore ids now runtime instanceId lease operation error
    unfolding reconcile_runtime_def queueCustomerReconciliation_def claim_def finish_operation_def fail_operation_def Let_def
    by (intro keeping; auto split: list.split prod.split intro!: keeping)+
  have move: "keeps (settled e) (beginMovement fresh input)" "keeps (settled e) (advance i origin target evidence)"
      "keeps (settled e) (requestReturn i)" "keeps (settled e) (registerRuntime runtime sha)"
    for fresh input i origin target evidence runtime sha
    unfolding beginMovement_def prepare_rollback_def insert_movement_def advance_def requestReturn_def registerRuntime_def Let_def
    by (intro keeping)+
  have select: "settled e (snd (selectDefaultRuntime ck runtime sha catalog d))" for ck runtime sha catalog
    using assms(1) by (auto simp: selectDefaultRuntime_def Let_def transaction_def settled_def split: prod.splits sum.splits if_splits)
  show ?thesis
    using assms
    by (cases c) (simp_all add: keepsD [OF entitle] keepsD [OF provision(1)] keepsD [OF provision(2)] keepsD [OF provision(3)]
      keepsD [OF provision(4)] keepsD [OF move(1)] keepsD [OF move(2)] keepsD [OF move(3)] keepsD [OF move(4)] select,
      simp_all add: settled_def record_heartbeat_def)
qed

text \<open>An activation that moves an environment to another runtime, and what it needs.\<close>

definition relocates :: "directory \<Rightarrow> directory_call \<Rightarrow> customer_environment \<Rightarrow> customer_environment \<Rightarrow> bool" where
  "relocates d c e e' \<longleftrightarrow>
     (case c of
        Activate i None \<Rightarrow> ce_movement_id e = Some i \<and> ce_desired_state e = WantReady \<and>
          list_ex (\<lambda>m. mv_id m = i \<and> mv_phase m = Verified \<and> mv_source_runtime_id m = ce_runtime_id e \<and>
            mv_destination_runtime_id m = ce_runtime_id e' \<and> ce_routing_generation e' = ce_routing_generation e + 1) (d_movements d)
      | _ \<Rightarrow> False)"

definition evolves :: "directory \<Rightarrow> directory_call \<Rightarrow> customer_environment \<Rightarrow> customer_environment \<Rightarrow> bool" where
  "evolves d c e e' \<longleftrightarrow> same_environment e e' \<and> (ce_runtime_id e' = ce_runtime_id e \<or> relocates d c e e')"

lemma same_environment_refl [simp]: "same_environment e e"
  by (simp add: same_environment_def)

lemma activate_evolves:
  assumes ok: "directory_ok d" and schema: "schema_ok d" and e: "e \<in> set (d_environments d)"
  shows "\<exists>e'\<in>set (d_environments (snd (activate i evidence d))). evolves d (Activate i evidence) e e'"
proof (cases "fst (activate i evidence d)")
  case (Inl err)
  then have "snd (activate i evidence d) = d"
    by (auto simp: activate_def transaction_def split: prod.splits sum.splits)
  with e show ?thesis by (auto simp: evolves_def intro!: bexI [of _ e])
next
  case (Inr u)
  then obtain d' where d': "activate i evidence d = (Inr u, d')" by (metis prod.collapse)
  obtain row e1 m where row: "row \<in> set (d_movements d)" "mv_id row = i" and m: "m = publication evidence (locate row e1)"
    and found: "list_ex (publishable i (evidence \<noteq> None) m d) (d_environments d)"
    and after: "d_environments d' = update_where (publishable i (evidence \<noteq> None) m d)
       (\<lambda>e. e\<lparr>ce_runtime_id := mv_destination_runtime_id m, ce_routing_generation := mv_destination_generation m,
         ce_movement_id := None, ce_observed_state := IsReady\<rparr>) (d_environments d)"
    by (rule activate_Inr [OF d']) blast
  obtain e2 where e2: "e2 \<in> set (d_environments d)" "ce_movement_id e2 = Some i" "ce_desired_state e2 = WantReady"
      "ce_runtime_id e2 = mv_source_runtime_id m" "ce_routing_generation e2 = mv_source_generation m"
    and only: "\<And>e'. e' \<in> set (d_environments d) \<Longrightarrow> publishable i (evidence \<noteq> None) m d e' \<longleftrightarrow> e' = e2"
    by (rule published_one [OF ok found]) blast
  let ?f = "\<lambda>e. e\<lparr>ce_runtime_id := mv_destination_runtime_id m, ce_routing_generation := mv_destination_generation m,
         ce_movement_id := None, ce_observed_state := IsReady\<rparr>"
  have after': "set (d_environments d') = insert (?f e2) (set (d_environments d) - {e2})"
    unfolding after by (rule set_update_one [OF e2(1) only])
  show ?thesis
  proof (cases "e = e2")
    case False
    with e have "e \<in> set (d_environments d')" unfolding after' by simp
    then show ?thesis unfolding d' by (auto simp: evolves_def intro!: bexI [of _ e])
  next
    case True
    have checked: "movement_row row" using schema row(1) by (simp add: schema_ok_def list_all_iff)
    have phase: "evidence = None \<longrightarrow> mv_phase row = Verified"
    proof
      assume "evidence = None"
      with found obtain r where "r \<in> set (d_movements d)" "mv_id r = i" "mv_phase r = Verified"
        by (auto simp: list_ex_iff publishable_def)
      with unique_row [OF moves_unique(2) [OF ok] _ row(1)] row(2) show "mv_phase row = Verified" by metis
    qed
    have "evolves d (Activate i evidence) e (?f e2)"
    proof (cases evidence)
      case None
      then show ?thesis
        using True e2 m row phase checked
        by (auto simp: evolves_def same_environment_def relocates_def publication_def movement_row_def list_ex_iff intro!: bexI [of _ row])
    next
      case (Some ev)
      then show ?thesis
        using True e2 m checked by (auto simp: evolves_def same_environment_def publication_def movement_row_def)
    qed
    moreover have "?f e2 \<in> set (d_environments d')" unfolding after' by simp
    ultimately show ?thesis unfolding d' by (intro bexI [of _ "?f e2"]) simp_all
  qed
qed

lemma call_evolves:
  assumes "directory_ok d" "schema_ok d" "e \<in> set (d_environments d)"
  shows "\<exists>e'\<in>set (d_environments (perform_call pf d c)). evolves d c e e'"
proof (cases "case c of Activate _ _ \<Rightarrow> False | _ \<Rightarrow> True")
  case True
  have "settled e d" using assms(3) by (auto simp: settled_def intro!: bexI [of _ e])
  from settled_call [OF this True] show ?thesis by (auto simp: settled_def evolves_def)
next
  case False
  then obtain i evidence where "c = Activate i evidence" by (cases c) auto
  with activate_evolves [OF assms] show ?thesis by simp
qed

section \<open>Properties\<close>

text \<open>The directory after any list of calls.\<close>

definition directory_after :: "platform \<Rightarrow> directory_call list \<Rightarrow> directory" where
  "directory_after pf calls = foldl (perform_call pf) initial_directory calls"

lemma directory_reachable: "directory_ok (directory_after pf calls)"
  unfolding directory_after_def by (rule directory_system.always)

lemma reachable_schema: "schema_ok (directory_after pf calls)"
  unfolding directory_after_def by (rule schema_system.always)

text \<open>C29. In every reachable directory an environment that is moving is held by one movement from its own runtime in its
  own generation, every movement that has not been activated or given up holds its environment, an environment has
  at most one open movement, and no provisioner works on an environment while it moves.\<close>

theorem moving_is_exclusive: "directory_ok (foldl (perform_call pf) initial_directory calls)"
  by (rule directory_system.always)


text \<open>C30. No call takes an environment out of the directory, renames it, or lowers its routing generation; and the
  only call that places it on another runtime is the activation of its own verified movement, while the customer is
  entitled, and then in the next generation.\<close>

theorem placement_changes:
  "list_all (\<lambda>e. list_ex (evolves (directory_after pf calls) c e) (d_environments (perform_call pf (directory_after pf calls) c)))
     (d_environments (directory_after pf calls))"
  using call_evolves [OF directory_reachable reachable_schema] by (fastforce simp: list_all_iff list_ex_iff)

text \<open>What stands behind a grant.\<close>

definition grant_backed :: "directory \<Rightarrow> identity_claims \<Rightarrow> placement_grant \<Rightarrow> bool" where
  "grant_backed d claims g \<longleftrightarrow>
     pg_sub g = ic_sub claims \<and>
     list_ex (\<lambda>e. ce_id e = pg_environmentId g \<and> ce_runtime_id e = pg_runtimeId g \<and> ce_routing_generation e = pg_routingGeneration g \<and>
       ce_database_name e = pg_databaseName g \<and> ce_desired_state e = WantReady \<and> ce_observed_state e = IsReady) (d_environments d) \<and>
     list_ex (\<lambda>m. cm_environment_id m = pg_environmentId g \<and> cm_subject_id m = ic_sub claims \<and> cm_role m = pg_membershipRole g)
       (d_memberships d) \<and>
     membershipAllows (pg_membershipRole g) (pg_componentRef g) (pg_actions g) \<and>
     list_ex (\<lambda>c. cc_environment_id c = pg_environmentId g \<and> cc_component_ref c = pg_componentRef g \<and> cc_observed_state c = IsReady)
       (d_components d) \<and>
     \<not> list_ex (\<lambda>m. mv_environment_id m = pg_environmentId g \<and> held_phase (mv_phase m)) (d_movements d)"

lemma authorization_rowsD:
  "(e, m, c) \<in> set (authorization_rows i subject component d) \<Longrightarrow>
    e \<in> set (d_environments d) \<and> ce_id e = i \<and> m \<in> set (d_memberships d) \<and> cm_environment_id m = i \<and> cm_subject_id m = subject \<and>
    c \<in> set (d_components d) \<and> cc_environment_id c = i \<and> cc_component_ref c = component"
  by (auto simp: authorization_rows_def)

lemma not_moving:
  assumes ok: "directory_ok d" and e: "e \<in> set (d_environments d)" "ce_movement_id e = None"
  shows "\<not> list_ex (\<lambda>m. mv_environment_id m = ce_id e \<and> held_phase (mv_phase m)) (d_movements d)"
proof
  assume "list_ex (\<lambda>m. mv_environment_id m = ce_id e \<and> held_phase (mv_phase m)) (d_movements d)"
  then obtain m where m: "m \<in> set (d_movements d)" "mv_environment_id m = ce_id e" "held_phase (mv_phase m)" by (auto simp: list_ex_iff)
  obtain e' where "e' \<in> set (d_environments d)" "ce_id e' = ce_id e" "ce_movement_id e' = Some (mv_id m)"
    using held_moving [OF ok m(1,3)] m(2) by auto
  with unique_row [OF moves_unique(1) [OF ok] _ e(1)] e(2) show False by fastforce
qed


section \<open>Events are accepted once\<close>

lemma events_entitle [keeping]:
  "keeps (\<lambda>d. event \<in> set (d_events d)) (command (renew_environment environmentId ev))"
  "keeps (\<lambda>d. event \<in> set (d_events d)) (command (owner_membership environmentId subject))"
  "keeps (\<lambda>d. event \<in> set (d_events d)) (command (entitle_component environmentId desired g c))"
  "keeps (\<lambda>d. event \<in> set (d_events d)) (command (queue_entitled operation_id environmentId desired g now c))"
  "keeps (\<lambda>d. event \<in> set (d_events d)) (command (d_events_update (insert_or_nothing ee_eventId ev)))"
  "keeps (\<lambda>d. event \<in> set (d_events d)) (command (add_environment environmentId database runtime now ev))"
  by (rule keeps_command, simp add: renew_environment_def owner_membership_def entitle_component_def queue_entitled_def Let_def
      add_environment_def insert_on_conflict_def set_update_where)+

lemma events_acceptEntitlement: "keeps (\<lambda>d. event \<in> set (d_events d)) (acceptEntitlement defaults uuid fresh ids now ev)"
  unfolding acceptEntitlement_def entitle_environment_def place_entitled_def replay_check_def entitle_components_def by (intro keeping)

text \<open>Every other call leaves the events alone.\<close>

lemma events_frame [keeping]:
  "keeps (\<lambda>d. d_events d = evs) (command (mark_reconciling environmentId))"
  "keeps (\<lambda>d. d_events d = evs) (command (observe_component operation))"
  "keeps (\<lambda>d. d_events d = evs) (command (observe_environment environmentId))"
  "keeps (\<lambda>d. d_events d = evs) (command (fail_component operation message))"
  "keeps (\<lambda>d. d_events d = evs) (command (settle_operation instanceId operation status error))"
  "keeps (\<lambda>d. d_events d = evs) (command (take_lease instanceId lease now row))"
  "keeps (\<lambda>d. d_events d = evs) (requeue now operation_id ec)"
  "keeps (\<lambda>d. d_events d = evs) (command (supersede r))" "keeps (\<lambda>d. d_events d = evs) (command (d_movements_update f))"
  "keeps (\<lambda>d. d_events d = evs) (command (d_runtimes_update g))" "keeps (\<lambda>d. d_events d = evs) (command (d_default_runtime_update h))"
  "keeps (\<lambda>d. d_events d = evs) (command (hold_environment environmentId movementId))"
  "keeps (\<lambda>d. d_events d = evs) (command (publish_placement i returning m))"
  "keeps (\<lambda>d. d_events d = evs) (command (close_movement i evidence))"
  "keeps (\<lambda>d. d_events d = evs) (place_verified environmentId g1 c u)"
  by (simp_all add: keeps_def mark_reconciling_def observe_component_def observe_environment_def fail_component_def settle_operation_def
      take_lease_def requeue_def Let_def supersede_def hold_environment_def publish_placement_def close_movement_def
      place_verified_def place_component_def bind_io_def lift_def command_def split: sum.split)

lemma events_call:
  assumes "event \<in> set (d_events d)"
  shows "event \<in> set (d_events (perform_call pf d c))"
proof -
  let ?K = "\<lambda>d'. d_events d' = d_events d"
  have provision: "keeps ?K (reconcile_runtime restore ids now runtime)" "keeps ?K (claim instanceId runtime lease now)"
      "keeps ?K (finish_operation instanceId runtime operation)" "keeps ?K (fail_operation instanceId runtime operation error)"
    for restore ids now runtime instanceId lease operation error
    unfolding reconcile_runtime_def queueCustomerReconciliation_def claim_def finish_operation_def fail_operation_def Let_def
    by (intro keeping; auto split: list.split prod.split intro!: keeping)+
  have move: "keeps ?K (beginMovement fresh input)" "keeps ?K (advance i origin target evidence)"
      "keeps ?K (requestReturn i)" "keeps ?K (registerRuntime runtime sha)" "keeps ?K (selectDefaultRuntime ck runtime sha catalog)"
    for fresh input i origin target evidence runtime sha ck catalog
    unfolding beginMovement_def prepare_rollback_def insert_movement_def advance_def requestReturn_def registerRuntime_def
      selectDefaultRuntime_def Let_def
    by (intro keeping)+
  have activate: "keeps ?K (activate i evidence)" for i evidence
    unfolding activate_def read_movement_def place_components_def Let_def
    by (intro keeping; auto split: list.split option.split json.split intro!: keeping)
  show ?thesis
    using assms keepsD [OF events_acceptEntitlement]
    by (cases c) (simp_all add: keepsD [OF provision(1)] keepsD [OF provision(2)] keepsD [OF provision(3)] keepsD [OF provision(4)]
      keepsD [OF move(1)] keepsD [OF move(2)] keepsD [OF move(3)] keepsD [OF move(4)] keepsD [OF move(5)] keepsD [OF activate]
      record_heartbeat_def)
qed

definition named :: "string \<Rightarrow> string \<Rightarrow> directory \<Rightarrow> bool" where
  "named name i d \<longleftrightarrow> (\<exists>e\<in>set (d_environments d). ce_purchased_name e = name \<and> ce_id e = i)"

lemma named_call:
  assumes "directory_ok d" "schema_ok d" "named name i d"
  shows "named name i (perform_call pf d c)"
proof -
  obtain e where e: "e \<in> set (d_environments d)" "ce_purchased_name e = name" "ce_id e = i" using assms(3) by (auto simp: named_def)
  from call_evolves [OF assms(1,2) e(1), where c = c and pf = pf] e(2,3) show ?thesis
    by (auto simp: named_def evolves_def same_environment_def)
qed

lemma recorded_calls:
  assumes "directory_ok d" "schema_ok d" "event \<in> set (d_events d)" "named name i d"
  shows "schema_ok (foldl (perform_call pf) d cs) \<and> event \<in> set (d_events (foldl (perform_call pf) d cs)) \<and> named name i (foldl (perform_call pf) d cs)"
  using assms
proof (induction cs arbitrary: d)
  case (Cons c cs)
  show ?case
    using Cons.IH [OF call_ok [OF Cons.prems(1)] schema_perform [OF Cons.prems(2)] events_call [OF Cons.prems(3)]
      named_call [OF Cons.prems(1,2,4)]] by simp
qed simp

text \<open>An accepted event is recorded, and its environment has its name.\<close>

lemma first_named:
  assumes "unique ce_purchased_name (d_environments d)" "named name i d"
  shows "\<exists>e. first_row (\<lambda>e. ce_purchased_name e = name) (d_environments d) = Some e \<and> ce_id e = i"
proof -
  obtain e where e: "e \<in> set (d_environments d)" "ce_purchased_name e = name" "ce_id e = i" using assms(2) by (auto simp: named_def)
  from unique_first [OF assms(1) e(1)] e(2,3) show ?thesis by simp
qed

lemma replayed:
  assumes schema: "schema_ok d" and event: "event \<in> set (d_events d)" and name: "named (ee_purchasedName event) i d"
  shows "acceptEntitlement defaults uuid fresh ids now event d = (Inr (i, True), d)"
proof -
  have seen: "list_ex (\<lambda>e. ee_eventId e = ee_eventId event) (d_events d)" using event by (auto simp: list_ex_iff)
  then have kept: "d_events_update (insert_or_nothing ee_eventId event) d = d"
    by (simp add: insert_on_conflict_def update_where_def)
  have first: "first_row (\<lambda>e. ee_eventId e = ee_eventId event) (d_events d) = Some event"
    by (rule unique_first [OF _ event]) (use schema in \<open>simp add: schema_ok_def\<close>)
  obtain e where "first_row (\<lambda>e. ce_purchased_name e = ee_purchasedName event) (d_environments d) = Some e" "ce_id e = i"
    using first_named [OF _ name] schema by (auto simp: schema_ok_def)
  moreover have "replay_check event d = (Inr (), d)" using first by (simp add: replay_check_def)
  ultimately show ?thesis
    using seen kept by (simp add: acceptEntitlement_def transaction_def bind_io_def [of "replay_check event"])
qed

text \<open>The commands after the environment is there keep the event and the name.\<close>

definition recorded :: "entitlement_event \<Rightarrow> string \<Rightarrow> directory \<Rightarrow> bool" where
  "recorded event i d \<longleftrightarrow> event \<in> set (d_events d) \<and> named (ee_purchasedName event) i d"

lemma recorded_entitle [keeping]:
  "keeps (recorded event i) (command (owner_membership environmentId subject))"
  "keeps (recorded event i) (command (entitle_component environmentId desired g c))"
  "keeps (recorded event i) (command (queue_entitled operation_id environmentId desired g now c))"
  by (rule keeps_command, simp add: recorded_def named_def owner_membership_def entitle_component_def queue_entitled_def Let_def)+

lemma recorded_components: "keeps (recorded event i) (entitle_components ids environmentId desired g now components)"
  unfolding entitle_components_def by (intro keeping)

lemma named_renewed: "named name i d \<Longrightarrow> named name i (renew_environment environmentId event d)"
proof -
  assume "named name i d"
  then obtain e where e: "e \<in> set (d_environments d)" "ce_purchased_name e = name" "ce_id e = i" by (auto simp: named_def)
  from keepsD [OF settled_entitle(1), of e d environmentId event] e show ?thesis
    by (auto simp: settled_def named_def same_environment_def)
qed

lemma accepted_recorded:
  assumes "schema_ok d" "acceptEntitlement defaults uuid fresh ids now event d = (Inr (i, r), d')"
  shows "recorded event i d'"
proof (cases "list_ex (\<lambda>e. ee_eventId e = ee_eventId event) (d_events d)")
  case True
  let ?d = "d_events_update (insert_or_nothing ee_eventId event) d"
  have same: "?d = d" using True by (simp add: insert_on_conflict_def update_where_def)
  have "\<exists>e. d' = d \<and> first_row (\<lambda>e. ce_purchased_name e = ee_purchasedName event) (d_environments d) = Some e \<and> i = ce_id e \<and>
      first_row (\<lambda>e. ee_eventId e = ee_eventId event) (d_events d) = Some event"
    using assms(2) True same by (auto simp: acceptEntitlement_def replay_check_def bind_io_Inr split: option.splits if_splits)
  then show ?thesis by (auto simp: recorded_def named_def dest!: first_rowD)
next
  case False
  let ?d = "d_events_update (\<lambda>rows. rows @ [event]) d"
  have step: "d_events_update (insert_or_nothing ee_eventId event) d = ?d"
    using False by (simp add: insert_on_conflict_def)
  let ?existing = "first_row (\<lambda>e. ce_purchased_name e = ee_purchasedName event) (d_environments d)"
  obtain placement present environmentId where
      run: "entitle_environment defaults uuid ids now event present environmentId placement ?d = (Inr (i, r), d')"
    and there: "placement = None \<longrightarrow> named (ee_purchasedName event) environmentId ?d"
  proof (cases ?existing)
    case None
    with assms(2) False step show ?thesis
      by (intro that [of False fresh "default_placement ?d"]) (auto simp: acceptEntitlement_def bind_io_Inr split: if_splits)
  next
    case (Some e)
    with assms(2) False step show ?thesis
      by (intro that [of True "ce_id e" None]) (auto simp: acceptEntitlement_def named_def dest!: first_rowD)
  qed
  obtain d1 g components where placed: "place_entitled uuid environmentId placement now event ?d = (Inr (), d1)" and i: "environmentId = i"
    and d': "entitle_components ids i (desired_of (ee_eventType event)) g now components (owner_membership i (ee_subjectId event) d1) = (Inr (), d')"
    using run by (auto simp: entitle_environment_def bind_io_Inr split: option.splits if_splits)
  have d1: "recorded event i d1"
  proof (cases placement)
    case None
    with placed i have "d1 = renew_environment i event ?d" by (simp add: place_entitled_def)
    with there None i named_renewed [of _ i ?d] show ?thesis by (simp add: recorded_def renew_environment_def)
  next
    case (Some p)
    with placed i obtain database where "d1 = add_environment i database (cr_id p) now event ?d"
      by (auto simp: place_entitled_def bind_io_Inr lift_def split: if_splits)
    then show ?thesis by (simp add: recorded_def named_def add_environment_def)
  qed
  have "recorded event i (owner_membership i (ee_subjectId event) d1)"
    using keepsD [OF recorded_entitle(1) d1] by simp
  from keepsD [OF recorded_components this] d' show ?thesis by (metis snd_conv)
qed


end
