(* ===== verification/Resume.thy ===== *)
theory Resume
  imports Directory_Run
begin

text \<open>
  \<open>resumeMovement\<close> of services/platform-provisioner/src/movement.ts: the controller that drives a movement through its
  phases.  Its driver is a port.  Between any two of its steps others may call the directory and its own lock may be lost:
  the world carries the interference of every await.
\<close>

section \<open>The world of a controller\<close>

datatype move_event =
    Fencing located_movement
  | Copying located_movement
  | Verifying located_movement
  | Checking located_movement
  | AfterActivation located_movement
  | Observing located_movement
  | Handing_back located_movement
  | Advanced movement_phase
  | Published bool

text \<open>The interference of an await: the calls of others, and whether the connection with the advisory lock was lost.\<close>

record 'x controller_world =
  w_directory :: directory
  w_external :: 'x
  w_interference :: "(directory_call list \<times> bool) list"
  w_lost :: bool
  w_events :: "move_event list"

text \<open>The driver: every method may look at the signal.\<close>

record 'x driver =
  dr_returnToSource :: "(located_movement \<Rightarrow> bool \<Rightarrow> ('x, json_record) io) option"
  dr_fence :: "located_movement \<Rightarrow> bool \<Rightarrow> ('x, json_record) io"
  dr_copy :: "located_movement \<Rightarrow> bool \<Rightarrow> ('x, json_record) io"
  dr_verify :: "located_movement \<Rightarrow> bool \<Rightarrow> ('x, json_record) io"
  dr_beforeActivate :: "located_movement \<Rightarrow> bool \<Rightarrow> ('x, unit) io"
  dr_afterActivate :: "(located_movement \<Rightarrow> bool \<Rightarrow> ('x, unit) io) option"
  dr_observe :: "located_movement \<Rightarrow> bool \<Rightarrow> ('x, json_record) io"

definition interfere :: "platform \<Rightarrow> string \<Rightarrow> 'x controller_world \<Rightarrow> 'x controller_world" where
  "interfere pf movementId w =
     (case w_interference w of
        [] \<Rightarrow> w
      | (calls, lost) # rest \<Rightarrow>
          (let d = foldl (perform_call pf) (w_directory w) calls in
           w\<lparr>w_directory := (if lost then d_controllers_update (filter (\<lambda>l. l \<noteq> movementId)) d else d),
             w_interference := rest, w_lost := w_lost w \<or> lost\<rparr>))"

text \<open>A statement of the store, and a call of the driver; both are awaits.\<close>

definition on_directory :: "platform \<Rightarrow> string \<Rightarrow> (directory, 'a) io \<Rightarrow> ('x controller_world, 'a) io" where
  "on_directory pf movementId m = (\<lambda>w. let w1 = interfere pf movementId w in
     case m (w_directory w1) of (r, d) \<Rightarrow> (r, w1\<lparr>w_directory := d\<rparr>))"

definition ask_driver :: "platform \<Rightarrow> string \<Rightarrow> move_event \<Rightarrow> (bool \<Rightarrow> ('x, 'a) io) \<Rightarrow> ('x controller_world, 'a) io" where
  "ask_driver pf movementId event f = (\<lambda>w.
     case f (w_lost w) (w_external w) of (r, x) \<Rightarrow>
       (r, interfere pf movementId (w\<lparr>w_external := x, w_events := w_events w @ [event]\<rparr>)))"

definition note_event :: "move_event \<Rightarrow> ('x controller_world, unit) io" where
  "note_event event = (\<lambda>w. (Inr (), w\<lparr>w_events := w_events w @ [event]\<rparr>))"

text \<open>\<open>signal.throwIfAborted()\<close>.\<close>

definition throwIfAborted :: "('x controller_world, unit) io" where
  "throwIfAborted = (\<lambda>w. (if w_lost w then Inl (Err ''movement controller lost its directory lock'') else Inr (), w))"

section \<open>The controller\<close>

text \<open>One step from a phase to the next: ask the driver, look at the signal, advance with its evidence.\<close>

definition advance_with ::
    "platform \<Rightarrow> string \<Rightarrow> move_event \<Rightarrow> (bool \<Rightarrow> ('x, json_record) io) \<Rightarrow> movement_phase \<Rightarrow> movement_phase \<Rightarrow> ('x controller_world, unit) io" where
  "advance_with pf movementId event f origin target =
     bind_io (ask_driver pf movementId event f) (\<lambda>evidence.
     bind_io throwIfAborted (\<lambda>_.
     bind_io (on_directory pf movementId (advance movementId origin target evidence)) (\<lambda>_.
     note_event (Advanced target))))"

definition activate_with :: "platform \<Rightarrow> string \<Rightarrow> json_record option \<Rightarrow> ('x controller_world, unit) io" where
  "activate_with pf movementId evidence =
     bind_io throwIfAborted (\<lambda>_.
     bind_io (on_directory pf movementId (activate movementId evidence)) (\<lambda>_.
     note_event (Published (evidence \<noteq> None))))"

definition settled_phase :: "movement_phase \<Rightarrow> bool" where
  "settled_phase p \<longleftrightarrow> p \<in> {MoveCompleted, MoveCancelled, Superseded}"

text \<open>The body of the loop for a movement that was read.\<close>

definition drive :: "platform \<Rightarrow> 'x driver \<Rightarrow> string \<Rightarrow> located_movement \<Rightarrow> ('x controller_world, unit) io" where
  "drive pf driver movementId m =
     (case mv_phase m of
        Paused \<Rightarrow> advance_with pf movementId (Fencing m) (dr_fence driver m) Paused Fenced
      | Fenced \<Rightarrow> advance_with pf movementId (Copying m) (dr_copy driver m) Fenced Copied
      | Copied \<Rightarrow> advance_with pf movementId (Verifying m) (dr_verify driver m) Copied Verified
      | Verified \<Rightarrow>
          bind_io (ask_driver pf movementId (Checking m) (dr_beforeActivate driver m)) (\<lambda>_. activate_with pf movementId None)
      | Activated \<Rightarrow>
          bind_io (case dr_afterActivate driver of
              None \<Rightarrow> return ()
            | Some f \<Rightarrow> ask_driver pf movementId (AfterActivation m) (f m)) (\<lambda>_.
          bind_io throwIfAborted (\<lambda>_.
          advance_with pf movementId (Observing m) (dr_observe driver m) Activated MoveCompleted))
      | Returning \<Rightarrow>
          (case dr_returnToSource driver of
             None \<Rightarrow> throw (Err ''this driver cannot return to the source'')
           | Some f \<Rightarrow>
               bind_io (ask_driver pf movementId (Handing_back m) (f m)) (\<lambda>evidence. activate_with pf movementId (Some evidence)))
      | _ \<Rightarrow> return ())"

text \<open>\<open>for (;;)\<close>, with fuel: \<open>None\<close> is a loop that has not ended.\<close>

fun resume_loop :: "nat \<Rightarrow> platform \<Rightarrow> 'x driver \<Rightarrow> string \<Rightarrow> 'x controller_world \<Rightarrow> (located_movement res \<times> 'x controller_world) option" where
  "resume_loop 0 pf driver movementId w = None"
| "resume_loop (Suc n) pf driver movementId w =
     (case bind_io throwIfAborted (\<lambda>_. on_directory pf movementId (read_movement movementId)) w of
        (Inl e, w1) \<Rightarrow> Some (Inl e, w1)
      | (Inr m, w1) \<Rightarrow>
          if settled_phase (mv_phase m) then Some (Inr m, w1)
          else (case drive pf driver movementId m w1 of
              (Inl e, w2) \<Rightarrow> Some (Inl e, w2)
            | (Inr _, w2) \<Rightarrow> resume_loop n pf driver movementId w2))"

text \<open>\<open>exclusive\<close>: the advisory lock of the session, given up at the end unless it was lost with the connection.\<close>

definition claim_lock :: "string \<Rightarrow> (directory, unit) io" where
  "claim_lock movementId =
     bind_io (select (\<lambda>d. movementId \<in> set (d_controllers d))) (\<lambda>taken.
     bind_io (refuse_if taken ''another controller owns this movement'') (\<lambda>_.
     command (d_controllers_update (\<lambda>locks. locks @ [movementId]))))"

definition release_lock :: "string \<Rightarrow> 'x controller_world \<Rightarrow> 'x controller_world" where
  "release_lock movementId w =
     (if w_lost w then w
      else w\<lparr>w_directory := d_controllers_update (filter (\<lambda>l. l \<noteq> movementId)) (w_directory w)\<rparr>)"

definition request_return :: "platform \<Rightarrow> 'x driver \<Rightarrow> string \<Rightarrow> bool \<Rightarrow> ('x controller_world, unit) io" where
  "request_return pf driver movementId returnToSource =
     (if returnToSource then
        (case dr_returnToSource driver of
           None \<Rightarrow> throw (Err ''this driver cannot return to the source'')
         | Some _ \<Rightarrow> on_directory pf movementId (requestReturn movementId))
      else return ())"

definition resumeMovement ::
    "nat \<Rightarrow> platform \<Rightarrow> 'x driver \<Rightarrow> string \<Rightarrow> bool \<Rightarrow> 'x controller_world \<Rightarrow> (located_movement res \<times> 'x controller_world) option" where
  "resumeMovement n pf driver movementId returnToSource w =
     (case on_directory pf movementId (claim_lock movementId) w of
        (Inl e, w1) \<Rightarrow> Some (Inl e, w1)
      | (Inr _, w1) \<Rightarrow>
          map_option (map_prod id (release_lock movementId))
            (case request_return pf driver movementId returnToSource w1 of
               (Inl e, w2) \<Rightarrow> Some (Inl e, w2)
             | (Inr _, w2) \<Rightarrow> resume_loop n pf driver movementId w2))"

section \<open>Phases only go forward\<close>

fun rank :: "movement_phase \<Rightarrow> nat" where
  "rank Paused = 0"
| "rank Fenced = 1"
| "rank Copied = 2"
| "rank Verified = 3"
| "rank Returning = 4"
| "rank Activated = 4"
| "rank MoveCompleted = 5"
| "rank MoveCancelled = 5"
| "rank Superseded = 5"

lemma rank_le: "rank p \<le> 5"
  by (cases p) simp_all

lemma successor_rank: "successor p = Some q \<Longrightarrow> rank p < rank q"
  by (cases p) auto

definition at_rank :: "string \<Rightarrow> nat \<Rightarrow> directory \<Rightarrow> bool" where
  "at_rank i k d \<longleftrightarrow> (\<exists>m\<in>set (d_movements d). mv_id m = i \<and> k \<le> rank (mv_phase m))"

lemma at_rank_update:
  assumes "at_rank i k d" "\<And>m. m \<in> set (d_movements d) \<Longrightarrow> P m \<Longrightarrow> mv_id (f m) = mv_id m \<and> rank (mv_phase m) \<le> rank (mv_phase (f m))"
    and "d_movements d' = update_where P f (d_movements d)"
  shows "at_rank i k d'"
proof -
  obtain m where m: "m \<in> set (d_movements d)" "mv_id m = i" "k \<le> rank (mv_phase m)" using assms(1) by (auto simp: at_rank_def)
  have "(if P m then f m else m) \<in> set (d_movements d')" using m(1) by (simp add: assms(3) set_update_where)
  moreover have "mv_id (if P m then f m else m) = i \<and> k \<le> rank (mv_phase (if P m then f m else m))"
    using m assms(2) [OF m(1)] by (auto intro: le_trans)
  ultimately show ?thesis unfolding at_rank_def by blast
qed

lemma advanced_movements:
  "d_movements (snd (advance j origin target evidence d)) =
     (if successor origin = Some target
      then update_where (\<lambda>m. mv_id m = j \<and> mv_phase m = origin)
        (\<lambda>m. m\<lparr>mv_phase := target, mv_evidence := spread (mv_evidence m) evidence, mv_last_error := None\<rparr>) (d_movements d)
      else d_movements d)"
  by (simp add: advance_def)

lemma rank_advance:
  assumes "at_rank i k d"
  shows "at_rank i k (snd (advance j origin target evidence d))"
proof (cases "successor origin = Some target")
  case True
  show ?thesis
    by (rule at_rank_update [OF assms, where P = "\<lambda>m. mv_id m = j \<and> mv_phase m = origin" and
        f = "\<lambda>m. m\<lparr>mv_phase := target, mv_evidence := spread (mv_evidence m) evidence, mv_last_error := None\<rparr>"])
      (use successor_rank [OF True] True in \<open>simp_all add: advanced_movements\<close>)
next
  case False
  with assms show ?thesis by (simp add: advance_def)
qed

lemma rank_requestReturn: "at_rank i k d \<Longrightarrow> at_rank i k (snd (requestReturn j d))"
  by (rule at_rank_update [where P = "returnable j"]) (auto simp: requestReturn_def returnable_def)

lemma rank_supersede: "at_rank i k d \<Longrightarrow> at_rank i k (supersede r d)"
  by (rule at_rank_update [where P = "\<lambda>m. mv_id m = r \<and> mv_phase m = Activated"]) (auto simp: supersede_def)

lemma rank_begin:
  assumes rank: "at_rank i k d"
  shows "at_rank i k (snd (beginMovement fresh input d))"
proof (cases "fst (beginMovement fresh input d)")
  case (Inl err)
  then have "snd (beginMovement fresh input d) = d"
    by (auto simp: beginMovement_def Let_def transaction_def split: prod.splits sum.splits if_splits)
  with rank show ?thesis by simp
next
  case (Inr j)
  then obtain d' where d': "beginMovement fresh input d = (Inr j, d')" by (metis prod.collapse)
  show ?thesis
  proof (cases "d' = d")
    case False
    obtain d1 where d1: "prepare_rollback input d = (Inr (), d1)"
      and d'': "d' = hold_environment (mi_environmentId input) j (d_movements_update (\<lambda>rows. rows @ [new_movement j input]) d1)"
      by (rule begin_Inr [OF d' False])
    have "at_rank i k d1" using prepare_rollback_Inr [OF d1] rank rank_supersede by blast
    then show ?thesis unfolding d' d'' by (auto simp: at_rank_def hold_environment_def)
  qed (use rank d' in simp)
qed

text \<open>An activation succeeds from the phase it is for.\<close>

lemma activate_phase:
  assumes "directory_ok d" "activate i evidence d = (Inr u, d')" "m \<in> set (d_movements d)" "mv_id m = i"
  shows "mv_phase m = (if evidence \<noteq> None then Returning else Verified)"
proof -
  obtain row e mm where "list_ex (publishable i (evidence \<noteq> None) mm d) (d_environments d)"
    by (rule activate_Inr [OF assms(2)]) blast
  then obtain r where "r \<in> set (d_movements d)" "mv_id r = i" "mv_phase r = (if evidence \<noteq> None then Returning else Verified)"
    by (auto simp: list_ex_iff publishable_def)
  with unique_row [OF moves_unique(2) [OF assms(1)] assms(3)] assms(4) show ?thesis by metis
qed

lemma activated_movements:
  assumes "activate i evidence d = (Inr u, d')"
  shows "d_movements d' = update_where (\<lambda>m. mv_id m = i)
     (\<lambda>m. m\<lparr>mv_phase := (if evidence \<noteq> None then MoveCancelled else Activated),
       mv_evidence := spread (mv_evidence m) (case evidence of None \<Rightarrow> [] | Some evidence \<Rightarrow> evidence)\<rparr>) (d_movements d)"
  by (rule activate_Inr [OF assms]) (simp add: closed_movements)

lemma rank_activate:
  assumes ok: "directory_ok d" and rank: "at_rank i k d"
  shows "at_rank i k (snd (activate j evidence d))"
proof (cases "fst (activate j evidence d)")
  case (Inl err)
  then have "snd (activate j evidence d) = d"
    by (auto simp: activate_def transaction_def split: prod.splits sum.splits)
  with rank show ?thesis by simp
next
  case (Inr u)
  then obtain d' where d': "activate j evidence d = (Inr u, d')" by (metis prod.collapse)
  have "at_rank i k d'"
    by (rule at_rank_update [OF rank _ activated_movements [OF d']]) (use activate_phase [OF ok d'] in auto)
  then show ?thesis unfolding d' by simp
qed

text \<open>The other calls leave the movements alone.\<close>

lemma movements_frame [keeping]:
  "keeps (\<lambda>d. d_movements d = ms) (command (renew_environment environmentId ev))"
  "keeps (\<lambda>d. d_movements d = ms) (command (owner_membership environmentId subject))"
  "keeps (\<lambda>d. d_movements d = ms) (command (entitle_component environmentId desired g c))"
  "keeps (\<lambda>d. d_movements d = ms) (command (queue_entitled operation_id environmentId desired g now c))"
  "keeps (\<lambda>d. d_movements d = ms) (command (d_events_update f))"
  "keeps (\<lambda>d. d_movements d = ms) (command (add_environment environmentId database runtime now ev))"
  "keeps (\<lambda>d. d_movements d = ms) (command (mark_reconciling environmentId))"
  "keeps (\<lambda>d. d_movements d = ms) (command (observe_component operation))"
  "keeps (\<lambda>d. d_movements d = ms) (command (observe_environment environmentId))"
  "keeps (\<lambda>d. d_movements d = ms) (command (fail_component operation message))"
  "keeps (\<lambda>d. d_movements d = ms) (command (settle_operation instanceId operation status error))"
  "keeps (\<lambda>d. d_movements d = ms) (command (take_lease instanceId lease now row))"
  "keeps (\<lambda>d. d_movements d = ms) (requeue now operation_id ec)"
  "keeps (\<lambda>d. d_movements d = ms) (command (d_runtimes_update h))" "keeps (\<lambda>d. d_movements d = ms) (command (d_default_runtime_update k))"
  by (simp_all add: keeps_def renew_environment_def owner_membership_def entitle_component_def queue_entitled_def Let_def
      add_environment_def mark_reconciling_def observe_component_def observe_environment_def fail_component_def settle_operation_def
      take_lease_def requeue_def)

lemma rank_call:
  assumes ok: "directory_ok d" and rank: "at_rank i k d"
  shows "at_rank i k (perform_call pf d c)"
proof -
  let ?K = "\<lambda>d'. d_movements d' = d_movements d"
  have entitle: "keeps ?K (acceptEntitlement defaults uuid fresh ids now event)" for defaults uuid fresh ids now event
    unfolding acceptEntitlement_def entitle_environment_def place_entitled_def replay_check_def entitle_components_def by (intro keeping)
  have provision: "keeps ?K (reconcile_runtime restore ids now runtime)" "keeps ?K (claim instanceId runtime lease now)"
      "keeps ?K (finish_operation instanceId runtime operation)" "keeps ?K (fail_operation instanceId runtime operation error)"
    for restore ids now runtime instanceId lease operation error
    unfolding reconcile_runtime_def queueCustomerReconciliation_def claim_def finish_operation_def fail_operation_def Let_def
    by (intro keeping; auto split: list.split prod.split intro!: keeping)+
  have runtimes: "keeps ?K (registerRuntime runtime sha)" "keeps ?K (selectDefaultRuntime ck runtime sha catalog)"
    for runtime sha ck catalog
    unfolding registerRuntime_def selectDefaultRuntime_def Let_def by (intro keeping)+
  show ?thesis
    using ok rank
    by (cases c) (simp_all add: rank_advance rank_requestReturn rank_begin rank_activate,
      simp_all add: at_rank_def keepsD [OF entitle] keepsD [OF provision(1)] keepsD [OF provision(2)] keepsD [OF provision(3)]
        keepsD [OF provision(4)] keepsD [OF runtimes(1)] keepsD [OF runtimes(2)] record_heartbeat_def)
qed

lemma interference_kept:
  assumes "directory_ok (w_directory w)"
  shows "directory_ok (w_directory (interfere pf i w))" "at_rank j k (w_directory w) \<Longrightarrow> at_rank j k (w_directory (interfere pf i w))"
proof -
  have calls: "directory_ok (foldl (perform_call pf) d cs) \<and> (at_rank j k d \<longrightarrow> at_rank j k (foldl (perform_call pf) d cs))"
    if "directory_ok d" for d cs
    using that by (induction cs arbitrary: d) (simp_all add: call_ok rank_call)
  show "directory_ok (w_directory (interfere pf i w))" "at_rank j k (w_directory w) \<Longrightarrow> at_rank j k (w_directory (interfere pf i w))"
    using assms calls [OF assms] by (auto simp: interfere_def Let_def at_rank_def split: list.split prod.split)
qed

section \<open>The loop ends\<close>

abbreviation world_ok :: "'x controller_world \<Rightarrow> bool" where
  "world_ok w \<equiv> directory_ok (w_directory w)"

lemma at_rank_hit:
  assumes "m \<in> set ms" "P m" "mv_id (f m) = i" "k \<le> rank (mv_phase (f m))" "d_movements d = update_where P f ms"
  shows "at_rank i k d"
proof -
  have "f m \<in> set (d_movements d)" using assms(1,2) unfolding assms(5) by (auto simp: set_update_where)
  with assms(3,4) show ?thesis unfolding at_rank_def by blast
qed

lemma advance_raises:
  assumes "advance i origin target evidence d = (Inr u, d')"
  shows "successor origin = Some target" "at_rank i (Suc (rank origin)) d'"
proof -
  have found: "successor origin = Some target" "list_ex (\<lambda>m. mv_id m = i \<and> mv_phase m = origin) (d_movements d)"
    using assms by (auto simp: advance_def split: if_splits)
  then show "successor origin = Some target" by simp
  from found(2) obtain m where m: "m \<in> set (d_movements d)" "mv_id m = i" "mv_phase m = origin" by (auto simp: list_ex_iff)
  have "d_movements d' = update_where (\<lambda>m. mv_id m = i \<and> mv_phase m = origin)
        (\<lambda>m. m\<lparr>mv_phase := target, mv_evidence := spread (mv_evidence m) evidence, mv_last_error := None\<rparr>) (d_movements d)"
    using advanced_movements [of i origin target evidence d] assms found(1) by simp
  from at_rank_hit [OF m(1) _ _ _ this, of i "Suc (rank origin)"] m(2,3) successor_rank [OF found(1)]
  show "at_rank i (Suc (rank origin)) d'" by simp
qed

lemma activate_raises:
  assumes "directory_ok d" "activate i evidence d = (Inr u, d')"
  shows "at_rank i (Suc (rank (if evidence \<noteq> None then Returning else Verified))) d'"
proof -
  obtain row where "row \<in> set (d_movements d)" "mv_id row = i"
    by (rule activate_Inr [OF assms(2)]) blast
  then show ?thesis
    by (intro at_rank_hit [OF _ _ _ _ activated_movements [OF assms(2)], of row]) simp_all
qed

lemma on_directory_Inr:
  "on_directory pf i m w = (r, w') \<longleftrightarrow>
    (\<exists>d. m (w_directory (interfere pf i w)) = (r, d) \<and> w' = interfere pf i w\<lparr>w_directory := d\<rparr>)"
  by (auto simp: on_directory_def Let_def split: prod.splits)

lemma ask_driver_Inr:
  "ask_driver pf i event f w = (r, w') \<Longrightarrow>
    w_directory w' = w_directory (interfere pf i w) \<and> w_events w' = w_events w @ [event]"
  by (auto simp: ask_driver_def interfere_def Let_def split: prod.splits list.splits)

lemma throw_Inr [simp]: "throwIfAborted w = (Inr u, w') \<longleftrightarrow> w' = w \<and> \<not> w_lost w"
  by (auto simp: throwIfAborted_def)

lemma interfere_events [simp]: "w_events (interfere pf i w) = w_events w"
  by (simp add: interfere_def Let_def split: list.split prod.split)

lemma advance_with_Inr:
  assumes "world_ok w" "advance_with pf i event f origin target w = (Inr u, w')"
  shows "world_ok w'" "at_rank i (Suc (rank origin)) (w_directory w')" "successor origin = Some target"
    "w_events w' = w_events w @ [event, Advanced target]"
proof -
  obtain evidence w1 d where w1: "ask_driver pf i event f w = (Inr evidence, w1)"
    and d: "advance i origin target evidence (w_directory (interfere pf i w1)) = (Inr (), d)"
    and w': "w' = interfere pf i w1\<lparr>w_directory := d, w_events := w_events w1 @ [Advanced target]\<rparr>"
    using assms(2) by (auto simp: advance_with_def bind_io_Inr on_directory_Inr note_event_def)
  have "world_ok w1" using ask_driver_Inr [OF w1] interference_kept(1) [OF assms(1)] by simp
  then have "directory_ok (w_directory (interfere pf i w1))" by (rule interference_kept)
  from advance_ok [OF this, of i origin target evidence] d show "world_ok w'" by (simp add: w')
  show "at_rank i (Suc (rank origin)) (w_directory w')" using advance_raises(2) [OF d] by (simp add: w')
  show "successor origin = Some target" by (rule advance_raises(1) [OF d])
  show "w_events w' = w_events w @ [event, Advanced target]" using ask_driver_Inr [OF w1] by (simp add: w')
qed

lemma activate_with_Inr:
  assumes "world_ok w" "activate_with pf i evidence w = (Inr u, w')"
  shows "world_ok w'" "at_rank i (Suc (rank (if evidence \<noteq> None then Returning else Verified))) (w_directory w')"
    "w_events w' = w_events w @ [Published (evidence \<noteq> None)]"
proof -
  obtain d where d: "activate i evidence (w_directory (interfere pf i w)) = (Inr (), d)"
    and w': "w' = interfere pf i w\<lparr>w_directory := d, w_events := w_events w @ [Published (evidence \<noteq> None)]\<rparr>"
    using assms(2) by (auto simp: activate_with_def bind_io_Inr on_directory_Inr note_event_def)
  have ok: "directory_ok (w_directory (interfere pf i w))" by (rule interference_kept [OF assms(1)])
  from activate_ok [OF ok, of i evidence] d show "world_ok w'" by (simp add: w')
  show "at_rank i (Suc (rank (if evidence \<noteq> None then Returning else Verified))) (w_directory w')"
    using activate_raises [OF ok d] by (simp add: w')
  show "w_events w' = w_events w @ [Published (evidence \<noteq> None)]" by (simp add: w')
qed

text \<open>The events of one pass of the loop over a movement.\<close>

definition pass_events :: "'x driver \<Rightarrow> located_movement \<Rightarrow> move_event list" where
  "pass_events driver m =
     (case mv_phase m of
        Paused \<Rightarrow> [Fencing m, Advanced Fenced]
      | Fenced \<Rightarrow> [Copying m, Advanced Copied]
      | Copied \<Rightarrow> [Verifying m, Advanced Verified]
      | Verified \<Rightarrow> [Checking m, Published False]
      | Returning \<Rightarrow> [Handing_back m, Published True]
      | Activated \<Rightarrow> (if dr_afterActivate driver = None then [] else [AfterActivation m]) @ [Observing m, Advanced MoveCompleted]
      | _ \<Rightarrow> [])"

lemma drive_Inr:
  assumes ok: "world_ok w" and run: "drive pf driver i m w = (Inr u, w')" and unsettled: "\<not> settled_phase (mv_phase m)"
  shows "world_ok w' \<and> at_rank i (Suc (rank (mv_phase m))) (w_directory w') \<and> w_events w' = w_events w @ pass_events driver m"
proof (cases "mv_phase m")
  case Verified
  with run obtain w1 where w1: "ask_driver pf i (Checking m) (dr_beforeActivate driver m) w = (Inr (), w1)"
    and w': "activate_with pf i None w1 = (Inr u, w')"
    by (auto simp: drive_def bind_io_Inr)
  have "world_ok w1" using ask_driver_Inr [OF w1] interference_kept(1) [OF ok] by simp
  from activate_with_Inr [OF this w'] ask_driver_Inr [OF w1] Verified show ?thesis by (simp add: pass_events_def)
next
  case Returning
  with run obtain f evidence w1 where w1: "ask_driver pf i (Handing_back m) (f m) w = (Inr evidence, w1)"
    and w': "activate_with pf i (Some evidence) w1 = (Inr u, w')"
    by (auto simp: drive_def bind_io_Inr split: option.splits)
  have "world_ok w1" using ask_driver_Inr [OF w1] interference_kept(1) [OF ok] by simp
  from activate_with_Inr [OF this w'] ask_driver_Inr [OF w1] Returning show ?thesis by (simp add: pass_events_def)
next
  case Activated
  show ?thesis
  proof (cases "dr_afterActivate driver")
    case None
    with run Activated have "advance_with pf i (Observing m) (dr_observe driver m) Activated MoveCompleted w = (Inr u, w')"
      by (auto simp: drive_def bind_io_Inr)
    from advance_with_Inr [OF ok this] Activated None show ?thesis by (simp add: pass_events_def)
  next
    case (Some f)
    with run Activated obtain w1 where w1: "ask_driver pf i (AfterActivation m) (f m) w = (Inr (), w1)"
      and w': "advance_with pf i (Observing m) (dr_observe driver m) Activated MoveCompleted w1 = (Inr u, w')"
      by (auto simp: drive_def bind_io_Inr)
    have "world_ok w1" using ask_driver_Inr [OF w1] interference_kept(1) [OF ok] by simp
    from advance_with_Inr [OF this w'] ask_driver_Inr [OF w1] Activated Some show ?thesis by (simp add: pass_events_def)
  qed
next
  case Paused
  with run have "advance_with pf i (Fencing m) (dr_fence driver m) Paused Fenced w = (Inr u, w')" by (simp add: drive_def)
  from advance_with_Inr [OF ok this] Paused show ?thesis by (simp add: pass_events_def)
next
  case Fenced
  with run have "advance_with pf i (Copying m) (dr_copy driver m) Fenced Copied w = (Inr u, w')" by (simp add: drive_def)
  from advance_with_Inr [OF ok this] Fenced show ?thesis by (simp add: pass_events_def)
next
  case Copied
  with run have "advance_with pf i (Verifying m) (dr_verify driver m) Copied Verified w = (Inr u, w')" by (simp add: drive_def)
  from advance_with_Inr [OF ok this] Copied show ?thesis by (simp add: pass_events_def)
qed (use unsettled in \<open>simp_all add: settled_phase_def\<close>)

text \<open>What the loop reads.\<close>

lemma loop_reads:
  assumes ok: "world_ok w" and run: "bind_io throwIfAborted (\<lambda>_. on_directory pf i (read_movement i)) w = (Inr m, w1)"
  shows "world_ok w1" "w_events w1 = w_events w" "\<not> w_lost w" "at_rank i k (w_directory w) \<Longrightarrow> k \<le> rank (mv_phase m)"
proof -
  let ?d = "w_directory (interfere pf i w)"
  obtain d where d: "read_movement i ?d = (Inr m, d)" "w1 = interfere pf i w\<lparr>w_directory := d\<rparr>" and "\<not> w_lost w"
    using run by (auto simp: bind_io_Inr on_directory_Inr)
  then show "\<not> w_lost w" by simp
  have ok': "directory_ok ?d" by (rule interference_kept [OF ok])
  obtain row e where row: "d = ?d" "row \<in> set (d_movements ?d)" "mv_id row = i" "m = locate row e"
    using read_Inr [OF d(1)] by blast
  show "world_ok w1" using ok' by (simp add: d(2) row(1))
  show "w_events w1 = w_events w" by (simp add: d(2))
  show "k \<le> rank (mv_phase m)" if at: "at_rank i k (w_directory w)"
  proof -
    obtain r where "r \<in> set (d_movements ?d)" "mv_id r = i" "k \<le> rank (mv_phase r)"
      using interference_kept(2) [OF ok at, of pf i] unfolding at_rank_def by blast
    with unique_row [OF moves_unique(2) [OF ok'] _ row(2)] row(3,4) show ?thesis by (metis locate_simps(7))
  qed
qed

lemma loop_ends:
  assumes "world_ok w" "k = 0 \<or> at_rank i k (w_directory w)" "6 \<le> k + n"
  shows "\<exists>r w'. resume_loop n pf driver i w = Some (r, w')"
  using assms
proof (induction n arbitrary: w k)
  case 0
  then have "at_rank i k (w_directory w)" by auto
  then obtain m where "m \<in> set (d_movements (w_directory w))" "k \<le> rank (mv_phase m)" unfolding at_rank_def by blast
  with 0 rank_le [of "mv_phase m"] show ?case by simp
next
  case (Suc n)
  obtain r w1 where read: "bind_io throwIfAborted (\<lambda>_. on_directory pf i (read_movement i)) w = (r, w1)" by (meson surj_pair)
  show ?case
  proof (cases r)
    case (Inr m)
    note reads = loop_reads [OF Suc.prems(1) read [unfolded Inr]]
    show ?thesis
    proof (cases "settled_phase (mv_phase m)")
      case False
      obtain r2 w2 where step: "drive pf driver i m w1 = (r2, w2)" by (meson surj_pair)
      show ?thesis
      proof (cases r2)
        case (Inr u)
        note raised = drive_Inr [OF reads(1) step [unfolded Inr] False]
        have "k \<le> rank (mv_phase m)" using Suc.prems(2) reads(4) by auto
        then have "\<exists>r w'. resume_loop n pf driver i w2 = Some (r, w')"
          using Suc.prems(3) raised by (intro Suc.IH [of _ "Suc (rank (mv_phase m))"]) auto
        then show ?thesis using read step False \<open>r = Inr m\<close> Inr by simp
      qed (use read step False Inr in simp)
    qed (use read Inr in simp)
  qed (use read in simp)
qed

section \<open>The order of the driver's calls\<close>

text \<open>The protocol: a pass is for a movement in a phase of the rank reached or a higher one; every call of the driver is followed by its
  write.  \<open>Asked\<close> is a call that was answered, with the write it must be followed by.\<close>

datatype move_state = Idle nat | After_activation nat | Asked move_event nat

fun move_step :: "move_state \<Rightarrow> move_event \<Rightarrow> move_state option" where
  "move_step (Idle k) (Fencing m) = (if mv_phase m = Paused \<and> k \<le> 0 then Some (Asked (Advanced Fenced) 1) else None)"
| "move_step (Idle k) (Copying m) = (if mv_phase m = Fenced \<and> k \<le> 1 then Some (Asked (Advanced Copied) 2) else None)"
| "move_step (Idle k) (Verifying m) = (if mv_phase m = Copied \<and> k \<le> 2 then Some (Asked (Advanced Verified) 3) else None)"
| "move_step (Idle k) (Checking m) = (if mv_phase m = Verified \<and> k \<le> 3 then Some (Asked (Published False) 4) else None)"
| "move_step (Idle k) (Handing_back m) = (if mv_phase m = Returning \<and> k \<le> 4 then Some (Asked (Published True) 5) else None)"
| "move_step (Idle k) (AfterActivation m) = (if mv_phase m = Activated \<and> k \<le> 4 then Some (After_activation k) else None)"
| "move_step (Idle k) (Observing m) = (if mv_phase m = Activated \<and> k \<le> 4 then Some (Asked (Advanced MoveCompleted) 5) else None)"
| "move_step (After_activation k) (Observing m) = (if mv_phase m = Activated then Some (Asked (Advanced MoveCompleted) 5) else None)"
| "move_step (Asked event k) event' = (if event' = event then Some (Idle k) else None)"
| "move_step s e = None"

lemma pass_follows:
  "\<not> settled_phase (mv_phase m) \<Longrightarrow> k \<le> rank (mv_phase m) \<Longrightarrow>
    follow move_step (Idle k) (pass_events driver m) = Some (Idle (Suc (rank (mv_phase m))))"
  by (cases "mv_phase m") (simp_all add: pass_events_def settled_phase_def)

text \<open>A pass that throws has made the calls of a beginning of its events.\<close>

definition follows :: "nat \<Rightarrow> move_event list \<Rightarrow> bool" where
  "follows k events \<longleftrightarrow> follow move_step (Idle k) events \<noteq> None"

lemma follows_prefix: "follows k (xs @ ys) \<Longrightarrow> follows k xs"
  by (auto simp: follows_def follow_append split: option.splits)

lemma ask_driver_events: "ask_driver pf i event f w = (r, w') \<Longrightarrow> w_events w' = w_events w @ [event]"
  using ask_driver_Inr by blast

lemma advance_with_events:
  "advance_with pf i event f origin target w = (r, w') \<Longrightarrow>
    w_events w' = w_events w @ [event] \<or> w_events w' = w_events w @ [event, Advanced target]"
  unfolding advance_with_def
  by (cases "ask_driver pf i event f w")
    (auto simp: bind_io_def throwIfAborted_def on_directory_def Let_def note_event_def dest!: ask_driver_events split: sum.splits prod.splits if_splits)

lemma activate_with_events:
  "activate_with pf i evidence w = (r, w') \<Longrightarrow> w_events w' = w_events w \<or> w_events w' = w_events w @ [Published (evidence \<noteq> None)]"
  unfolding activate_with_def
  by (auto simp: bind_io_def throwIfAborted_def on_directory_def Let_def note_event_def split: sum.splits prod.splits if_splits)

lemma drive_events:
  assumes run: "drive pf driver i m w = (r, w')" and unsettled: "\<not> settled_phase (mv_phase m)"
  shows "\<exists>done_events rest. pass_events driver m = done_events @ rest \<and> w_events w' = w_events w @ done_events"
proof -
  have advance: "\<exists>rest. pass_events driver m = done_events @ rest"
    if "pass_events driver m = [event, Advanced target]" "done_events = [event] \<or> done_events = [event, Advanced target]"
    for event target done_events
    using that by auto
  show ?thesis
  proof (cases "mv_phase m")
    case Paused
    with run have "advance_with pf i (Fencing m) (dr_fence driver m) Paused Fenced w = (r, w')" by (simp add: drive_def)
    from advance_with_events [OF this] Paused show ?thesis by (auto simp: pass_events_def)
  next
    case Fenced
    with run have "advance_with pf i (Copying m) (dr_copy driver m) Fenced Copied w = (r, w')" by (simp add: drive_def)
    from advance_with_events [OF this] Fenced show ?thesis by (auto simp: pass_events_def)
  next
    case Copied
    with run have "advance_with pf i (Verifying m) (dr_verify driver m) Copied Verified w = (r, w')" by (simp add: drive_def)
    from advance_with_events [OF this] Copied show ?thesis by (auto simp: pass_events_def)
  next
    case Verified
    with run show ?thesis
      by (cases "ask_driver pf i (Checking m) (dr_beforeActivate driver m) w")
        (auto simp: drive_def bind_io_def pass_events_def dest!: ask_driver_events activate_with_events split: sum.splits)
  next
    case Returning
    with run show ?thesis
      by (cases "dr_returnToSource driver"; cases "ask_driver pf i (Handing_back m) (the (dr_returnToSource driver) m) w")
        (auto simp: drive_def bind_io_def pass_events_def dest!: ask_driver_events activate_with_events split: sum.splits)
  next
    case Activated
    show ?thesis
    proof (cases "dr_afterActivate driver")
      case None
      with run Activated show ?thesis
        by (auto simp: drive_def bind_io_def pass_events_def throwIfAborted_def dest!: advance_with_events split: if_splits)
    next
      case (Some f)
      with run Activated show ?thesis
        by (cases "ask_driver pf i (AfterActivation m) (f m) w")
          (auto simp: drive_def bind_io_def pass_events_def throwIfAborted_def dest!: ask_driver_events advance_with_events
            split: sum.splits if_splits)
    qed
  qed (use unsettled in \<open>simp_all add: settled_phase_def\<close>)
qed

lemma read_events:
  "bind_io throwIfAborted (\<lambda>_. on_directory pf i (read_movement i)) w = (r, w1) \<Longrightarrow> w_events w1 = w_events w"
  by (auto simp: bind_io_def throwIfAborted_def on_directory_def Let_def split: sum.splits prod.splits if_splits)

lemma loop_follows:
  assumes "world_ok w" "k = 0 \<or> at_rank i k (w_directory w)" "resume_loop n pf driver i w = Some (r, w')"
  shows "\<exists>events. w_events w' = w_events w @ events \<and> follows k events \<and> (case r of Inl e \<Rightarrow> True | Inr m \<Rightarrow> settled_phase (mv_phase m))"
  using assms
proof (induction n arbitrary: w k)
  case (Suc n)
  obtain r1 w1 where read: "bind_io throwIfAborted (\<lambda>_. on_directory pf i (read_movement i)) w = (r1, w1)" by (meson surj_pair)
  show ?case
  proof (cases r1)
    case (Inl e)
    with Suc.prems(3) read read_events [OF read] show ?thesis by (auto simp: follows_def)
  next
    case (Inr m)
    note reads = loop_reads [OF Suc.prems(1) read [unfolded Inr]]
    show ?thesis
    proof (cases "settled_phase (mv_phase m)")
      case True
      with Suc.prems(3) read Inr reads(2) show ?thesis by (auto simp: follows_def)
    next
      case False
      have rank: "k \<le> rank (mv_phase m)" using Suc.prems(2) reads(4) by auto
      note pass = pass_follows [OF False rank, of driver]
      obtain r2 w2 where step: "drive pf driver i m w1 = (r2, w2)" by (meson surj_pair)
      show ?thesis
      proof (cases r2)
        case (Inl e)
        obtain before rest where events: "pass_events driver m = before @ rest" "w_events w2 = w_events w1 @ before"
          using drive_events [OF step False] by blast
        have "follows k before" by (rule follows_prefix [of k before rest]) (use pass events(1) in \<open>simp add: follows_def\<close>)
        with Suc.prems(3) read \<open>r1 = Inr m\<close> False step Inl events(2) reads(2) show ?thesis by auto
      next
        case (Inr u)
        note raised = drive_Inr [OF reads(1) step [unfolded Inr] False]
        have "resume_loop n pf driver i w2 = Some (r, w')" using Suc.prems(3) read \<open>r1 = Inr m\<close> False step Inr by simp
        then obtain events where "w_events w' = w_events w2 @ events" "follows (Suc (rank (mv_phase m))) events"
            "case r of Inl e \<Rightarrow> True | Inr m \<Rightarrow> settled_phase (mv_phase m)"
          using Suc.IH [of w2 "Suc (rank (mv_phase m))"] raised by blast
        then show ?thesis
          using raised pass reads(2) by (auto simp: follows_def follow_append)
      qed
    qed
  qed
qed simp

section \<open>Properties\<close>

text \<open>A controller that starts on any reachable directory.\<close>

definition controller_at :: "platform \<Rightarrow> directory_call list \<Rightarrow> 'x \<Rightarrow> (directory_call list \<times> bool) list \<Rightarrow> 'x controller_world" where
  "controller_at pf calls external interference =
     \<lparr>w_directory = foldl (perform_call pf) initial_directory calls, w_external = external, w_interference = interference,
      w_lost = False, w_events = []\<rparr>"

lemma locked_ok:
  assumes "on_directory pf i (claim_lock i) (controller_at pf calls external interference) = (Inr u, w)"
  shows "world_ok w" "w_events w = []"
proof -
  have ok: "world_ok (controller_at pf calls external interference)"
    by (simp add: controller_at_def directory_system.always)
  obtain d where d: "claim_lock i (w_directory (interfere pf i (controller_at pf calls external interference))) = (Inr u, d)"
    "w = interfere pf i (controller_at pf calls external interference)\<lparr>w_directory := d\<rparr>"
    using assms by (auto simp: on_directory_Inr)
  show "world_ok w" using d interference_kept(1) [OF ok, of pf i] by (auto simp: claim_lock_def split: if_splits)
  show "w_events w = []" using d(2) by (simp add: controller_at_def)
qed

lemma returned_ok:
  assumes "world_ok w" "request_return pf driver i b w = (r, w')"
  shows "world_ok w'" "w_events w' = w_events w"
proof -
  show "world_ok w'"
    using assms requestReturn_ok [OF interference_kept(1) [OF assms(1)], of i pf i]
    by (auto simp: request_return_def on_directory_Inr split: option.splits if_splits)
  show "w_events w' = w_events w"
    using assms by (auto simp: request_return_def on_directory_Inr split: option.splits if_splits)
qed

text \<open>C34. A controller always ends, whatever the driver answers, whatever others do to the directory between any two of
  its steps, and whenever its lock is lost: its loop runs at most six times.\<close>

theorem resume_terminates:
  "\<exists>r w. resumeMovement 6 pf driver i returnToSource (controller_at pf calls external interference) = Some (r, w)"
proof -
  obtain r1 w1 where lock: "on_directory pf i (claim_lock i) (controller_at pf calls external interference) = (r1, w1)" by (meson surj_pair)
  obtain r2 w2 where ret: "request_return pf driver i returnToSource w1 = (r2, w2)" by (meson surj_pair)
  show ?thesis
  proof (cases r1)
    case (Inr u)
    have "world_ok w2" by (rule returned_ok(1) [OF locked_ok(1) [OF lock [unfolded Inr]] ret])
    from loop_ends [OF this, of 0 i 6 pf driver] obtain r w where "resume_loop 6 pf driver i w2 = Some (r, w)" by auto
    with lock ret Inr show ?thesis by (cases r2) (auto simp: resumeMovement_def)
  qed (use lock in \<open>simp add: resumeMovement_def\<close>)
qed


end
