(* ===== verification/Arrival.thy ===== *)
theory Arrival
  imports Resume
begin

text \<open>
  A movement arrives: a controller whose driver does its work, and which nobody interferes with, brings an entitled customer to
  the destination.
\<close>

section \<open>Nothing between two steps\<close>

definition quiet :: "'x controller_world \<Rightarrow> bool" where
  "quiet w \<longleftrightarrow> w_interference w = [] \<and> \<not> w_lost w"

lemma interfere_quiet [simp]: "w_interference w = [] \<Longrightarrow> interfere pf i w = w"
  by (simp add: interfere_def)

lemma on_directory_quiet:
  "quiet w \<Longrightarrow> m (w_directory w) = (r, d) \<Longrightarrow> on_directory pf i m w = (r, w\<lparr>w_directory := d\<rparr>)"
  by (simp add: on_directory_def quiet_def)

definition answers :: "(located_movement \<Rightarrow> bool \<Rightarrow> ('x, 'a) io) \<Rightarrow> bool" where
  "answers f \<longleftrightarrow> (\<forall>m lost x. \<exists>y x'. f m lost x = (Inr y, x'))"

definition reports :: "json_record \<Rightarrow> json list \<Rightarrow> bool" where
  "reports evidence cs \<longleftrightarrow> distinct (map fst evidence) \<and> map_of evidence ''verifiedComponents'' = Some (JArr cs)"

text \<open>A driver that does its work; its verification reports the components \<open>cs\<close>, in an object, which has a key once.\<close>

definition dutiful :: "'x driver \<Rightarrow> json list \<Rightarrow> bool" where
  "dutiful driver cs \<longleftrightarrow>
     answers (dr_fence driver) \<and> answers (dr_copy driver) \<and> answers (dr_verify driver) \<and> answers (dr_beforeActivate driver) \<and>
     answers (dr_observe driver) \<and> (case dr_afterActivate driver of None \<Rightarrow> True | Some f \<Rightarrow> answers f) \<and>
     (\<forall>m lost x evidence x'. dr_verify driver m lost x = (Inr evidence, x') \<longrightarrow> reports evidence cs)"

lemma dutiful_verify: "dutiful driver cs \<Longrightarrow> dr_verify driver m lost x = (Inr evidence, x') \<Longrightarrow> reports evidence cs"
  unfolding dutiful_def by blast

lemma ask_driver_quiet:
  assumes "quiet w" "answers f"
  obtains y x where "f m (w_lost w) (w_external w) = (Inr y, x)"
    "ask_driver pf i event (f m) w = (Inr y, w\<lparr>w_external := x, w_events := w_events w @ [event]\<rparr>)"
  using assms unfolding answers_def by (force simp: ask_driver_def quiet_def)

section \<open>Evidence that covers an installation\<close>

definition covers :: "string \<Rightarrow> json list \<Rightarrow> environment_component list \<Rightarrow> bool" where
  "covers environmentId cs rows \<longleftrightarrow>
     (case traverse verified_component_of cs of
        Inl e \<Rightarrow> False
      | Inr vs \<Rightarrow> vs \<noteq> [] \<and> distinct (map vc_component_ref vs) \<and>
          list_all (\<lambda>r. cc_component_ref r \<in> set (map vc_component_ref vs)) (filter (\<lambda>r. cc_environment_id r = environmentId) rows))"

lemma verified_member:
  "verified_component_of c = Inr v \<Longrightarrow> member c ''component_ref'' = Inr (Some (JStr (vc_component_ref v)))"
  by (auto simp: verified_component_of_def rbind_def split: sum.splits option.splits json.splits if_splits)

lemma verified_members:
  "traverse verified_component_of cs = Inr vs \<Longrightarrow>
    traverse (\<lambda>c. member c ''component_ref'') cs = Inr (map (\<lambda>v. Some (JStr (vc_component_ref v))) vs)"
  by (auto simp: traverse_Inr_iff list_all2_map2 intro: list_all2_mono verified_member)

lemma distinct_names: "distinct (map vc_component_ref vs) \<Longrightarrow> all_different (map (\<lambda>v. Some (JStr (vc_component_ref v))) vs)"
  by (auto simp: all_different_def distinct_map inj_on_def intro: distinct_filter)

lemma placed_all:
  "traverse verified_component_of cs = Inr vs \<Longrightarrow> \<exists>d'. for_io (place_verified environmentId g) cs () d = (Inr (), d')"
proof (induction cs arbitrary: vs d)
  case (Cons c cs)
  then obtain v ws where "verified_component_of c = Inr v" "traverse verified_component_of cs = Inr ws"
    by (auto simp: rbind_def split: sum.splits)
  with Cons.IH show ?case by (auto simp: place_verified_def bind_io_Inr lift_def)
qed simp

lemma covered_placed:
  assumes cover: "covers environmentId cs (d_components d)" and evidence: "map_of evidence ''verifiedComponents'' = Some (JArr cs)"
  shows "\<exists>d'. place_components environmentId g evidence d = (Inr (), d')"
proof -
  obtain vs where vs: "traverse verified_component_of cs = Inr vs" "vs \<noteq> []" "distinct (map vc_component_ref vs)"
      "list_all (\<lambda>r. cc_component_ref r \<in> set (map vc_component_ref vs)) (filter (\<lambda>r. cc_environment_id r = environmentId) (d_components d))"
    using cover by (auto simp: covers_def split: sum.splits)
  obtain c cs' where cs: "cs = c # cs'" using vs(1,2) by (cases cs) auto
  let ?refs = "map (\<lambda>v. Some (JStr (vc_component_ref v))) vs"
  have "list_all (\<lambda>ref. Some (JStr ref) \<in> set ?refs) (map cc_component_ref (filter (\<lambda>r. cc_environment_id r = environmentId) (d_components d)))"
    using vs(4) by (auto simp: list_all_iff)
  then show ?thesis
    using placed_all [OF vs(1), of environmentId g d] verified_members [OF vs(1)] distinct_names [OF vs(3)] evidence
    by (simp add: place_components_def cs lift_def bind_io_def del: traverse.simps for_io.simps)
qed

section \<open>On the way\<close>

text \<open>What stays of a movement's row, and where its customer arrives.\<close>

definition same_route :: "movement \<Rightarrow> movement \<Rightarrow> bool" where
  "same_route m n \<longleftrightarrow> mv_id n = mv_id m \<and> mv_environment_id n = mv_environment_id m \<and>
     mv_destination_runtime_id n = mv_destination_runtime_id m \<and> mv_destination_generation n = mv_destination_generation m"

definition arrived :: "movement \<Rightarrow> customer_environment \<Rightarrow> bool" where
  "arrived m e \<longleftrightarrow> ce_id e = mv_environment_id m \<and> ce_runtime_id e = mv_destination_runtime_id m \<and>
     ce_routing_generation e = mv_destination_generation m \<and> ce_movement_id e = None \<and> ce_observed_state e = IsReady"

definition entitled :: "movement \<Rightarrow> customer_environment \<Rightarrow> bool" where
  "entitled m e \<longleftrightarrow> ce_id e = mv_environment_id m \<and> ce_desired_state e = WantReady"

text \<open>The phases of the way, and what holds of the directory in each of them.\<close>

definition stage :: "movement \<Rightarrow> json list \<Rightarrow> movement \<Rightarrow> directory \<Rightarrow> bool" where
  "stage m cs row d \<longleftrightarrow>
     (if mv_phase row \<in> {Paused, Fenced, Copied, Verified}
      then list_ex (entitled m) (d_environments d) \<and> covers (mv_environment_id m) cs (d_components d) \<and>
        (mv_phase row = Verified \<longrightarrow> map_of (mv_evidence row) ''verifiedComponents'' = Some (JArr cs))
      else mv_phase row \<in> {Activated, MoveCompleted} \<and> list_ex (arrived m) (d_environments d))"

definition on_the_way :: "movement \<Rightarrow> json list \<Rightarrow> movement \<Rightarrow> 'x controller_world \<Rightarrow> bool" where
  "on_the_way m cs row w \<longleftrightarrow> quiet w \<and> world_ok w \<and> row \<in> set (d_movements (w_directory w)) \<and> same_route m row \<and>
     stage m cs row (w_directory w)"

lemma on_the_way_read:
  assumes way: "on_the_way m cs row w" and env: "list_ex (\<lambda>e. ce_id e = mv_environment_id m) (d_environments (w_directory w))"
  obtains e where "e \<in> set (d_environments (w_directory w))" "ce_id e = mv_environment_id m"
    "read_movement (mv_id m) (w_directory w) = (Inr (locate row e), w_directory w)"
proof -
  let ?d = "w_directory w"
  have row: "row \<in> set (d_movements ?d)" "mv_id row = mv_id m" "mv_environment_id row = mv_environment_id m"
    using way by (simp_all add: on_the_way_def same_route_def)
  have ok: "directory_ok ?d" using way by (simp add: on_the_way_def)
  obtain e where e: "e \<in> set (d_environments ?d)" "ce_id e = mv_environment_id m" using env by (auto simp: list_ex_iff)
  let ?rows = "[locate m' e. m' \<leftarrow> filter (\<lambda>m'. mv_id m' = mv_id m) (d_movements ?d),
      e \<leftarrow> filter (\<lambda>e. ce_id e = mv_environment_id m') (d_environments ?d)]"
  have "locate row e \<in> set ?rows" using row e by auto
  then obtain x xs where rows: "?rows = x # xs" by (cases ?rows) auto
  then have "read_movement (mv_id m) ?d = (Inr x, ?d)" by (simp add: read_movement_def)
  moreover from read_Inr [OF this] obtain row' e' where x: "row' \<in> set (d_movements ?d)" "e' \<in> set (d_environments ?d)"
      "mv_id row' = mv_id m" "ce_id e' = mv_environment_id row'" "x = locate row' e'" by blast
  have "row' = row" by (rule unique_row [OF moves_unique(2) [OF ok] x(1) row(1)]) (simp add: x(3) row(2))
  then show ?thesis
    using that [OF x(2)] x calculation row(3) by simp
qed

text \<open>A quiet step from a phase to the next.\<close>

lemma advance_found:
  assumes "row \<in> set (d_movements d)" "mv_id row = i" "mv_phase row = origin" "successor origin = Some target"
  shows "advance i origin target evidence d = (Inr (), d_movements_update (update_where (\<lambda>m. mv_id m = i \<and> mv_phase m = origin)
      (\<lambda>m. m\<lparr>mv_phase := target, mv_evidence := spread (mv_evidence m) evidence, mv_last_error := None\<rparr>)) d)"
  using assms by (auto simp: advance_def list_ex_iff)

lemma advance_with_quiet:
  assumes w: "quiet w" and f: "answers f" and row: "row \<in> set (d_movements (w_directory w))" "mv_id row = i" "mv_phase row = origin"
    and step: "successor origin = Some target"
  obtains evidence x w' where "f m (w_lost w) (w_external w) = (Inr evidence, x)"
    "advance_with pf i event (f m) origin target w = (Inr (), w')" "quiet w'"
    "d_environments (w_directory w') = d_environments (w_directory w)" "d_components (w_directory w') = d_components (w_directory w)"
    "row\<lparr>mv_phase := target, mv_evidence := spread (mv_evidence row) evidence, mv_last_error := None\<rparr> \<in> set (d_movements (w_directory w'))"
proof -
  obtain evidence x where f': "f m (w_lost w) (w_external w) = (Inr evidence, x)"
      "ask_driver pf i event (f m) w = (Inr evidence, w\<lparr>w_external := x, w_events := w_events w @ [event]\<rparr>)"
    by (rule ask_driver_quiet [OF w f])
  let ?w1 = "w\<lparr>w_external := x, w_events := w_events w @ [event]\<rparr>"
  note moved = advance_found [OF row step, of evidence]
  have "on_directory pf i (advance i origin target evidence) ?w1 = (Inr (), ?w1\<lparr>w_directory := snd (advance i origin target evidence (w_directory w))\<rparr>)"
    by (rule on_directory_quiet) (use w moved in \<open>simp_all add: quiet_def\<close>)
  then have run: "advance_with pf i event (f m) origin target w = (Inr (),
      w\<lparr>w_external := x, w_directory := snd (advance i origin target evidence (w_directory w)),
        w_events := w_events w @ [event, Advanced target]\<rparr>)"
    using f'(2) w by (simp add: advance_with_def bind_io_def throwIfAborted_def note_event_def quiet_def)
  show ?thesis
    by (rule that [OF f'(1) run])
      (use w row moved in \<open>auto simp: quiet_def set_update_where intro!: image_eqI [of _ _ row]\<close>)
qed

lemma activate_arrives:
  assumes ok: "directory_ok d" and row: "row \<in> set (d_movements d)" "same_route m row" "mv_phase row = Verified"
    and stage: "stage m cs row d" and read: "read_movement (mv_id m) d = (Inr (locate row e), d)" "ce_id e = mv_environment_id m"
  obtains d' where "activate (mv_id m) None d = (Inr (), d')" "list_ex (arrived m) (d_environments d')"
    "row\<lparr>mv_phase := Activated, mv_evidence := spread (mv_evidence row) []\<rparr> \<in> set (d_movements d')"
proof -
  let ?i = "mv_id m" and ?l = "locate row e"
  have route: "mv_id row = ?i" "mv_environment_id row = mv_environment_id m" using row(2) by (simp_all add: same_route_def)
  have staged: "list_ex (entitled m) (d_environments d)" "covers (mv_environment_id m) cs (d_components d)"
      "map_of (mv_evidence row) ''verifiedComponents'' = Some (JArr cs)"
    using stage row(3) by (simp_all add: stage_def)
  obtain h where h: "h \<in> set (d_environments d)" "ce_id h = mv_environment_id m" "ce_movement_id h = Some ?i"
    using held_moving [OF ok row(1)] row(3) route by (auto simp: held_phase_def)
  obtain a where "a \<in> set (d_environments d)" "entitled m a" using staged(1) by (auto simp: list_ex_iff)
  with unique_row [OF moves_unique(1) [OF ok] _ h(1)] h(2) have desired: "ce_desired_state h = WantReady" by (auto simp: entitled_def)
  obtain n where "n \<in> set (d_movements d)" "mv_id n = ?i" "holds n h" using moving_held [OF ok h(1,3)] by blast
  with unique_row [OF moves_unique(2) [OF ok] _ row(1)] route(1) have "holds row h" by auto
  then have "publishable ?i False ?l d h"
    using h desired row(1,3) route by (auto simp: publishable_def holds_def list_ex_iff)
  with h(1) have found: "list_ex (publishable ?i False ?l d) (d_environments d)" by (auto simp: list_ex_iff)
  let ?p = "publish_placement ?i False ?l d"
  have "covers (mv_environment_id m) cs (d_components ?p)" using staged(2) by (simp add: publish_placement_def)
  from covered_placed [OF this staged(3)] obtain d2 where
    d2: "place_components (mv_environment_id m) (mv_destination_generation row) (mv_evidence row) ?p = (Inr (), d2)" by blast
  then have run: "activate ?i None d = (Inr (), close_movement ?i None d2)"
    using read(1) found route by (simp add: activate_def bind_io_def publication_def)
  obtain rows where rows: "d2 = d_components_update (\<lambda>_. rows) ?p" using place_components_Inr [OF d2] by blast
  have "list_ex (arrived m) (d_environments (close_movement ?i None d2))"
    using h(1) \<open>publishable ?i False ?l d h\<close> row(2) h(2) unfolding rows close_movement_def
    by (auto simp: published_environments list_ex_update_where arrived_def same_route_def intro!: bexI [of _ h])
  moreover have "row\<lparr>mv_phase := Activated, mv_evidence := spread (mv_evidence row) []\<rparr> \<in> set (d_movements (close_movement ?i None d2))"
    unfolding closed_movements using row(1) route(1)
    by (auto simp: rows publish_placement_def set_update_where intro!: image_eqI [of _ _ row])
  ultimately show ?thesis by (rule that [OF run])
qed

lemma advanced_stage:
  assumes way: "on_the_way m cs row w" and f: "answers f" and step: "successor (mv_phase row) = Some target"
    and evidence: "\<And>x evidence x'. target = Verified \<Longrightarrow> f l (w_lost w) x = (Inr evidence, x') \<Longrightarrow> reports evidence cs"
  obtains w' row' where "advance_with pf (mv_id m) event (f l) (mv_phase row) target w = (Inr (), w')" "on_the_way m cs row' w'"
proof -
  have w: "quiet w" "row \<in> set (d_movements (w_directory w))" "mv_id row = mv_id m" "world_ok w" "same_route m row"
      "stage m cs row (w_directory w)"
    using way by (simp_all add: on_the_way_def same_route_def)
  obtain ev x w' where w': "f l (w_lost w) (w_external w) = (Inr ev, x)"
      "advance_with pf (mv_id m) event (f l) (mv_phase row) target w = (Inr (), w')" "quiet w'"
      "d_environments (w_directory w') = d_environments (w_directory w)" "d_components (w_directory w') = d_components (w_directory w)"
      "row\<lparr>mv_phase := target, mv_evidence := spread (mv_evidence row) ev, mv_last_error := None\<rparr> \<in> set (d_movements (w_directory w'))"
    by (rule advance_with_quiet [OF w(1) f w(2,3) refl step])
  let ?row = "row\<lparr>mv_phase := target, mv_evidence := spread (mv_evidence row) ev, mv_last_error := None\<rparr>"
  have "stage m cs ?row (w_directory w')"
    using w(6) step evidence [OF _ w'(1)] by (cases "mv_phase row") (auto simp: stage_def w'(4,5) reports_def map_of_spread)
  then have "on_the_way m cs ?row w'"
    using w(5) w'(3,6) advance_with_Inr(1) [OF w(4) w'(2)] by (simp add: on_the_way_def same_route_def)
  with w'(2) show ?thesis by (rule that)
qed

text \<open>Between its calls of the driver a pass loses nothing.\<close>

lemma asked_on_the_way:
  assumes "on_the_way m cs row w" "answers f"
  obtains y w' where "ask_driver pf i event (f l) w = (Inr y, w')" "on_the_way m cs row w'"
proof -
  have "quiet w" using assms(1) by (simp add: on_the_way_def)
  then obtain y x where "ask_driver pf i event (f l) w = (Inr y, w\<lparr>w_external := x, w_events := w_events w @ [event]\<rparr>)"
    by (rule ask_driver_quiet [OF _ assms(2)])
  then show ?thesis by (rule that) (use assms(1) in \<open>simp add: on_the_way_def quiet_def\<close>)
qed

lemma stage_environment:
  "stage m cs row d \<Longrightarrow> list_ex (\<lambda>e. ce_id e = mv_environment_id m) (d_environments d)"
  by (auto simp: stage_def list_ex_iff entitled_def arrived_def split: if_splits)

lemma drive_on_the_way:
  assumes way: "on_the_way m cs row w" and driver: "dutiful driver cs" and busy: "mv_phase row \<noteq> MoveCompleted"
    and l: "read_movement (mv_id m) (w_directory w) = (Inr l, w_directory w)" "l = locate row e" "ce_id e = mv_environment_id m"
  obtains w' row' where "drive pf driver (mv_id m) l w = (Inr (), w')" "on_the_way m cs row' w'"
proof -
  have stage: "stage m cs row (w_directory w)" using way by (simp add: on_the_way_def)
  then have phase: "mv_phase row \<in> {Paused, Fenced, Copied, Verified, Activated}" using busy by (auto simp: stage_def split: if_splits)
  have phase_l: "mv_phase l = mv_phase row" by (simp add: l(2))
  from phase consider "mv_phase row = Paused" | "mv_phase row = Fenced" | "mv_phase row = Copied" | "mv_phase row = Verified"
    | "mv_phase row = Activated" by blast
  then show ?thesis
  proof cases
    case 1
    show ?thesis
      by (rule advanced_stage [OF way, of "dr_fence driver" Fenced l pf "Fencing l"])
        (use driver 1 phase_l that in \<open>auto simp: dutiful_def drive_def\<close>)
  next
    case 2
    show ?thesis
      by (rule advanced_stage [OF way, of "dr_copy driver" Copied l pf "Copying l"])
        (use driver 2 phase_l that in \<open>auto simp: dutiful_def drive_def\<close>)
  next
    case 3
    show ?thesis
      by (rule advanced_stage [OF way, of "dr_verify driver" Verified l pf "Verifying l"])
        (use driver 3 phase_l that in \<open>auto simp: dutiful_def drive_def dest: dutiful_verify [OF driver]\<close>)
  next
    case 4
    obtain y w1 where w1: "ask_driver pf (mv_id m) (Checking l) (dr_beforeActivate driver l) w = (Inr y, w1)" "on_the_way m cs row w1"
      by (rule asked_on_the_way [OF way, of "dr_beforeActivate driver" pf "mv_id m" "Checking l" l]) (use driver in \<open>simp_all add: dutiful_def\<close>)
    have same: "w_directory w1 = w_directory w" using ask_driver_Inr [OF w1(1)] way by (simp add: on_the_way_def quiet_def)
    have at: "directory_ok (w_directory w)" "row \<in> set (d_movements (w_directory w))" "same_route m row"
      using way by (simp_all add: on_the_way_def)
    obtain d' where d': "activate (mv_id m) None (w_directory w) = (Inr (), d')" "list_ex (arrived m) (d_environments d')"
        "row\<lparr>mv_phase := Activated, mv_evidence := spread (mv_evidence row) []\<rparr> \<in> set (d_movements d')"
      by (rule activate_arrives [OF at 4 stage l(1) [unfolded l(2)] l(3)])
    have quiet: "quiet w1" using w1(2) by (simp add: on_the_way_def)
    let ?w2 = "w1\<lparr>w_directory := d', w_events := w_events w1 @ [Published False]\<rparr>"
    have "on_directory pf (mv_id m) (activate (mv_id m) None) w1 = (Inr (), w1\<lparr>w_directory := d'\<rparr>)"
      by (rule on_directory_quiet [OF quiet]) (simp add: same d'(1))
    with quiet have run: "activate_with pf (mv_id m) None w1 = (Inr (), ?w2)"
      by (simp add: activate_with_def bind_io_def throwIfAborted_def note_event_def quiet_def)
    have "on_the_way m cs (row\<lparr>mv_phase := Activated, mv_evidence := spread (mv_evidence row) []\<rparr>) ?w2"
      using quiet at(3) d'(2,3) activate_with_Inr(1) [OF _ run] w1(2) by (simp add: on_the_way_def quiet_def same_route_def stage_def)
    moreover have "drive pf driver (mv_id m) l w = (Inr (), ?w2)" using w1(1) run 4 phase_l by (simp add: drive_def bind_io_def)
    ultimately show ?thesis using that by blast
  next
    case 5
    obtain w1 where w1: "(case dr_afterActivate driver of None \<Rightarrow> return ()
        | Some f \<Rightarrow> ask_driver pf (mv_id m) (AfterActivation l) (f l)) w = (Inr (), w1)" "on_the_way m cs row w1"
    proof (cases "dr_afterActivate driver")
      case (Some f)
      then have "answers f" using driver by (simp add: dutiful_def)
      then show ?thesis
        by (rule asked_on_the_way [OF way, of f pf "mv_id m" "AfterActivation l" l]) (use that Some in simp)
    qed (use that way in simp)
    show ?thesis
      by (rule advanced_stage [OF w1(2), of "dr_observe driver" MoveCompleted l pf "Observing l"])
        (use driver 5 phase_l that w1 in \<open>auto simp: dutiful_def drive_def bind_io_def throwIfAborted_def on_the_way_def quiet_def\<close>)
  qed
qed

lemma loop_arrives:
  assumes "on_the_way m cs row w" "dutiful driver cs" "resume_loop n pf driver (mv_id m) w = Some (r, w')"
  shows "\<exists>l. r = Inr l \<and> mv_id l = mv_id m \<and> mv_phase l = MoveCompleted \<and> quiet w' \<and> list_ex (arrived m) (d_environments (w_directory w'))"
  using assms
proof (induction n arbitrary: row w)
  case (Suc n)
  have way: "quiet w" "same_route m row" "stage m cs row (w_directory w)" using Suc.prems(1) by (simp_all add: on_the_way_def)
  obtain e where e: "ce_id e = mv_environment_id m" "read_movement (mv_id m) (w_directory w) = (Inr (locate row e), w_directory w)"
    by (rule on_the_way_read [OF Suc.prems(1) stage_environment [OF way(3)]])
  have read: "bind_io throwIfAborted (\<lambda>_. on_directory pf (mv_id m) (read_movement (mv_id m))) w = (Inr (locate row e), w)"
    using way(1) e(2) by (simp add: on_directory_quiet bind_io_def throwIfAborted_def) (simp add: quiet_def)
  show ?case
  proof (cases "mv_phase row = MoveCompleted")
    case True
    with Suc.prems(3) read way show ?thesis by (auto simp: settled_phase_def stage_def same_route_def)
  next
    case False
    obtain w1 row1 where w1: "drive pf driver (mv_id m) (locate row e) w = (Inr (), w1)" "on_the_way m cs row1 w1"
      by (rule drive_on_the_way [OF Suc.prems(1,2) False e(2) refl e(1)])
    have "\<not> settled_phase (mv_phase (locate row e))" using False way(3) by (auto simp: settled_phase_def stage_def split: if_splits)
    then have "resume_loop n pf driver (mv_id m) w1 = Some (r, w')" using Suc.prems(3) read w1(1) by simp
    from Suc.IH [OF w1(2) Suc.prems(2) this] show ?thesis .
  qed
qed simp

section \<open>The property\<close>

text \<open>A movement of an entitled customer that no controller has yet verified, and that no controller owns.\<close>

definition movable :: "movement \<Rightarrow> json list \<Rightarrow> directory \<Rightarrow> bool" where
  "movable m cs d \<longleftrightarrow> m \<in> set (d_movements d) \<and> mv_phase m \<in> {Paused, Fenced, Copied} \<and> mv_id m \<notin> set (d_controllers d) \<and>
     list_ex (entitled m) (d_environments d) \<and> covers (mv_environment_id m) cs (d_components d)"

text \<open>C35. A movement under way arrives: when the customer is entitled, the driver does its work, what it verified covers the
  customer's components, and nobody interferes, then the controller returns the completed movement, the customer is ready at
  the destination in the new generation, and the lock is free again.\<close>

theorem resume_completes:
  assumes driver: "dutiful driver cs" and movable: "movable m cs (foldl (perform_call pf) initial_directory calls)"
  shows "\<exists>l w. resumeMovement 6 pf driver (mv_id m) False (controller_at pf calls external []) = Some (Inr l, w) \<and>
    mv_id l = mv_id m \<and> mv_phase l = MoveCompleted \<and> list_ex (arrived m) (d_environments (w_directory w)) \<and>
    mv_id m \<notin> set (d_controllers (w_directory w))"
proof -
  let ?w = "controller_at pf calls external []" and ?i = "mv_id m"
  let ?w1 = "?w\<lparr>w_directory := d_controllers_update (\<lambda>locks. locks @ [?i]) (w_directory ?w)\<rparr>"
  have quiet: "quiet ?w" by (simp add: quiet_def controller_at_def)
  have "claim_lock ?i (w_directory ?w) = (Inr (), w_directory ?w1)"
    using movable by (simp add: movable_def claim_lock_def controller_at_def)
  then have lock: "on_directory pf ?i (claim_lock ?i) ?w = (Inr (), ?w1)" by (simp add: on_directory_quiet [OF quiet])
  have way: "on_the_way m cs m ?w1"
    using movable quiet locked_ok(1) [OF lock] by (auto simp: on_the_way_def movable_def stage_def same_route_def quiet_def controller_at_def)
  obtain r w where loop: "resume_loop 6 pf driver ?i ?w1 = Some (r, w)"
    using loop_ends [of ?w1 0 ?i 6 pf driver] way by (auto simp: on_the_way_def)
  from loop_arrives [OF way driver loop] lock loop show ?thesis
    by (auto simp: resumeMovement_def request_return_def release_lock_def quiet_def)
qed

section \<open>A witness\<close>

definition example_platform :: platform where
  "example_platform = \<lparr>pf_defaults = [\<lparr>ca_componentRef = ''c'', ca_targetSchemaVersion = 1, ca_migrationSetDigest = ''d''\<rparr>],
     pf_uuid = (\<lambda>s. length s = 32), pf_collation = (\<lambda>s. [])\<rparr>"

definition example_calls :: "directory_call list" where
  "example_calls =
     [RegisterRuntime ''primary'' (replicate 40 CHR ''1''), RegisterRuntime ''other'' (replicate 40 CHR ''2''),
      Entitle (replicate 32 CHR ''e'') (\<lambda>_. ''o'') 0
        \<lparr>ee_eventId = ''b'', ee_eventType = PurchaseGranted, ee_subjectId = ''s'', ee_purchasedName = ''n'', ee_occurredAt = 0\<rparr>,
      Claim ''w'' ''primary'' 60 1,
      Finish ''w'' ''primary'' \<lparr>po_id = ''o'', po_environmentId = replicate 32 CHR ''e'', po_databaseName = ''cust_'' @ replicate 32 CHR ''e'',
        po_componentRef = ''c'', po_action = DoReconcile, po_targetSchemaVersion = 1, po_migrationSetDigest = ''d'', po_routingGeneration = 1\<rparr>,
      Begin ''m'' \<lparr>mi_id = None, mi_environmentId = replicate 32 CHR ''e'', mi_sourceRuntimeId = ''primary'', mi_destinationRuntimeId = ''other'',
        mi_expectedGeneration = 1, mi_rollbackOf = None, mi_acceptDivergence = None\<rparr>]"

definition example_components :: "json list" where
  "example_components = [JObj [(''component_ref'', JStr ''c''), (''schema_version'', JNum 1),
     (''migration_set_digest'', JStr (replicate 64 CHR ''a''))]]"

definition example_driver :: "unit driver" where
  "example_driver = \<lparr>dr_returnToSource = None, dr_fence = (\<lambda>m lost. return []), dr_copy = (\<lambda>m lost. return []),
     dr_verify = (\<lambda>m lost. return [(''verifiedComponents'', JArr example_components)]), dr_beforeActivate = (\<lambda>m lost. return ()),
     dr_afterActivate = None, dr_observe = (\<lambda>m lost. return [])\<rparr>"

lemma example_dutiful: "dutiful example_driver example_components"
  by (simp add: dutiful_def answers_def reports_def example_driver_def return_def)

definition example_movement :: movement where
  "example_movement = new_movement ''m'' \<lparr>mi_id = None, mi_environmentId = replicate 32 CHR ''e'', mi_sourceRuntimeId = ''primary'',
     mi_destinationRuntimeId = ''other'', mi_expectedGeneration = 1, mi_rollbackOf = None, mi_acceptDivergence = None\<rparr>"

lemma example_movable: "movable example_movement example_components (foldl (perform_call example_platform) initial_directory example_calls)"
  by code_simp

theorem resume_completes_witness:
  "\<exists>l w. resumeMovement 6 example_platform example_driver ''m'' False (controller_at example_platform example_calls () []) = Some (Inr l, w) \<and>
    mv_phase l = MoveCompleted"
  using resume_completes [OF example_dutiful example_movable, of "()"] by (auto simp: example_movement_def new_movement_def)

end
