(* ===== verification/Reconciliation.thy ===== *)
theory Reconciliation
  imports Canonical
begin

text \<open>
  libs/aven-document-ingest/src/reconciliation.ts: ranking the transactions of a bank statement against one open
  invoice; and the shortlist of reconciliation-flow.ts that bounds what is ranked.  Amounts are integers in minor
  units.  The Unicode tables behind normalization, letter case and the classes of regular expressions are parameters.
  The two quotients that the score rounds are rounded from their exact value.
\<close>

section \<open>Data\<close>

datatype validation_status = Consistent | Inconsistent | Incomplete | InsufficientCoverage
datatype item_direction = Payable | Receivable | UnknownDirection
datatype dedup_basis = ProviderId | Fingerprint
datatype statement_coverage = CoverageVerified | CoverageUnverified | RowLimitReached
datatype amount_basis = AccountAmount | OriginalAmount
datatype reference_match = ReferenceExact | ReferenceNone
datatype counterparty_match = CounterpartyExact | CounterpartyTokens | CounterpartyNone
datatype sign_match = SignMatch | SignConflict | SignUnknown
datatype recommendation = Review | Reject | EligibleForAssignment

record open_item =
  oi_businessKey :: string
  oi_documentKind :: string
  oi_direction :: item_direction
  oi_supplierName :: string
  oi_supplierIbans :: "string list"
  oi_invoiceNumber :: string
  oi_orderNumber :: "string option"
  oi_issueDate :: "string option"
  oi_dueDate :: "string option"
  oi_currency :: string
  oi_grossMinor :: int
  oi_amountDueMinor :: int
  oi_amountPaidMinor :: "int option"
  oi_references :: "string list"
  oi_validationStatus :: validation_status
  oi_summary :: string

record statement_transaction =
  st_dedupKey :: string
  st_dedupBasis :: dedup_basis
  st_accountRef :: string
  st_providerTransactionId :: "string option"
  st_bookingDate :: "string option"
  st_valueDate :: "string option"
  st_title :: "string option"
  st_amountMinor :: "int option"
  st_currency :: "string option"
  st_counterpartyName :: "string option"
  st_counterpartyIban :: "string option"
  st_description :: "string option"
  st_originalAmountMinor :: "int option"
  st_originalCurrency :: "string option"
  st_exchangeRate :: "string option"
  st_fxSurchargeMinor :: "int option"
  st_foreignExchangeFeeBps :: "int option"
  st_balanceAfterMinor :: "int option"
  st_sourceRow :: "int option"
  st_sourceOrdinal :: int
  st_statementValidationStatus :: validation_status
  st_statementCoverage :: statement_coverage

record amount_match =
  am_basis :: "amount_basis option"
  am_distance :: "int option"
  am_amount :: "int option"
  am_currency :: "string option"

record match_candidate =
  mc_openItemBusinessKey :: string
  mc_transactionDedupKey :: string
  mc_transactionInputOrdinal :: nat
  mc_rank :: nat
  mc_rankScore :: int
  mc_amount :: amount_match
  mc_issueDateDistanceDays :: "int option"
  mc_dueDateDistanceDays :: "int option"
  mc_referenceMatch :: reference_match
  mc_counterpartyMatch :: counterparty_match
  mc_ibanMatch :: bool
  mc_signMatch :: sign_match
  mc_duplicateCount :: nat
  mc_reasons :: "string list"
  mc_blockers :: "string list"
  mc_pairEligible :: bool
  mc_recommendation :: recommendation

section \<open>Texts\<close>

text \<open>The Unicode tables: NFKD, \<open>\p{M}\<close>, lower and upper case, \<open>\p{L}\<close> or \<open>\p{N}\<close>.\<close>

record unicode =
  un_nfkd :: "string \<Rightarrow> string"
  un_mark :: "char \<Rightarrow> bool"
  un_lower :: "string \<Rightarrow> string"
  un_upper :: "string \<Rightarrow> string"
  un_word :: "char \<Rightarrow> bool"

abbreviation blank :: char where "blank \<equiv> CHR '' ''"

text \<open>\<open>replace(/[^...]+/gu, ' ')\<close>: every run of other characters becomes one blank.\<close>

function blank_runs :: "(char \<Rightarrow> bool) \<Rightarrow> string \<Rightarrow> string" where
  "blank_runs P [] = []"
| "blank_runs P (c # s) = (if P c then c # blank_runs P s else blank # blank_runs P (dropWhile (\<lambda>d. \<not> P d) s))"
  by pat_completeness auto
termination blank_runs
  by (relation "measure (\<lambda>(P, s). length s)") (auto simp: less_Suc_eq_le length_dropWhile_le)

definition folded :: "unicode \<Rightarrow> string option \<Rightarrow> string" where
  "folded u v = trim (blank_runs (un_word u) (un_lower u (filter (\<lambda>c. \<not> un_mark u c)
     (un_nfkd u (case v of None \<Rightarrow> [] | Some s \<Rightarrow> s)))))"

definition compact :: "unicode \<Rightarrow> string option \<Rightarrow> string" where
  "compact u v = filter (\<lambda>c. c \<noteq> blank) (folded u v)"

text \<open>\<open>includes\<close>.\<close>

fun includes_text :: "string \<Rightarrow> string \<Rightarrow> bool" where
  "includes_text [] t \<longleftrightarrow> t = []"
| "includes_text (c # s) t \<longleftrightarrow> startsWith t (c # s) \<or> includes_text s t"

definition referenceMatches :: "unicode \<Rightarrow> string \<Rightarrow> string \<Rightarrow> bool" where
  "referenceMatches u reference haystack =
     (let needle = folded u (Some reference) in
      needle \<noteq> [] \<and> includes_text ([blank] @ folded u (Some haystack) @ [blank]) ([blank] @ needle @ [blank]))"

text \<open>The overlap is a quotient; here its numerator and denominator.\<close>

definition tokenOverlap :: "unicode \<Rightarrow> string \<Rightarrow> string \<Rightarrow> nat \<times> nat" where
  "tokenOverlap u left right =
     (let tokens = (\<lambda>s. uniq (filter (\<lambda>token. 2 \<le> length token) (split_on blank (folded u (Some s)))));
          leftTokens = tokens left; rightTokens = tokens right in
      if leftTokens = [] \<or> rightTokens = [] then (0, 1)
      else (length (filter (\<lambda>token. token \<in> set rightTokens) leftTokens), max (length leftTokens) (length rightTokens)))"

section \<open>Dates\<close>

definition leap_year :: "int \<Rightarrow> bool" where
  "leap_year y \<longleftrightarrow> y mod 4 = 0 \<and> (y mod 100 \<noteq> 0 \<or> y mod 400 = 0)"

definition month_lengths :: "int \<Rightarrow> int list" where
  "month_lengths y = [31, if leap_year y then 29 else 28, 31, 30, 31, 30, 31, 31, 30, 31, 30, 31]"

text \<open>\<open>Date.parse\<close> of a calendar day at midnight, in days; \<open>None\<close> is \<open>NaN\<close>.\<close>

definition calendar_day :: "string \<Rightarrow> int option" where
  "calendar_day s =
     (if length s = 10 \<and> s ! 4 = CHR ''-'' \<and> s ! 7 = CHR ''-'' \<and>
         list_all (\<lambda>c. c \<in> set ''0123456789'') (take 4 s @ take 2 (drop 5 s) @ drop 8 s)
      then let y = int (nat_of_digits (take 4 s)); m = nat_of_digits (take 2 (drop 5 s)); day = int (nat_of_digits (drop 8 s)) in
        if 1 \<le> m \<and> m \<le> 12 \<and> 1 \<le> day \<and> day \<le> month_lengths y ! (m - 1)
        then Some (365 * y + (y + 3) div 4 - (y + 99) div 100 + (y + 399) div 400 + sum_list (take (m - 1) (month_lengths y)) + day)
        else None
      else None)"

definition day_of :: "string \<Rightarrow> int option" where
  "day_of s = (if take 10 s = s then calendar_day (take 10 s) else None)"

definition dateDistance :: "string option \<Rightarrow> string option \<Rightarrow> int option" where
  "dateDistance left right =
     (case (left, right) of
        (Some l, Some r) \<Rightarrow>
          if l = [] \<or> r = [] then None
          else (case (day_of l, day_of r) of (Some a, Some b) \<Rightarrow> Some \<bar>a - b\<bar> | _ \<Rightarrow> None)
      | _ \<Rightarrow> None)"

text \<open>The slice of ten characters is lost: a timestamp differs from its day, so it has no distance to anything.\<close>

lemma timestamp_without_day: "dateDistance (Some ''2024-03-01T00:00:00Z'') (Some ''2024-03-01'') = None"
  by code_simp

section \<open>Amounts\<close>

definition same_currency :: "unicode \<Rightarrow> open_item \<Rightarrow> string option \<Rightarrow> bool" where
  "same_currency u item currency = (case currency of None \<Rightarrow> False | Some c \<Rightarrow> un_upper u c = un_upper u (oi_currency item))"

definition amount_candidate :: "unicode \<Rightarrow> open_item \<Rightarrow> amount_basis \<Rightarrow> int option \<Rightarrow> string option \<Rightarrow> amount_match list" where
  "amount_candidate u item basis amount currency =
     (case amount of
        None \<Rightarrow> []
      | Some a \<Rightarrow>
          if same_currency u item currency
          then [\<lparr>am_basis = Some basis, am_distance = Some \<bar>\<bar>a\<bar> - \<bar>oi_grossMinor item\<bar>\<bar>, am_amount = Some a, am_currency = currency\<rparr>]
          else [])"

definition distance_of :: "amount_match \<Rightarrow> int" where
  "distance_of a = (case am_distance a of None \<Rightarrow> MAX_SAFE_INTEGER | Some d \<Rightarrow> d)"

definition amount_order :: "amount_match \<Rightarrow> amount_match \<Rightarrow> int" where
  "amount_order left right =
     or_else (distance_of left - distance_of right) (if am_basis left = Some AccountAmount then -1 else 1)"

definition amountComparison :: "unicode \<Rightarrow> open_item \<Rightarrow> statement_transaction \<Rightarrow> amount_match" where
  "amountComparison u item t =
     (case sort_by amount_order
        (amount_candidate u item AccountAmount (st_amountMinor t) (st_currency t) @
         amount_candidate u item OriginalAmount (st_originalAmountMinor t) (st_originalCurrency t)) of
        [] \<Rightarrow> \<lparr>am_basis = None, am_distance = None, am_amount = None, am_currency = None\<rparr>
      | best # _ \<Rightarrow> best)"

definition signComparison :: "item_direction \<Rightarrow> int option \<Rightarrow> sign_match" where
  "signComparison direction amount =
     (case amount of
        None \<Rightarrow> SignUnknown
      | Some a \<Rightarrow>
          if direction = UnknownDirection \<or> a = 0 then SignUnknown
          else if direction = Payable then (if a < 0 then SignMatch else SignConflict)
          else (if 0 < a then SignMatch else SignConflict))"

section \<open>What bars a pair\<close>

definition push_if :: "bool \<Rightarrow> 'a \<Rightarrow> 'a list" where
  "push_if c x = (if c then [x] else [])"

definition rejectBlockers :: "open_item \<Rightarrow> statement_transaction \<Rightarrow> int option \<Rightarrow> bool \<Rightarrow> sign_match \<Rightarrow> string list" where
  "rejectBlockers item t distance strongReferenceMatch sign =
     push_if (oi_validationStatus item \<noteq> Consistent) ''open-item-not-validated'' @
     push_if (st_statementValidationStatus t \<noteq> Consistent) ''statement-not-validated'' @
     push_if (st_statementCoverage t \<noteq> CoverageVerified) ''statement-coverage-unverified'' @
     push_if (oi_direction item = UnknownDirection) ''open-item-direction-unknown'' @
     push_if (distance \<noteq> Some 0) ''amount-or-currency-not-exact'' @
     push_if (\<not> strongReferenceMatch) ''invoice-specific-evidence-missing'' @
     push_if (sign \<noteq> SignMatch) ''transaction-sign-not-confirmed''"

section \<open>Observations of one transaction\<close>

text \<open>\<open>JSON.stringify\<close> of what two observations of a transaction must agree on.\<close>

definition string_member :: "string option \<Rightarrow> units" where
  "string_member v = (case v of None \<Rightarrow> ascii ''null'' | Some s \<Rightarrow> quote_units (ascii s))"

definition number_member :: "int option \<Rightarrow> units" where
  "number_member v = (case v of None \<Rightarrow> ascii ''null'' | Some n \<Rightarrow> ascii (string_of_int n))"

definition observationKey :: "statement_transaction \<Rightarrow> units" where
  "observationKey t = [open_bracket] @ join_units
     [string_member (Some (st_accountRef t)), number_member (st_amountMinor t), string_member (st_currency t),
      string_member (st_bookingDate t), string_member (st_valueDate t), string_member (st_description t),
      string_member (st_counterpartyName t), string_member (st_counterpartyIban t), number_member (st_originalAmountMinor t),
      string_member (st_originalCurrency t), number_member (st_balanceAfterMinor t)] @ [close_bracket]"

definition observation_group :: "nat \<times> statement_transaction \<Rightarrow> string" where
  "observation_group it =
     (case it of (index, t) \<Rightarrow> if st_dedupBasis t = ProviderId then st_dedupKey t else ''occurrence:'' @ string_of_nat index)"

record observations =
  ob_duplicateCounts :: "(string, nat) jsmap"
  ob_representatives :: "(string, statement_transaction \<times> nat) jsmap"
  ob_conflicts :: "string list"

definition observe :: "observations \<Rightarrow> nat \<times> statement_transaction \<Rightarrow> observations" where
  "observe o1 it =
     (case it of (index, t) \<Rightarrow>
       let group = observation_group it; current = map_of (ob_representatives o1) group in
       \<lparr>ob_duplicateCounts = AList.update group
          ((case map_of (ob_duplicateCounts o1) group of None \<Rightarrow> 0 | Some n \<Rightarrow> n) + 1) (ob_duplicateCounts o1),
        ob_representatives =
          (if (case current of None \<Rightarrow> True | Some (c, _) \<Rightarrow> observationKey t < observationKey c)
           then AList.update group (t, index) (ob_representatives o1) else ob_representatives o1),
        ob_conflicts =
          (if (case current of None \<Rightarrow> False | Some (c, _) \<Rightarrow> observationKey c \<noteq> observationKey t)
           then (if group \<in> set (ob_conflicts o1) then ob_conflicts o1 else ob_conflicts o1 @ [group]) else ob_conflicts o1)\<rparr>)"

definition observe_all :: "(nat \<times> statement_transaction) list \<Rightarrow> observations" where
  "observe_all entries = foldl observe \<lparr>ob_duplicateCounts = [], ob_representatives = [], ob_conflicts = []\<rparr> entries"

section \<open>Ranking\<close>

text \<open>\<open>Math.round\<close> of a quotient that is not negative.\<close>

definition round_quotient :: "int \<Rightarrow> int \<Rightarrow> int" where
  "round_quotient n d = (2 * n + d) div (2 * d)"

definition purpose_of :: "statement_transaction \<Rightarrow> string" where
  "purpose_of t = join [blank] (filter (\<lambda>s. s \<noteq> []) (concat (map (\<lambda>v. case v of None \<Rightarrow> [] | Some s \<Rightarrow> [s])
     [st_title t, st_description t, st_providerTransactionId t])))"

definition sufficiently_specific :: "string \<Rightarrow> bool" where
  "sufficiently_specific normalized \<longleftrightarrow> 6 \<le> length normalized \<or>
     (4 \<le> length normalized \<and> list_ex (\<lambda>c. c \<in> set ''abcdefghijklmnopqrstuvwxyz'') normalized \<and>
      list_ex (\<lambda>c. c \<in> set ''0123456789'') normalized)"

definition strong_reference :: "unicode \<Rightarrow> open_item \<Rightarrow> statement_transaction \<Rightarrow> bool" where
  "strong_reference u item t \<longleftrightarrow>
     sufficiently_specific (compact u (Some (oi_invoiceNumber item))) \<and> referenceMatches u (oi_invoiceNumber item) (purpose_of t)"

definition iban_match :: "unicode \<Rightarrow> open_item \<Rightarrow> statement_transaction \<Rightarrow> bool" where
  "iban_match u item t = list_ex (\<lambda>iban. compact u (Some iban) \<noteq> [] \<and> compact u (Some iban) = compact u (st_counterpartyIban t))
     (oi_supplierIbans item)"

definition counterparty_of :: "unicode \<Rightarrow> open_item \<Rightarrow> statement_transaction \<Rightarrow> counterparty_match" where
  "counterparty_of u item t =
     (let supplier = compact u (Some (oi_supplierName item));
          overlap = tokenOverlap u (oi_supplierName item) (case st_counterpartyName t of None \<Rightarrow> [] | Some s \<Rightarrow> s) in
      if supplier \<noteq> [] \<and> supplier = compact u (st_counterpartyName t) then CounterpartyExact
      else if snd overlap \<le> 2 * fst overlap then CounterpartyTokens else CounterpartyNone)"

definition contradictory_sign :: "statement_transaction \<Rightarrow> bool" where
  "contradictory_sign t = (case (st_originalAmountMinor t, st_amountMinor t) of (Some a, Some b) \<Rightarrow> sgn a \<noteq> sgn b | _ \<Rightarrow> False)"

definition basis_text :: "amount_basis option \<Rightarrow> string" where
  "basis_text basis = (case basis of None \<Rightarrow> ''null'' | Some AccountAmount \<Rightarrow> ''account'' | Some OriginalAmount \<Rightarrow> ''original'')"

text \<open>The steps of the score: each adds to the score and to its reasons.\<close>

type_synonym scored = "int \<times> string list"

definition score_amount :: "open_item \<Rightarrow> amount_match \<Rightarrow> scored \<Rightarrow> scored" where
  "score_amount item amount s =
     (case am_distance amount of
        None \<Rightarrow> s
      | Some distance \<Rightarrow>
          if distance = 0 then (fst s + 4000, snd s @ [''exact-'' @ basis_text (am_basis amount) @ ''-amount''])
          else let allowance = max 100 (round_quotient \<bar>oi_amountDueMinor item\<bar> 50) in
            (fst s + max 0 (2500 - round_quotient (distance * 2500) allowance),
             snd s @ [basis_text (am_basis amount) @ ''-amount-distance:'' @ string_of_int distance]))"

definition score_if :: "bool \<Rightarrow> int \<Rightarrow> string \<Rightarrow> scored \<Rightarrow> scored" where
  "score_if c points reason s = (if c then (fst s + points, snd s @ [reason]) else s)"

definition score_date :: "int option \<Rightarrow> int option \<Rightarrow> scored \<Rightarrow> scored" where
  "score_date issue due s =
     (case sort_by (\<lambda>a b. a - b) (concat (map (\<lambda>v. case v of None \<Rightarrow> [] | Some n \<Rightarrow> [n]) [issue, due])) of
        [] \<Rightarrow> s
      | nearest # _ \<Rightarrow> (fst s + max 0 (750 - nearest * 25), snd s @ [''date-distance:'' @ string_of_int nearest]))"

definition score_sign :: "sign_match \<Rightarrow> scored \<Rightarrow> scored" where
  "score_sign sign s =
     (case sign of
        SignMatch \<Rightarrow> (fst s + 250, snd s @ [''expected-sign''])
      | SignConflict \<Rightarrow> (max 0 (fst s - 2000), snd s @ [''conflicting-sign''])
      | SignUnknown \<Rightarrow> s)"

definition rank_score :: "open_item \<Rightarrow> amount_match \<Rightarrow> reference_match \<Rightarrow> bool \<Rightarrow> counterparty_match \<Rightarrow> int option \<Rightarrow> int option \<Rightarrow> sign_match \<Rightarrow> scored" where
  "rank_score item amount reference iban counterparty issue due sign =
     score_sign sign
       (score_date issue due
         (score_if (counterparty = CounterpartyTokens) 600 ''counterparty-token-overlap''
           (score_if (counterparty = CounterpartyExact) 1000 ''exact-counterparty''
             (score_if iban 1500 ''counterparty-iban''
               (score_if (reference = ReferenceExact) 2500 ''exact-reference''
                 (score_amount item amount (0, [])))))))"

definition match_blockers :: "unicode \<Rightarrow> open_item \<Rightarrow> bool \<Rightarrow> statement_transaction \<Rightarrow> string list" where
  "match_blockers u item conflict t =
     rejectBlockers item t (am_distance (amountComparison u item t)) (strong_reference u item t)
       (signComparison (oi_direction item) (st_amountMinor t)) @
     push_if conflict ''conflicting-provider-observations'' @
     push_if (contradictory_sign t) ''contradictory-fx-sign''"

definition match_candidate_of :: "unicode \<Rightarrow> open_item \<Rightarrow> nat \<Rightarrow> bool \<Rightarrow> statement_transaction \<times> nat \<Rightarrow> match_candidate" where
  "match_candidate_of u item duplicates conflict ti =
     (case ti of (t, index) \<Rightarrow>
       let amount = amountComparison u item t;
           reference = (if list_ex (\<lambda>reference. referenceMatches u reference (purpose_of t)) (oi_references item)
             then ReferenceExact else ReferenceNone);
           iban = iban_match u item t; counterparty = counterparty_of u item t;
           issue = dateDistance (oi_issueDate item) (st_bookingDate t); due = dateDistance (oi_dueDate item) (st_bookingDate t);
           sign = signComparison (oi_direction item) (st_amountMinor t);
           blockers = match_blockers u item conflict t;
           scored = rank_score item amount reference iban counterparty issue due sign in
       \<lparr>mc_openItemBusinessKey = oi_businessKey item, mc_transactionDedupKey = st_dedupKey t, mc_transactionInputOrdinal = index,
        mc_rank = 0, mc_rankScore = min 10000 (fst scored), mc_amount = amount, mc_issueDateDistanceDays = issue,
        mc_dueDateDistanceDays = due, mc_referenceMatch = reference, mc_counterpartyMatch = counterparty, mc_ibanMatch = iban,
        mc_signMatch = sign, mc_duplicateCount = duplicates, mc_reasons = snd scored, mc_blockers = blockers,
        mc_pairEligible = (blockers = []), mc_recommendation = (if blockers = [] then EligibleForAssignment else Review)\<rparr>)"

definition issue_distance :: "match_candidate \<Rightarrow> int" where
  "issue_distance c = (case mc_issueDateDistanceDays c of None \<Rightarrow> MAX_SAFE_INTEGER | Some d \<Rightarrow> d)"

definition candidate_order :: "match_candidate \<Rightarrow> match_candidate \<Rightarrow> int" where
  "candidate_order left right =
     or_else (distance_of (mc_amount left) - distance_of (mc_amount right))
    (or_else (mc_rankScore right - mc_rankScore left)
    (or_else (issue_distance left - issue_distance right)
       (string_order (mc_transactionDedupKey left) (mc_transactionDedupKey right))))"

definition match_candidates :: "unicode \<Rightarrow> open_item \<Rightarrow> statement_transaction list \<Rightarrow> match_candidate list" where
  "match_candidates u item transactions =
     (let o1 = observe_all (List.enumerate 0 transactions) in
      map (\<lambda>(group, ti). match_candidate_of u item
          (case map_of (ob_duplicateCounts o1) group of None \<Rightarrow> 1 | Some n \<Rightarrow> n) (group \<in> set (ob_conflicts o1)) ti)
        (ob_representatives o1))"

definition rankInvoiceTransactions :: "unicode \<Rightarrow> open_item \<Rightarrow> statement_transaction list \<Rightarrow> match_candidate list" where
  "rankInvoiceTransactions u item transactions =
     map (\<lambda>(index, c). c\<lparr>mc_rank := index + 1\<rparr>)
       (List.enumerate 0 (sort_by candidate_order (match_candidates u item transactions)))"

section \<open>The shortlist\<close>

text \<open>What is sent to the ranker: whole groups, in the order of the ranking, up to a limit.\<close>

record stored_transaction =
  sa_artifactId :: string
  sa_payload :: statement_transaction

definition shortlist_group :: "stored_transaction list \<Rightarrow> match_candidate \<Rightarrow> stored_transaction list" where
  "shortlist_group source c =
     (let representative = source ! mc_transactionInputOrdinal c in
      if st_dedupBasis (sa_payload representative) = ProviderId
      then filter (\<lambda>t. st_dedupBasis (sa_payload t) = ProviderId \<and>
        st_dedupKey (sa_payload t) = st_dedupKey (sa_payload representative)) source
      else [representative])"

fun shortlist_loop ::
    "nat \<Rightarrow> stored_transaction list \<Rightarrow> match_candidate list \<Rightarrow> stored_transaction list \<times> bool \<Rightarrow> stored_transaction list \<times> bool" where
  "shortlist_loop limit source [] (transactions, truncated) = (transactions, truncated)"
| "shortlist_loop limit source (c # cs) (transactions, truncated) =
     (let group = shortlist_group source c in
      if limit < length transactions + length group then shortlist_loop limit source cs (transactions, True)
      else shortlist_loop limit source cs (transactions @ group, truncated))"

definition shortlist :: "unicode \<Rightarrow> nat \<Rightarrow> open_item \<Rightarrow> stored_transaction list \<Rightarrow> stored_transaction list \<times> bool" where
  "shortlist u limit item source =
     shortlist_loop limit source
       (filter (\<lambda>c. am_basis (mc_amount c) \<noteq> None) (rankInvoiceTransactions u item (map sa_payload source))) ([], False)"

end
