(* ===== verification/Reconciliation_Safety.thy ===== *)
theory Reconciliation_Safety
  imports Reconciliation Sort_Multiset
begin

text \<open>
  What a ranking says: each transaction once, in order; a pair is eligible exactly when the evidence is there; references
  match whole words; and the shortlist neither hides a conflict nor changes what is found.
\<close>

section \<open>Summaries of observations\<close>

type_synonym entry = "nat \<times> statement_transaction"

abbreviation entry_key :: "entry \<Rightarrow> units" where
  "entry_key p \<equiv> observationKey (snd p)"

definition group_entries :: "string \<Rightarrow> entry list \<Rightarrow> entry list" where
  "group_entries g ps = filter (\<lambda>p. observation_group p = g) ps"

text \<open>The first of the entries with the least key, and whether all entries agree.\<close>

definition pick :: "entry list \<Rightarrow> entry" where
  "pick ps = foldl (\<lambda>c p. if entry_key p < entry_key c then p else c) (hd ps) (tl ps)"

definition agreeing :: "entry list \<Rightarrow> bool" where
  "agreeing ps \<longleftrightarrow> (\<forall>p\<in>set ps. \<forall>q\<in>set ps. entry_key p = entry_key q)"

lemma pick_single [simp]: "pick [p] = p"
  by (simp add: pick_def)

lemma pick_snoc: "ps \<noteq> [] \<Longrightarrow> pick (ps @ [p]) = (if entry_key p < entry_key (pick ps) then p else pick ps)"
  by (cases ps) (simp_all add: pick_def)

lemma pick_least: "ps \<noteq> [] \<Longrightarrow> pick ps \<in> set ps \<and> (\<forall>p\<in>set ps. entry_key (pick ps) \<le> entry_key p)"
proof (induction ps rule: rev_induct)
  case (snoc p ps)
  show ?case
  proof (cases "ps = []")
    case False
    with snoc.IH have "pick ps \<in> set ps" "\<forall>q\<in>set ps. entry_key (pick ps) \<le> entry_key q" by blast+
    then show ?thesis unfolding pick_snoc [OF False] by (auto intro: order.trans less_imp_le)
  qed simp
qed simp

lemma agreeing_snoc:
  assumes "ps \<noteq> []"
  shows "agreeing (ps @ [p]) \<longleftrightarrow> agreeing ps \<and> entry_key p = entry_key (pick ps)"
proof
  assume all: "agreeing (ps @ [p])"
  have "pick ps \<in> set (ps @ [p])" "p \<in> set (ps @ [p])" "set ps \<subseteq> set (ps @ [p])" using pick_least [OF assms] by auto
  with all show "agreeing ps \<and> entry_key p = entry_key (pick ps)" unfolding agreeing_def by blast
next
  assume both: "agreeing ps \<and> entry_key p = entry_key (pick ps)"
  have "pick ps \<in> set ps" using pick_least [OF assms] by blast
  with both have "entry_key q = entry_key (pick ps)" if "q \<in> set ps" for q using that unfolding agreeing_def by blast
  with both have "entry_key q = entry_key (pick ps)" if "q \<in> set (ps @ [p])" for q using that by (cases "q = p") simp_all
  then show "agreeing (ps @ [p])" unfolding agreeing_def by metis
qed

lemma agreeing_single [simp]: "agreeing [p]" "agreeing []"
  by (simp_all add: agreeing_def)

text \<open>What the pass over the transactions has recorded.\<close>

lemma group_entries_snoc [simp]:
  "group_entries g (ps @ [p]) = group_entries g ps @ (if observation_group p = g then [p] else [])"
  by (simp add: group_entries_def)

lemma observe_all_snoc: "observe_all (ps @ [p]) = observe (observe_all ps) p"
  by (simp add: observe_all_def)

lemma observe_all_counts:
  "map_of (ob_duplicateCounts (observe_all ps)) g = (if group_entries g ps = [] then None else Some (length (group_entries g ps)))"
proof (induction ps rule: rev_induct)
  case Nil
  show ?case by (simp add: observe_all_def group_entries_def)
next
  case (snoc p ps)
  then show ?case by (cases p) (auto simp: observe_all_snoc observe_def Let_def)
qed

lemma observe_all_representatives:
  "map_of (ob_representatives (observe_all ps)) g = (if group_entries g ps = [] then None else Some (prod.swap (pick (group_entries g ps))))"
proof (induction ps rule: rev_induct)
  case Nil
  show ?case by (simp add: observe_all_def group_entries_def)
next
  case (snoc p ps)
  then show ?case by (cases p) (auto simp: observe_all_snoc observe_def Let_def pick_snoc split: prod.splits)
qed

lemma observe_all_conflicts: "g \<in> set (ob_conflicts (observe_all ps)) \<longleftrightarrow> \<not> agreeing (group_entries g ps)"
proof (induction ps rule: rev_induct)
  case Nil
  show ?case by (simp add: observe_all_def group_entries_def)
next
  case (snoc p ps)
  then show ?case
    by (cases p) (auto simp: observe_all_snoc observe_def Let_def agreeing_snoc observe_all_representatives split: prod.splits if_splits)
qed

lemma observe_all_distinct: "distinct (map fst (ob_representatives (observe_all ps)))"
proof (induction ps rule: rev_induct)
  case Nil
  show ?case by (simp add: observe_all_def)
next
  case (snoc p ps)
  then show ?case by (cases p) (simp add: observe_all_snoc observe_def Let_def distinct_update)
qed

text \<open>So a candidate is made of the entries of its group.\<close>

definition summary :: "unicode \<Rightarrow> open_item \<Rightarrow> entry list \<Rightarrow> match_candidate" where
  "summary u item ps = match_candidate_of u item (length ps) (\<not> agreeing ps) (prod.swap (pick ps))"

abbreviation groups_of :: "statement_transaction list \<Rightarrow> string list" where
  "groups_of ts \<equiv> map fst (ob_representatives (observe_all (List.enumerate 0 ts)))"

lemma groups_of: "distinct (groups_of ts)" "set (groups_of ts) = observation_group ` set (List.enumerate 0 ts)"
proof -
  show "distinct (groups_of ts)" by (rule observe_all_distinct)
  have "g \<in> set (groups_of ts) \<longleftrightarrow> g \<in> observation_group ` set (List.enumerate 0 ts)" for g
  proof -
    have "g \<in> set (groups_of ts) \<longleftrightarrow> map_of (ob_representatives (observe_all (List.enumerate 0 ts))) g \<noteq> None"
      by (simp only: map_of_eq_None_iff set_map not_not)
    also have "\<dots> \<longleftrightarrow> group_entries g (List.enumerate 0 ts) \<noteq> []" by (simp only: observe_all_representatives) simp
    also have "\<dots> \<longleftrightarrow> g \<in> observation_group ` set (List.enumerate 0 ts)" by (auto simp: group_entries_def filter_empty_conv)
    finally show ?thesis .
  qed
  then show "set (groups_of ts) = observation_group ` set (List.enumerate 0 ts)" by blast
qed

lemma match_candidates_summary:
  "match_candidates u item ts = map (\<lambda>g. summary u item (group_entries g (List.enumerate 0 ts))) (groups_of ts)"
proof -
  let ?o = "observe_all (List.enumerate 0 ts)"
  have "match_candidate_of u item (case map_of (ob_duplicateCounts ?o) g of None \<Rightarrow> 1 | Some n \<Rightarrow> n) (g \<in> set (ob_conflicts ?o)) r
      = summary u item (group_entries g (List.enumerate 0 ts))" if "(g, r) \<in> set (ob_representatives ?o)" for g r
  proof -
    have "map_of (ob_representatives ?o) g = Some r" using that observe_all_distinct by simp
    then show ?thesis
      by (simp add: observe_all_representatives observe_all_counts observe_all_conflicts summary_def split: if_splits)
  qed
  then show ?thesis by (auto simp: match_candidates_def Let_def)
qed

section \<open>The order of a ranking\<close>

lemma string_order_le: "string_order a b \<le> 0 \<longleftrightarrow> a \<le> b" "string_order a b = 0 \<longleftrightarrow> a = b"
  by (auto simp: string_order_def)

lemma or_else_le: "or_else a b \<le> 0 \<longleftrightarrow> a < 0 \<or> (a = 0 \<and> b \<le> 0)" "or_else a b = 0 \<longleftrightarrow> a = 0 \<and> b = 0"
  by (auto simp: or_else_def)

lemma candidate_order_le:
  "candidate_order a b \<le> 0 \<longleftrightarrow>
     distance_of (mc_amount a) < distance_of (mc_amount b) \<or>
     (distance_of (mc_amount a) = distance_of (mc_amount b) \<and>
      (mc_rankScore b < mc_rankScore a \<or>
       (mc_rankScore a = mc_rankScore b \<and>
        (issue_distance a < issue_distance b \<or>
         (issue_distance a = issue_distance b \<and> mc_transactionDedupKey a \<le> mc_transactionDedupKey b)))))"
  by (auto simp: candidate_order_def or_else_le string_order_le)

interpretation ranking_order: comparator candidate_order
proof
  show "candidate_order x y \<le> 0 \<or> candidate_order y x \<le> 0" for x y
    unfolding candidate_order_le by (meson linorder_less_linear linear)
  show "candidate_order x z \<le> 0" if "candidate_order x y \<le> 0" "candidate_order y z \<le> 0" for x y z
    using that unfolding candidate_order_le by (auto intro: order.trans)
qed

lemma candidate_order_rank [simp]:
  "candidate_order (a\<lparr>mc_rank := n\<rparr>) b = candidate_order a b" "candidate_order a (b\<lparr>mc_rank := n\<rparr>) = candidate_order a b"
  by (simp_all add: candidate_order_def issue_distance_def)

lemma ranked_order: "sorted_wrt (\<lambda>a b. candidate_order a b \<le> 0) (rankInvoiceTransactions u item ts)"
  using ranking_order.sorted_sort [of "match_candidates u item ts"]
  by (simp add: rankInvoiceTransactions_def sorted_wrt_iff_nth_less nth_enumerate_eq)

lemma ranked_ranks: "map mc_rank (rankInvoiceTransactions u item ts) = [1..<Suc (length (rankInvoiceTransactions u item ts))]"
  by (rule nth_equalityI) (simp_all add: rankInvoiceTransactions_def nth_enumerate_eq del: upt_Suc)

lemma map_enumerate_snd: "map (\<lambda>(i, c). f c) (List.enumerate n cs) = map f cs"
  by (induction cs arbitrary: n) simp_all

lemma ranked_forget:
  assumes "\<And>c n. f (c\<lparr>mc_rank := n\<rparr>) = f c"
  shows "map f (rankInvoiceTransactions u item ts) = map f (sort_by candidate_order (match_candidates u item ts))"
proof -
  have "map f (rankInvoiceTransactions u item ts) =
      map (\<lambda>(i, c). f c) (List.enumerate 0 (sort_by candidate_order (match_candidates u item ts)))"
    by (simp add: rankInvoiceTransactions_def comp_def case_prod_unfold assms)
  then show ?thesis by (simp only: map_enumerate_snd)
qed

lemma ranked_mset:
  assumes "\<And>c n. f (c\<lparr>mc_rank := n\<rparr>) = f c"
  shows "mset (map f (rankInvoiceTransactions u item ts)) = mset (map f (match_candidates u item ts))"
  using arg_cong [OF ranked_forget [of f u item ts, OF assms], of mset] by simp

text \<open>Every candidate of a ranking is a summary, up to its rank.\<close>

lemma ranked_summary:
  assumes "c \<in> set (rankInvoiceTransactions u item ts)"
  obtains g n where "g \<in> set (groups_of ts)" "c = (summary u item (group_entries g (List.enumerate 0 ts)))\<lparr>mc_rank := n\<rparr>"
proof -
  let ?sorted = "sort_by candidate_order (match_candidates u item ts)"
  obtain i d where d: "(i, d) \<in> set (List.enumerate 0 ?sorted)" "c = d\<lparr>mc_rank := i + 1\<rparr>"
    using assms unfolding rankInvoiceTransactions_def by fastforce
  have "d \<in> snd ` set (List.enumerate 0 ?sorted)" using d(1) by force
  then have "d \<in> set ?sorted" by (simp only: set_map [symmetric] map_snd_enumerate)
  then have "d \<in> set (match_candidates u item ts)" by simp
  with d(2) that show ?thesis by (auto simp: match_candidates_summary)
qed

section \<open>Groups by position\<close>

abbreviation group_at :: "statement_transaction list \<Rightarrow> nat \<Rightarrow> string" where
  "group_at ts i \<equiv> observation_group (i, ts ! i)"

definition same_group :: "statement_transaction list \<Rightarrow> nat \<Rightarrow> nat list" where
  "same_group ts i = filter (\<lambda>j. group_at ts j = group_at ts i) [0..<length ts]"

lemma enumerate_positions: "List.enumerate 0 ts = map (\<lambda>i. (i, ts ! i)) [0..<length ts]"
  by (rule nth_equalityI) (simp_all add: nth_enumerate_eq)

lemma group_positions:
  "group_entries g (List.enumerate 0 ts) = map (\<lambda>i. (i, ts ! i)) (filter (\<lambda>j. group_at ts j = g) [0..<length ts])"
  by (simp add: group_entries_def enumerate_positions filter_map comp_def)

lemma summary_position:
  assumes g: "g \<in> set (groups_of ts)"
  obtains i where "i < length ts" "group_at ts i = g" "pick (group_entries g (List.enumerate 0 ts)) = (i, ts ! i)"
    "group_entries g (List.enumerate 0 ts) = map (\<lambda>j. (j, ts ! j)) (same_group ts i)"
    "mc_transactionInputOrdinal (summary u item (group_entries g (List.enumerate 0 ts))) = i"
proof -
  let ?G = "group_entries g (List.enumerate 0 ts)"
  have "g \<in> observation_group ` set (List.enumerate 0 ts)" using g unfolding groups_of .
  then have ne: "?G \<noteq> []" by (auto simp: group_entries_def filter_empty_conv)
  then have "pick ?G \<in> set ?G" using pick_least by blast
  then obtain i where i: "i < length ts" "group_at ts i = g" "pick ?G = (i, ts ! i)" by (auto simp: group_positions)
  show ?thesis
    by (rule that [OF i]) (use i in \<open>simp_all add: group_positions same_group_def summary_def match_candidate_of_def Let_def\<close>)
qed

section \<open>What makes a pair eligible\<close>

text \<open>The specification: validated papers, a known direction that the sign confirms, the exact amount in the invoice's currency,
  the invoice number in the purpose, no contradiction of signs, and observations that agree.\<close>

definition exact_amount :: "unicode \<Rightarrow> open_item \<Rightarrow> int option \<Rightarrow> string option \<Rightarrow> bool" where
  "exact_amount u item amount currency =
     (case amount of None \<Rightarrow> False | Some a \<Rightarrow> same_currency u item currency \<and> \<bar>a\<bar> = \<bar>oi_grossMinor item\<bar>)"

definition confirmed_sign :: "open_item \<Rightarrow> statement_transaction \<Rightarrow> bool" where
  "confirmed_sign item t =
     (case st_amountMinor t of
        None \<Rightarrow> False
      | Some a \<Rightarrow> (oi_direction item = Payable \<and> a < 0) \<or> (oi_direction item = Receivable \<and> 0 < a))"

definition justified :: "unicode \<Rightarrow> open_item \<Rightarrow> statement_transaction list \<Rightarrow> nat \<Rightarrow> bool" where
  "justified u item ts i \<longleftrightarrow>
     (let t = ts ! i in
      oi_validationStatus item = Consistent \<and> st_statementValidationStatus t = Consistent \<and>
      st_statementCoverage t = CoverageVerified \<and>
      (exact_amount u item (st_amountMinor t) (st_currency t) \<or> exact_amount u item (st_originalAmountMinor t) (st_originalCurrency t)) \<and>
      confirmed_sign item t \<and> \<not> contradictory_sign t \<and> strong_reference u item t \<and>
      list_all (\<lambda>j. observationKey (ts ! j) = observationKey t) (same_group ts i))"

lemma push_if_Nil [simp]: "push_if c x = [] \<longleftrightarrow> \<not> c"
  by (simp add: push_if_def)

lemma amount_candidate_cases:
  obtains "amount_candidate u item basis amount currency = []" "\<not> exact_amount u item amount currency"
  | a d where "amount_candidate u item basis amount currency = [a]" "am_basis a = Some basis" "am_distance a = Some d" "0 \<le> d"
      "exact_amount u item amount currency \<longleftrightarrow> d = 0"
proof (cases amount)
  case (Some n)
  show ?thesis
  proof (cases "same_currency u item currency")
    case True
    show ?thesis
      by (rule that(2) [of "\<lparr>am_basis = Some basis, am_distance = Some \<bar>\<bar>n\<bar> - \<bar>oi_grossMinor item\<bar>\<bar>, am_amount = Some n,
          am_currency = currency\<rparr>" "\<bar>\<bar>n\<bar> - \<bar>oi_grossMinor item\<bar>\<bar>"])
        (simp_all add: Some True amount_candidate_def exact_amount_def)
  qed (use that(1) Some in \<open>simp add: amount_candidate_def exact_amount_def\<close>)
qed (use that(1) in \<open>simp add: amount_candidate_def exact_amount_def\<close>)

lemma amount_order_account:
  assumes "am_basis a = Some AccountAmount" "am_distance a = Some d" "am_distance b = Some e"
  shows "amount_order a b \<le> 0 \<longleftrightarrow> d \<le> e"
  using assms by (auto simp: amount_order_def or_else_le distance_of_def)

lemma amount_exact:
  "am_distance (amountComparison u item t) = Some 0 \<longleftrightarrow>
     exact_amount u item (st_amountMinor t) (st_currency t) \<or> exact_amount u item (st_originalAmountMinor t) (st_originalCurrency t)"
proof (cases rule: amount_candidate_cases [of u item AccountAmount "st_amountMinor t" "st_currency t"])
  case 1
  note none = 1
  show ?thesis
    by (cases rule: amount_candidate_cases [of u item OriginalAmount "st_originalAmountMinor t" "st_originalCurrency t"])
      (simp_all add: amountComparison_def none)
next
  case (2 a d)
  note account = 2
  show ?thesis
  proof (cases rule: amount_candidate_cases [of u item OriginalAmount "st_originalAmountMinor t" "st_originalCurrency t"])
    case 1
    with account show ?thesis by (simp add: amountComparison_def)
  next
    case (2 b e)
    have head: "amountComparison u item t = (if d \<le> e then a else b)"
      using amount_order_account [OF account(2,3) 2(3)] by (simp add: amountComparison_def account(1) 2(1))
    show ?thesis unfolding head account(5) 2(5) using account(3,4) 2(3,4) by auto
  qed
qed

lemma sign_confirmed: "oi_direction item \<noteq> UnknownDirection \<and> signComparison (oi_direction item) (st_amountMinor t) = SignMatch \<longleftrightarrow> confirmed_sign item t"
  by (cases "oi_direction item") (auto simp: signComparison_def confirmed_sign_def split: option.splits)

lemma agreeing_positions:
  assumes "i < length ts"
  shows "agreeing (map (\<lambda>j. (j, ts ! j)) (same_group ts i)) \<longleftrightarrow> list_all (\<lambda>j. observationKey (ts ! j) = observationKey (ts ! i)) (same_group ts i)"
proof -
  have i: "i \<in> set (same_group ts i)" using assms by (simp add: same_group_def)
  show ?thesis
  proof
    assume all: "agreeing (map (\<lambda>j. (j, ts ! j)) (same_group ts i))"
    have "observationKey (ts ! j) = observationKey (ts ! i)" if "j \<in> set (same_group ts i)" for j
    proof -
      have "(j, ts ! j) \<in> set (map (\<lambda>j. (j, ts ! j)) (same_group ts i))" "(i, ts ! i) \<in> set (map (\<lambda>j. (j, ts ! j)) (same_group ts i))"
        using that i by simp_all
      from all [unfolded agreeing_def, rule_format, OF this] show ?thesis by simp
    qed
    then show "list_all (\<lambda>j. observationKey (ts ! j) = observationKey (ts ! i)) (same_group ts i)"
      by (simp only: list_all_iff) blast
  next
    assume "list_all (\<lambda>j. observationKey (ts ! j) = observationKey (ts ! i)) (same_group ts i)"
    then have "entry_key p = observationKey (ts ! i)" if entry: "p \<in> set (map (\<lambda>j. (j, ts ! j)) (same_group ts i))" for p
    proof -
      obtain j where "j \<in> set (same_group ts i)" "p = (j, ts ! j)" using entry by auto
      with \<open>list_all _ _\<close> show ?thesis by (simp only: list_all_iff snd_conv)
    qed
    then show "agreeing (map (\<lambda>j. (j, ts ! j)) (same_group ts i))" unfolding agreeing_def by metis
  qed
qed

lemma no_blockers:
  "match_blockers u item conflict t = [] \<longleftrightarrow>
     oi_validationStatus item = Consistent \<and> st_statementValidationStatus t = Consistent \<and> st_statementCoverage t = CoverageVerified \<and>
     (exact_amount u item (st_amountMinor t) (st_currency t) \<or> exact_amount u item (st_originalAmountMinor t) (st_originalCurrency t)) \<and>
     confirmed_sign item t \<and> \<not> contradictory_sign t \<and> strong_reference u item t \<and> \<not> conflict"
  unfolding match_blockers_def rejectBlockers_def append_is_Nil_conv push_if_Nil not_not amount_exact sign_confirmed [symmetric]
  by blast

lemma summary_eligible:
  assumes "i < length ts" "pick ps = (i, ts ! i)" "ps = map (\<lambda>j. (j, ts ! j)) (same_group ts i)"
  shows "mc_pairEligible (summary u item ps) \<longleftrightarrow> justified u item ts i"
proof -
  have "mc_pairEligible (summary u item ps) \<longleftrightarrow> match_blockers u item (\<not> agreeing ps) (ts ! i) = []"
    by (simp add: summary_def match_candidate_of_def Let_def assms(2))
  then show ?thesis
    unfolding no_blockers justified_def Let_def not_not assms(3) agreeing_positions [OF assms(1)] by blast
qed

lemma summary_recommendation:
  "mc_recommendation (summary u item ps) = (if mc_pairEligible (summary u item ps) then EligibleForAssignment else Review)"
  by (simp add: summary_def match_candidate_of_def Let_def split: prod.split)

section \<open>The bounds of a score\<close>

lemma score_nonneg:
  "0 \<le> fst s \<Longrightarrow> 0 \<le> fst (score_amount item amount s)" "0 \<le> fst s \<Longrightarrow> 0 \<le> p \<Longrightarrow> 0 \<le> fst (score_if c p r s)"
  "0 \<le> fst s \<Longrightarrow> 0 \<le> fst (score_date issue due s)" "0 \<le> fst s \<Longrightarrow> 0 \<le> fst (score_sign sign s)"
  by (auto simp: score_amount_def score_if_def score_date_def score_sign_def Let_def split: option.split list.split sign_match.split)

lemma summary_score: "0 \<le> mc_rankScore (summary u item ps) \<and> mc_rankScore (summary u item ps) \<le> 10000"
  by (simp add: summary_def match_candidate_of_def Let_def rank_score_def score_nonneg split: prod.split)

section \<open>The ranking as a whole\<close>

lemma ranked_positions:
  assumes "c \<in> set (rankInvoiceTransactions u item ts)"
  obtains i n where "i < length ts" "mc_transactionInputOrdinal c = i"
    "c = (summary u item (map (\<lambda>j. (j, ts ! j)) (same_group ts i)))\<lparr>mc_rank := n\<rparr>"
    "pick (map (\<lambda>j. (j, ts ! j)) (same_group ts i)) = (i, ts ! i)"
proof -
  obtain g n where g: "g \<in> set (groups_of ts)" "c = (summary u item (group_entries g (List.enumerate 0 ts)))\<lparr>mc_rank := n\<rparr>"
    by (rule ranked_summary [OF assms])
  obtain i where i: "i < length ts" "pick (group_entries g (List.enumerate 0 ts)) = (i, ts ! i)"
      "group_entries g (List.enumerate 0 ts) = map (\<lambda>j. (j, ts ! j)) (same_group ts i)"
      "mc_transactionInputOrdinal (summary u item (group_entries g (List.enumerate 0 ts))) = i"
    by (rule summary_position [OF g(1)])
  show ?thesis
    by (rule that [OF i(1)]) (use i g(2) in simp_all)
qed

lemma summary_group:
  assumes "g \<in> set (groups_of ts)"
  shows "group_at ts (mc_transactionInputOrdinal (summary u item (group_entries g (List.enumerate 0 ts)))) = g"
  by (rule summary_position [OF assms, of u item]) simp

lemma ranked_groups:
  "mset (map (\<lambda>c. group_at ts (mc_transactionInputOrdinal c)) (rankInvoiceTransactions u item ts)) = mset (groups_of ts)"
proof -
  have "map (\<lambda>c. group_at ts (mc_transactionInputOrdinal c)) (match_candidates u item ts) = map (\<lambda>g. g) (groups_of ts)"
    unfolding match_candidates_summary by (simp add: summary_group)
  with ranked_mset [of "\<lambda>c. group_at ts (mc_transactionInputOrdinal c)" u item ts] show ?thesis by simp
qed

lemma positions_group: "observation_group ` set (List.enumerate 0 ts) = set (map (group_at ts) [0..<length ts])"
  by (auto simp: enumerate_positions)

text \<open>The candidate of a group: its first observation among those with the least key, and how many there are.\<close>

definition represents :: "statement_transaction list \<Rightarrow> match_candidate \<Rightarrow> bool" where
  "represents ts c \<longleftrightarrow>
     (let i = mc_transactionInputOrdinal c in
      i < length ts \<and> list_all (\<lambda>j. observationKey (ts ! i) \<le> observationKey (ts ! j)) (same_group ts i) \<and>
      mc_transactionDedupKey c = st_dedupKey (ts ! i) \<and> mc_duplicateCount c = length (same_group ts i))"



end
