(* ===== verification/Reference_Words.thy ===== *)
theory Reference_Words
  imports Reconciliation "HOL-Library.Sublist"
begin

text \<open>
  References match whole words: \<open>referenceMatches\<close> of reconciliation.ts, which searches a text in another between
  blanks, finds the words of the reference, one after the other, among the words of the purpose.
\<close>

section \<open>The words of a text\<close>

function words :: "(char \<Rightarrow> bool) \<Rightarrow> string \<Rightarrow> string list" where
  "words P s =
     (case dropWhile (\<lambda>c. \<not> P c) s of
        [] \<Rightarrow> []
      | c # t \<Rightarrow> (c # takeWhile P t) # words P (dropWhile P t))"
  by pat_completeness auto
termination words
proof (relation "measure (\<lambda>(P, s). length s)")
  fix P :: "char \<Rightarrow> bool" and s c t assume "dropWhile (\<lambda>c. \<not> P c) s = c # t"
  then have "length (c # t) \<le> length s" by (metis length_dropWhile_le)
  moreover have "length (dropWhile P t) \<le> length t" by (rule length_dropWhile_le)
  ultimately show "((P, dropWhile P t), P, s) \<in> measure (\<lambda>(P, s). length s)" by simp
qed simp

declare words.simps [simp del]

lemma words_Nil [simp]: "words P [] = []"
  by (simp add: words.simps)

lemma words_skip: "words P (dropWhile (\<lambda>c. \<not> P c) s) = words P s"
  by (subst (1 2) words.simps) simp

lemma words_other [simp]: "\<not> P c \<Longrightarrow> words P (c # s) = words P s"
  by (subst (1 2) words.simps) simp

lemma words_word: "P c \<Longrightarrow> words P (c # s) = (c # takeWhile P s) # words P (dropWhile P s)"
  by (simp add: words.simps)

lemma words_are_words: "w \<in> set (words P s) \<Longrightarrow> w \<noteq> [] \<and> list_all P w"
proof (induction s rule: length_induct)
  case (1 s)
  show ?case
  proof (cases s)
    case (Cons c t)
    show ?thesis
    proof (cases "P c")
      case True
      then consider "w = c # takeWhile P t" | "w \<in> set (words P (dropWhile P t))" using 1(2) Cons by (auto simp: words_word)
      then show ?thesis
      proof cases
        case 1
        with True show ?thesis by (auto simp: list_all_iff dest: set_takeWhileD)
      next
        case 2
        have "length (dropWhile P t) < length s" using Cons length_dropWhile_le [of P t] by simp
        with 1(1) 2 show ?thesis by blast
      qed
    next
      case False
      have "length t < length s" "w \<in> set (words P t)" using 1(2) Cons False by simp_all
      with 1(1) show ?thesis by blast
    qed
  qed (use 1(2) in simp)
qed

section \<open>Folding writes the words between blanks\<close>

definition rtrim :: "string \<Rightarrow> string" where
  "rtrim s = rev (dropWhile js_space (rev s))"

lemma rtrim_append: "rtrim t \<noteq> [] \<Longrightarrow> rtrim (s @ t) = s @ rtrim t"
  unfolding rtrim_def rev_append by (simp add: dropWhile_append) (metis dropWhile_eq_Nil_conv)

lemma rtrim_word: "\<not> js_space c \<Longrightarrow> rtrim (s @ [c]) = s @ [c]"
  by (simp add: rtrim_def)

lemma rtrim_blank [simp]: "rtrim (s @ [blank]) = rtrim s"
  by (simp add: rtrim_def js_space_code)

lemma blank_runs_word: "list_all P w \<Longrightarrow> blank_runs P (w @ s) = w @ blank_runs P s"
  by (induction w) simp_all

lemma dropWhile_blank_runs:
  assumes "\<And>c. P c \<Longrightarrow> \<not> js_space c"
  shows "dropWhile js_space (blank_runs P s) = blank_runs P (dropWhile (\<lambda>c. \<not> P c) s)"
proof (cases s)
  case (Cons c t)
  have space: "js_space blank" by (simp add: js_space_code)
  have stops: "dropWhile js_space (blank_runs P r) = blank_runs P r" if "r = [] \<or> P (hd r)" for r
    using that assms by (cases r) auto
  have "dropWhile (\<lambda>c. \<not> P c) t = [] \<or> P (hd (dropWhile (\<lambda>c. \<not> P c) t))" by (metis hd_dropWhile)
  from stops [OF this] show ?thesis using Cons assms [of c] by (simp add: space)
qed simp

lemma join_words_ne: "(\<And>w. w \<in> set ws \<Longrightarrow> w \<noteq> []) \<Longrightarrow> ws \<noteq> [] \<Longrightarrow> join [blank] ws \<noteq> []"
  by (cases ws; cases "tl ws") auto

lemma rtrim_blank_runs:
  assumes space: "\<And>c. P c \<Longrightarrow> \<not> js_space c"
  shows "s = [] \<or> P (hd s) \<Longrightarrow> rtrim (blank_runs P s) = join [blank] (words P s)"
proof (induction s rule: length_induct)
  case (1 s)
  show ?case
  proof (cases s)
    case Nil
    then show ?thesis by (simp add: rtrim_def)
  next
    case (Cons c t)
    with 1(2) have c: "P c" by simp
    let ?w = "c # takeWhile P t" and ?rest = "dropWhile P t"
    have w: "list_all P ?w" using c by (auto simp: list_all_iff dest: set_takeWhileD)
    have s: "s = ?w @ ?rest" using Cons by simp
    have plain: "rtrim ?w = ?w"
    proof -
      have "P (last ?w)" using w by (metis last_in_set list.discI list_all_iff)
      with space show ?thesis by (metis append_butlast_last_id list.discI rtrim_word)
    qed
    show ?thesis
    proof (cases ?rest)
      case Nil
      have "blank_runs P s = ?w" using blank_runs_word [OF w, of ?rest] by (simp only: s Nil blank_runs.simps append_Nil2)
      moreover have "words P s = [?w]" using c Cons by (simp add: words_word Nil)
      ultimately show ?thesis using plain by simp
    next
      case rest: (Cons d r)
      then have d: "\<not> P d" by (metis hd_dropWhile list.discI list.sel(1))
      let ?r = "dropWhile (\<lambda>c. \<not> P c) r"
      have runs: "blank_runs P s = ?w @ blank # blank_runs P ?r"
        using blank_runs_word [OF w, of ?rest] s d by (simp add: rest)
      have ws: "words P s = ?w # words P ?r" using c d Cons by (simp add: words_word rest words_skip)
      have "length ?r < length s"
        using length_dropWhile_le [of "\<lambda>c. \<not> P c" r] length_dropWhile_le [of P t] unfolding Cons rest by simp
      moreover have "?r = [] \<or> P (hd ?r)" by (metis hd_dropWhile)
      ultimately have IH: "rtrim (blank_runs P ?r) = join [blank] (words P ?r)" using 1(1) by blast
      show ?thesis
      proof (cases "words P ?r")
        case Nil
        have "?r = []"
        proof (rule ccontr)
          assume "?r \<noteq> []"
          with \<open>?r = [] \<or> P (hd ?r)\<close> have "words P ?r \<noteq> []" by (cases ?r) (simp_all add: words_word)
          with Nil show False by simp
        qed
        have "blank_runs P s = ?w @ [blank]" using runs unfolding \<open>?r = []\<close> by simp
        then have "rtrim (blank_runs P s) = ?w" using plain rtrim_blank [of ?w] by (simp only:)
        then show ?thesis using ws Nil by simp
      next
        case ne: (Cons v vs)
        have "join [blank] (words P ?r) \<noteq> []" by (rule join_words_ne) (use words_are_words [of _ P ?r] ne in auto)
        then have "rtrim (blank_runs P ?r) \<noteq> []" using IH by simp
        from rtrim_append [OF this, of "?w @ [blank]"] show ?thesis using runs ws ne IH by simp
      qed
    qed
  qed
qed

lemma folded_words:
  assumes "\<And>c. P c \<Longrightarrow> \<not> js_space c"
  shows "trim (blank_runs P s) = join [blank] (words P s)"
proof -
  have "dropWhile (\<lambda>c. \<not> P c) s = [] \<or> P (hd (dropWhile (\<lambda>c. \<not> P c) s))" by (metis hd_dropWhile)
  then have "rtrim (blank_runs P (dropWhile (\<lambda>c. \<not> P c) s)) = join [blank] (words P (dropWhile (\<lambda>c. \<not> P c) s))"
    by (rule rtrim_blank_runs [of P, rotated]) (rule assms)
  then show ?thesis
    by (simp add: trim_def dropWhile_blank_runs [OF assms] words_skip flip: rtrim_def)
qed

section \<open>Searching between blanks\<close>

definition spaced :: "string list \<Rightarrow> string" where
  "spaced ws = concat (map (\<lambda>w. w @ [blank]) ws)"

lemma spaced_simps [simp]: "spaced [] = []" "spaced (w # ws) = w @ blank # spaced ws"
  by (simp_all add: spaced_def)

lemma spaced_join: "ws \<noteq> [] \<Longrightarrow> join [blank] ws @ [blank] = spaced ws"
proof (induction ws)
  case (Cons w ws)
  then show ?case by (cases ws) simp_all
qed simp

lemma includes_sublist: "includes_text s t \<longleftrightarrow> sublist t s"
proof -
  have "startsWith t s \<longleftrightarrow> prefix t s" for s t :: string
    unfolding startsWith_def prefix_def by (metis append_eq_conv_conj append_take_drop_id)
  then show ?thesis by (induction s) (auto simp: sublist_Cons_right)
qed

lemma blank_free_eq: "blank \<notin> set v \<Longrightarrow> blank \<notin> set w \<Longrightarrow> v @ blank # s = w @ blank # t \<Longrightarrow> v = w \<and> s = t"
  by (induction v arbitrary: w) (auto simp: Cons_eq_append_conv)

lemma prefix_spaced:
  "(\<And>w. w \<in> set vs \<union> set ws \<Longrightarrow> blank \<notin> set w) \<Longrightarrow> prefix (spaced vs) (spaced ws) \<longleftrightarrow> prefix vs ws"
proof (induction vs arbitrary: ws)
  case (Cons v vs)
  show ?case
  proof (cases ws)
    case Nil
    then show ?thesis by simp
  next
    case ws: (Cons w ws')
    have "prefix (spaced (v # vs)) (spaced ws) \<longleftrightarrow> v = w \<and> prefix (spaced vs) (spaced ws')"
    proof
      assume "prefix (spaced (v # vs)) (spaced ws)"
      then obtain z where "v @ blank # (spaced vs @ z) = w @ blank # spaced ws'" by (auto simp: ws prefix_def)
      from blank_free_eq [OF _ _ this] Cons.prems ws have "v = w" "spaced vs @ z = spaced ws'" by auto
      then show "v = w \<and> prefix (spaced vs) (spaced ws')" unfolding prefix_def by metis
    qed (auto simp: ws prefix_def)
    also have "\<dots> \<longleftrightarrow> prefix (v # vs) ws" using Cons.IH [of ws'] Cons.prems ws by simp
    finally show ?thesis .
  qed
qed simp

lemma sublist_skip: "blank \<notin> set w \<Longrightarrow> sublist (blank # t) (w @ s) \<longleftrightarrow> sublist (blank # t) s"
  by (induction w) (auto simp: sublist_Cons_right)

lemma sublist_spaced:
  assumes "vs \<noteq> []" "\<And>w. w \<in> set vs \<union> set ws \<Longrightarrow> blank \<notin> set w"
  shows "sublist (blank # spaced vs) (blank # spaced ws) \<longleftrightarrow> sublist vs ws"
  using assms(2)
proof (induction ws)
  case Nil
  then show ?case using assms(1) by (cases vs) (auto simp: sublist_Cons_right)
next
  case (Cons w ws)
  have skip: "sublist (blank # spaced vs) (spaced (w # ws)) \<longleftrightarrow> sublist (blank # spaced vs) (blank # spaced ws)"
    using sublist_skip [of w "spaced vs" "blank # spaced ws"] Cons.prems [of w] by simp
  have "sublist (blank # spaced vs) (blank # spaced (w # ws)) \<longleftrightarrow>
      prefix (spaced vs) (spaced (w # ws)) \<or> sublist (blank # spaced vs) (spaced (w # ws))"
    by (simp add: sublist_Cons_right)
  also have "\<dots> \<longleftrightarrow> prefix vs (w # ws) \<or> sublist vs ws"
    using prefix_spaced [of vs "w # ws"] Cons.IH Cons.prems skip by auto
  also have "\<dots> \<longleftrightarrow> sublist vs (w # ws)" by (simp add: sublist_Cons_right)
  finally show ?case .
qed

section \<open>The property\<close>

definition words_of :: "unicode \<Rightarrow> string \<Rightarrow> string list" where
  "words_of u s = words (un_word u) (un_lower u (filter (\<lambda>c. \<not> un_mark u c) (un_nfkd u s)))"

definition white_space :: string where
  "white_space = [CHR 0x09, CHR 0x0A, CHR 0x0B, CHR 0x0C, CHR 0x0D, blank, CHR 0xA0]"

text \<open>C39. A reference is found exactly when it has a word and its words stand, whole and one after the other, among the
  words of the purpose: an invoice number is never found inside a longer one.  White space is neither letter nor number.\<close>

theorem reference_whole_words:
  assumes "list_all (\<lambda>c. \<not> un_word u c) white_space"
  shows "referenceMatches u reference haystack \<longleftrightarrow> words_of u reference \<noteq> [] \<and> sublist (words_of u reference) (words_of u haystack)"
proof -
  have space: "\<not> js_space c" if "un_word u c" for c
    using assms that by (auto simp: white_space_def js_space_code)
  have folded: "folded u (Some s) = join [blank] (words_of u s)" for s
    by (simp add: folded_def words_of_def folded_words [OF space])
  have free: "w \<noteq> [] \<and> blank \<notin> set w" if "w \<in> set (words_of u s)" for w s
    using words_are_words [of w "un_word u"] that space [of blank] by (auto simp: words_of_def list_all_iff js_space_code)
  show ?thesis
  proof (cases "words_of u reference = []")
    case False
    have needle: "join [blank] (words_of u reference) \<noteq> []" by (rule join_words_ne) (use free False in auto)
    have "sublist (blank # spaced (words_of u reference)) ([blank] @ join [blank] (words_of u haystack) @ [blank]) \<longleftrightarrow>
        sublist (words_of u reference) (words_of u haystack)"
    proof (cases "words_of u haystack = []")
      case True
      obtain v vs where v: "words_of u reference = v # vs" "v \<noteq> []" using False free [of _ reference] by (cases "words_of u reference") (force, simp)
      have "\<not> sublist (blank # spaced (v # vs)) [blank, blank]"
        using v free [of v reference] by (cases v) (auto simp: sublist_Cons_right)
      with True v show ?thesis by simp
    next
      case ne: False
      show ?thesis
        unfolding append_Cons append_Nil spaced_join [OF ne] by (rule sublist_spaced [OF False]) (use free in blast)
    qed
    with False needle show ?thesis
      by (simp add: referenceMatches_def folded Let_def includes_sublist flip: spaced_join)
  qed (simp add: referenceMatches_def folded)
qed

definition example_unicode :: unicode where
  "example_unicode = \<lparr>un_nfkd = id, un_mark = (\<lambda>_. False), un_lower = id, un_upper = id,
     un_word = (\<lambda>c. c \<in> set ''abcdefghijklmnopqrstuvwxyz0123456789'')\<rparr>"

lemma example_white_space: "list_all (\<lambda>c. \<not> un_word example_unicode c) white_space"
  by code_simp

theorem reference_whole_words_witness:
  "\<not> referenceMatches example_unicode ''re-17'' ''paid re-172''"
proof -
  have "words_of example_unicode ''re-17'' = [''re'', ''17''] \<and> words_of example_unicode ''paid re-172'' = [''paid'', ''re'', ''172'']"
    by code_simp
  then show ?thesis
    using reference_whole_words [OF example_white_space, of "''re-17''" "''paid re-172''"] by (simp add: sublist_Cons_right)
qed

end
