(* ===== verification/Shortlist.thy ===== *)
theory Shortlist
  imports Reconciliation_Safety Reference_Words
begin

text \<open>
  The shortlist of reconciliation-flow.ts keeps every observation of a chosen transaction, so that ranking the shortlist finds
  what ranking everything would have found.
\<close>

section \<open>A finding depends on the observations only\<close>

text \<open>A candidate without its rank and its place in the input, and the transaction it is about.\<close>

definition unplaced :: "match_candidate \<Rightarrow> match_candidate" where
  "unplaced c = c\<lparr>mc_rank := 0, mc_transactionInputOrdinal := 0\<rparr>"

definition least_observation :: "statement_transaction list \<Rightarrow> statement_transaction" where
  "least_observation ts = snd (pick (map (Pair 0) ts))"

definition finding :: "unicode \<Rightarrow> open_item \<Rightarrow> statement_transaction list \<Rightarrow> match_candidate \<times> statement_transaction" where
  "finding u item ts = (unplaced (summary u item (map (Pair 0) ts)), least_observation ts)"

lemma foldl_least:
  "snd (foldl (\<lambda>c p. if entry_key p < entry_key c then p else c) a ps) =
   snd (foldl (\<lambda>c p. if entry_key p < entry_key c then p else c) (0, snd a) (map (\<lambda>p. (0, snd p)) ps))"
proof (induction ps arbitrary: a)
  case (Cons p ps)
  show ?case by (simp add: Cons.IH [of "if entry_key p < entry_key a then p else a"])
qed simp

lemma pick_observation: "ps \<noteq> [] \<Longrightarrow> snd (pick ps) = least_observation (map snd ps)"
  using foldl_least [of "hd ps" "tl ps"] by (cases ps) (simp_all add: pick_def least_observation_def comp_def)

lemma agreeing_observations: "agreeing ps = agreeing (map (Pair 0) (map snd ps))"
  by (simp add: agreeing_def)

lemma unplaced_candidate: "unplaced (match_candidate_of u item n conflict (t, i)) = unplaced (match_candidate_of u item n conflict (t, 0))"
  by (simp add: unplaced_def match_candidate_of_def Let_def)

lemma summary_finding:
  assumes "ps \<noteq> []"
  shows "(unplaced (summary u item ps), snd (pick ps)) = finding u item (map snd ps)"
proof -
  have swap: "unplaced (summary u item qs) = unplaced (match_candidate_of u item (length qs) (\<not> agreeing qs) (snd (pick qs), 0))" for qs
    using unplaced_candidate [of u item "length qs" "\<not> agreeing qs" "snd (pick qs)" "fst (pick qs)"]
    by (simp add: summary_def prod.swap_def)
  have "snd (pick (map (Pair 0) (map snd ps))) = snd (pick ps)"
    using pick_observation [OF assms] by (simp add: least_observation_def)
  then show ?thesis
    using pick_observation [OF assms] agreeing_observations [of ps] by (simp add: finding_def swap)
qed

definition findings :: "unicode \<Rightarrow> open_item \<Rightarrow> statement_transaction list \<Rightarrow> (match_candidate \<times> statement_transaction) set" where
  "findings u item ts = (\<lambda>c. (unplaced c, ts ! mc_transactionInputOrdinal c)) ` set (rankInvoiceTransactions u item ts)"

lemma unplaced_rank [simp]: "unplaced (c\<lparr>mc_rank := n\<rparr>) = unplaced c"
  by (simp add: unplaced_def)

lemma found_position:
  assumes "c \<in> set (rankInvoiceTransactions u item ts)" "mc_transactionInputOrdinal c = i"
  shows "i < length ts" "(unplaced c, ts ! i) = finding u item (map ((!) ts) (same_group ts i))"
proof -
  obtain k n where k: "k < length ts" "mc_transactionInputOrdinal c = k"
      "c = (summary u item (map (\<lambda>j. (j, ts ! j)) (same_group ts k)))\<lparr>mc_rank := n\<rparr>"
      "pick (map (\<lambda>j. (j, ts ! j)) (same_group ts k)) = (k, ts ! k)"
    by (rule ranked_positions [OF assms(1)])
  have "k = i" using k(2) assms(2) by simp
  note c = k(1,3,4) [unfolded this]
  show "i < length ts" by (rule c(1))
  have "map (\<lambda>j. (j, ts ! j)) (same_group ts i) \<noteq> []" using c(1) by (auto simp: same_group_def filter_empty_conv)
  from summary_finding [OF this, of u item] c(2,3) show "(unplaced c, ts ! i) = finding u item (map ((!) ts) (same_group ts i))"
    by (simp add: comp_def)
qed

lemma findings_positions: "findings u item ts = (\<lambda>i. finding u item (map ((!) ts) (same_group ts i))) ` {..<length ts}"
proof
  show "findings u item ts \<subseteq> (\<lambda>i. finding u item (map ((!) ts) (same_group ts i))) ` {..<length ts}"
    using found_position by (fastforce simp: findings_def)
  show "(\<lambda>i. finding u item (map ((!) ts) (same_group ts i))) ` {..<length ts} \<subseteq> findings u item ts"
  proof
    fix x assume "x \<in> (\<lambda>i. finding u item (map ((!) ts) (same_group ts i))) ` {..<length ts}"
    then obtain i where i: "i < length ts" "x = finding u item (map ((!) ts) (same_group ts i))" by auto
    have "group_at ts i \<in> set (map (\<lambda>c. group_at ts (mc_transactionInputOrdinal c)) (rankInvoiceTransactions u item ts))"
      using mset_eq_setD [OF ranked_groups [of ts u item]] i(1) unfolding groups_of positions_group by auto
    then obtain c where c: "c \<in> set (rankInvoiceTransactions u item ts)" "group_at ts (mc_transactionInputOrdinal c) = group_at ts i" by auto
    have "same_group ts (mc_transactionInputOrdinal c) = same_group ts i" by (simp add: same_group_def c(2))
    then have "x = (unplaced c, ts ! mc_transactionInputOrdinal c)" using found_position(2) [OF c(1) refl] i(2) by simp
    with c(1) show "x \<in> findings u item ts" unfolding findings_def by blast
  qed
qed

section \<open>Groups are provider identities, or single rows\<close>

abbreviation of_provider :: "string \<Rightarrow> statement_transaction \<Rightarrow> bool" where
  "of_provider k t \<equiv> st_dedupBasis t = ProviderId \<and> st_dedupKey t = k"

definition plain_keys :: "statement_transaction list \<Rightarrow> bool" where
  "plain_keys ts \<longleftrightarrow> list_all (\<lambda>t. st_dedupBasis t = Fingerprint \<or> \<not> startsWith ''occurrence:'' (st_dedupKey t)) ts"

lemma occurrence_key: "startsWith ''occurrence:'' (''occurrence:'' @ s)"
  by (simp add: startsWith_def)

lemma group_at_same:
  assumes plain: "plain_keys ts" and ij: "i < length ts" "j < length ts"
  shows "group_at ts j = group_at ts i \<longleftrightarrow>
    (if st_dedupBasis (ts ! i) = ProviderId then of_provider (st_dedupKey (ts ! i)) (ts ! j) else j = i)"
proof -
  have "st_dedupKey (ts ! k) \<noteq> ''occurrence:'' @ s" if "k < length ts" "st_dedupBasis (ts ! k) = ProviderId" for k s
    using plain that occurrence_key [of s] by (auto simp: plain_keys_def list_all_length)
  from this [OF ij(1)] this [OF ij(2)] show ?thesis
    by (cases "st_dedupBasis (ts ! i)"; cases "st_dedupBasis (ts ! j)") (auto simp: observation_group_def eq_commute)
qed

lemma filter_positions: "map ((!) ts) (filter (\<lambda>j. Q (ts ! j)) [0..<length ts]) = filter Q ts"
proof -
  have "filter Q (map ((!) ts) [0..<length ts]) = map ((!) ts) (filter (\<lambda>j. Q (ts ! j)) [0..<length ts])"
    by (simp add: filter_map comp_def)
  then show ?thesis by (simp add: map_nth)
qed

lemma same_group_rows:
  assumes plain: "plain_keys ts" and i: "i < length ts"
  shows "map ((!) ts) (same_group ts i) =
    (if st_dedupBasis (ts ! i) = ProviderId then filter (of_provider (st_dedupKey (ts ! i))) ts else [ts ! i])"
proof (cases "st_dedupBasis (ts ! i) = ProviderId")
  case True
  have "same_group ts i = filter (\<lambda>j. of_provider (st_dedupKey (ts ! i)) (ts ! j)) [0..<length ts]"
    unfolding same_group_def by (rule filter_cong [OF refl]) (use group_at_same [OF plain i] True in auto)
  then show ?thesis using True filter_positions [where Q = "of_provider (st_dedupKey (ts ! i))" and ts = ts] by simp
next
  case False
  have "same_group ts i = filter (\<lambda>j. j = i) [0..<length ts]"
    unfolding same_group_def by (rule filter_cong [OF refl]) (use group_at_same [OF plain i] False in auto)
  moreover have "filter (\<lambda>j. j = i) [0..<n] = [i]" if "i < n" for n using that by (induction n) (auto simp: less_Suc_eq)
  ultimately show ?thesis using i False by simp
qed

definition rows_of :: "statement_transaction list \<Rightarrow> statement_transaction \<Rightarrow> statement_transaction list" where
  "rows_of ts t = (if st_dedupBasis t = ProviderId then filter (of_provider (st_dedupKey t)) ts else [t])"

lemma findings_rows:
  assumes "plain_keys ts"
  shows "findings u item ts = (\<lambda>t. finding u item (rows_of ts t)) ` set ts"
proof -
  have "(\<lambda>i. finding u item (map ((!) ts) (same_group ts i))) ` {..<length ts} = (\<lambda>i. finding u item (rows_of ts (ts ! i))) ` {..<length ts}"
    by (rule image_cong [OF refl]) (simp add: same_group_rows [OF assms] rows_of_def)
  also have "\<dots> = (\<lambda>t. finding u item (rows_of ts t)) ` ((!) ts ` {..<length ts})" by (simp add: image_image)
  also have "(!) ts ` {..<length ts} = set ts" by (auto simp: in_set_conv_nth)
  finally show ?thesis unfolding findings_positions .
qed

text \<open>A part of the transactions that has all rows of every identity it mentions finds part of the same.\<close>

lemma part_finds:
  assumes "plain_keys ts" "set part \<subseteq> set ts" "\<And>k. filter (of_provider k) part = [] \<or> filter (of_provider k) part = filter (of_provider k) ts"
  shows "findings u item part \<subseteq> findings u item ts"
proof -
  have "rows_of part t = rows_of ts t" if "t \<in> set part" for t
    using assms(3) [of "st_dedupKey t"] that by (auto simp: rows_of_def filter_empty_conv)
  moreover have "plain_keys part" using assms(1,2) by (auto simp: plain_keys_def list_all_iff)
  ultimately show ?thesis using assms(1,2) by (auto simp: findings_rows)
qed

section \<open>The shortlist has all rows\<close>

abbreviation row_of :: "string \<Rightarrow> stored_transaction \<Rightarrow> bool" where
  "row_of k s \<equiv> of_provider k (sa_payload s)"

definition complete :: "stored_transaction list \<Rightarrow> match_candidate list \<Rightarrow> stored_transaction list \<Rightarrow> bool" where
  "complete source cs chosen \<longleftrightarrow> set chosen \<subseteq> set source \<and>
     (\<forall>k. filter (row_of k) chosen = [] \<or>
       (filter (row_of k) chosen = filter (row_of k) source \<and> (\<forall>c\<in>set cs. \<not> row_of k (source ! mc_transactionInputOrdinal c))))"

lemma complete_less: "complete source (c # cs) chosen \<Longrightarrow> complete source cs chosen"
  unfolding complete_def by (meson list.set_intros(2))

lemma complete_group:
  assumes "complete source (c # cs) chosen" "mc_transactionInputOrdinal c < length source"
    and fresh: "\<And>k c'. c' \<in> set cs \<Longrightarrow> row_of k (source ! mc_transactionInputOrdinal c) \<Longrightarrow> \<not> row_of k (source ! mc_transactionInputOrdinal c')"
  shows "complete source cs (chosen @ shortlist_group source c)"
  unfolding complete_def
proof (intro conjI allI)
  let ?r = "source ! mc_transactionInputOrdinal c"
  have r: "?r \<in> set source" using assms(2) by simp
  then show "set (chosen @ shortlist_group source c) \<subseteq> set source"
    using assms(1) by (auto simp: complete_def shortlist_group_def Let_def)
  fix k
  have old: "filter (row_of k) chosen = [] \<or>
      (filter (row_of k) chosen = filter (row_of k) source \<and> (\<forall>c'\<in>set (c # cs). \<not> row_of k (source ! mc_transactionInputOrdinal c')))"
    using assms(1) unfolding complete_def by blast
  show "filter (row_of k) (chosen @ shortlist_group source c) = [] \<or>
      (filter (row_of k) (chosen @ shortlist_group source c) = filter (row_of k) source \<and>
       (\<forall>c'\<in>set cs. \<not> row_of k (source ! mc_transactionInputOrdinal c')))"
  proof (cases "row_of k ?r")
    case True
    then have "filter (row_of k) chosen = []" using old by auto
    moreover have "filter (row_of k) (shortlist_group source c) = filter (row_of k) source"
      using True by (auto simp: shortlist_group_def Let_def intro!: filter_cong)
    ultimately show ?thesis using fresh [OF _ True] by simp
  next
    case False
    then have "filter (row_of k) (shortlist_group source c) = []" by (auto simp: shortlist_group_def Let_def filter_empty_conv)
    then show ?thesis using old by auto
  qed
qed

lemma loop_complete:
  assumes "complete source cs chosen" "distinct (map (\<lambda>c. group_at (map sa_payload source) (mc_transactionInputOrdinal c)) cs)"
    and "\<And>c. c \<in> set cs \<Longrightarrow> mc_transactionInputOrdinal c < length source"
  shows "complete source [] (fst (shortlist_loop limit source cs (chosen, truncated)))"
  using assms
proof (induction cs arbitrary: chosen truncated)
  case (Cons c cs)
  have rest: "distinct (map (\<lambda>c. group_at (map sa_payload source) (mc_transactionInputOrdinal c)) cs)"
    "\<And>c. c \<in> set cs \<Longrightarrow> mc_transactionInputOrdinal c < length source" using Cons.prems by simp_all
  have c: "mc_transactionInputOrdinal c < length source" using Cons.prems(3) by simp
  have fresh: "\<not> row_of k (source ! mc_transactionInputOrdinal c')"
    if c': "c' \<in> set cs" and k: "row_of k (source ! mc_transactionInputOrdinal c)" for k c'
  proof
    assume "row_of k (source ! mc_transactionInputOrdinal c')"
    then have same: "group_at (map sa_payload source) (mc_transactionInputOrdinal c') = group_at (map sa_payload source) (mc_transactionInputOrdinal c)"
      using k c rest(2) [OF c'] by (simp add: observation_group_def)
    let ?g = "\<lambda>c. group_at (map sa_payload source) (mc_transactionInputOrdinal c)"
    have "?g c' \<in> ?g ` set cs" by (rule imageI [OF c'])
    moreover have "?g c \<notin> ?g ` set cs"
      using Cons.prems(2) unfolding list.map distinct.simps set_map by blast
    ultimately show False unfolding same by blast
  qed
  have skipped: "complete source [] (fst (shortlist_loop limit source cs (chosen, True)))"
    by (rule Cons.IH [OF complete_less [OF Cons.prems(1)] rest])
  have "complete source cs (chosen @ shortlist_group source c)" by (rule complete_group [OF Cons.prems(1) c fresh])
  then have taken: "complete source [] (fst (shortlist_loop limit source cs (chosen @ shortlist_group source c, truncated)))"
    by (rule Cons.IH [OF _ rest])
  show ?case
  proof (cases "limit < length chosen + length (shortlist_group source c)")
    case True
    then have "shortlist_loop limit source (c # cs) (chosen, truncated) = shortlist_loop limit source cs (chosen, True)"
      by (simp add: Let_def)
    with skipped show ?thesis by (simp only:)
  next
    case False
    then have "shortlist_loop limit source (c # cs) (chosen, truncated) =
        shortlist_loop limit source cs (chosen @ shortlist_group source c, truncated)" by (simp add: Let_def)
    with taken show ?thesis by (simp only:)
  qed
qed simp

lemma shortlist_complete: "complete source [] (fst (shortlist u limit item source))"
  unfolding shortlist_def
proof (rule loop_complete)
  let ?ts = "map sa_payload source"
  let ?ranked = "rankInvoiceTransactions u item ?ts"
  show "complete source (filter (\<lambda>c. am_basis (mc_amount c) \<noteq> None) ?ranked) []" by (simp add: complete_def)
  have "distinct (map (\<lambda>c. group_at ?ts (mc_transactionInputOrdinal c)) ?ranked)"
    using ranked_groups [of ?ts u item] groups_of(1) [of ?ts] by (metis mset_eq_imp_distinct_iff)
  then show "distinct (map (\<lambda>c. group_at ?ts (mc_transactionInputOrdinal c)) (filter (\<lambda>c. am_basis (mc_amount c) \<noteq> None) ?ranked))"
    by (rule distinct_map_filter)
  show "mc_transactionInputOrdinal c < length source" if "c \<in> set (filter (\<lambda>c. am_basis (mc_amount c) \<noteq> None) ?ranked)" for c
    using found_position(1) [of c u item ?ts] that by simp
qed

section \<open>The property\<close>

text \<open>C40. Whatever the limit, ranking the shortlist finds for each of its transactions what ranking everything finds: the same
  observation, amounts, score, reasons, blockers, number of observations and recommendation.  Provider identities must not
  look like the names the ranker gives to rows without one.\<close>

theorem shortlist_preserves:
  assumes "plain_keys (map sa_payload source)"
  shows "(let chosen = map sa_payload (fst (shortlist u limit item source)); all_rows = map sa_payload source in
    list_all (\<lambda>c. list_ex (\<lambda>c'. unplaced c' = unplaced c \<and>
        all_rows ! mc_transactionInputOrdinal c' = chosen ! mc_transactionInputOrdinal c) (rankInvoiceTransactions u item all_rows))
      (rankInvoiceTransactions u item chosen))"
proof -
  let ?chosen = "map sa_payload (fst (shortlist u limit item source))" and ?all = "map sa_payload source"
  have payload: "filter (of_provider k) (map sa_payload ss) = map sa_payload (filter (row_of k) ss)" for k ss
    by (simp add: filter_map comp_def)
  have part: "set (fst (shortlist u limit item source)) \<subseteq> set source"
      "filter (row_of k) (fst (shortlist u limit item source)) = [] \<or>
       filter (row_of k) (fst (shortlist u limit item source)) = filter (row_of k) source" for k
    using shortlist_complete [of source u limit item] unfolding complete_def by blast+
  have "findings u item ?chosen \<subseteq> findings u item ?all"
  proof (rule part_finds [OF assms])
    show "set ?chosen \<subseteq> set ?all" using part(1) by auto
    show "filter (of_provider k) ?chosen = [] \<or> filter (of_provider k) ?chosen = filter (of_provider k) ?all" for k
      using part(2) [of k] unfolding payload by auto
  qed
  then have "\<exists>c'\<in>set (rankInvoiceTransactions u item ?all). unplaced c' = unplaced c \<and>
      ?all ! mc_transactionInputOrdinal c' = ?chosen ! mc_transactionInputOrdinal c"
    if "c \<in> set (rankInvoiceTransactions u item ?chosen)" for c
    using that unfolding findings_def by fastforce
  then show ?thesis unfolding Let_def list_all_iff list_ex_iff by blast
qed

section \<open>A witness\<close>

definition example_item :: open_item where
  "example_item = \<lparr>oi_businessKey = ''k'', oi_documentKind = ''invoice'', oi_direction = Payable, oi_supplierName = ''acme'',
     oi_supplierIbans = [], oi_invoiceNumber = ''re2017'', oi_orderNumber = None, oi_issueDate = Some ''2024-02-28'', oi_dueDate = None,
     oi_currency = ''EUR'', oi_grossMinor = 500, oi_amountDueMinor = 500, oi_amountPaidMinor = None, oi_references = [''re2017''],
     oi_validationStatus = Consistent, oi_summary = []\<rparr>"

definition example_row :: "string \<Rightarrow> dedup_basis \<Rightarrow> int \<Rightarrow> stored_transaction" where
  "example_row key basis amount = \<lparr>sa_artifactId = key, sa_payload =
     \<lparr>st_dedupKey = key, st_dedupBasis = basis, st_accountRef = ''a'', st_providerTransactionId = None, st_bookingDate = Some ''2024-03-01'',
      st_valueDate = None, st_title = None, st_amountMinor = Some amount, st_currency = Some ''EUR'', st_counterpartyName = None,
      st_counterpartyIban = None, st_description = Some ''re2017'', st_originalAmountMinor = None, st_originalCurrency = None,
      st_exchangeRate = None, st_fxSurchargeMinor = None, st_foreignExchangeFeeBps = None, st_balanceAfterMinor = None,
      st_sourceRow = None, st_sourceOrdinal = 0, st_statementValidationStatus = Consistent, st_statementCoverage = CoverageVerified\<rparr>\<rparr>"

definition example_rows :: "stored_transaction list" where
  "example_rows = [example_row ''p'' ProviderId (- 500), example_row ''f'' Fingerprint (- 500), example_row ''p'' ProviderId (- 700)]"

lemma example_plain: "plain_keys (map sa_payload example_rows)"
  by code_simp

lemma example_shortlist: "map sa_artifactId (fst (shortlist example_unicode 3 example_item example_rows)) = [''f'', ''p'', ''p'']"
  by code_simp

theorem shortlist_preserves_witness:
  "map sa_artifactId (fst (shortlist example_unicode 3 example_item example_rows)) = [''f'', ''p'', ''p''] \<and>
   (let chosen = map sa_payload (fst (shortlist example_unicode 3 example_item example_rows)); all_rows = map sa_payload example_rows in
    list_all (\<lambda>c. list_ex (\<lambda>c'. unplaced c' = unplaced c \<and>
        all_rows ! mc_transactionInputOrdinal c' = chosen ! mc_transactionInputOrdinal c)
        (rankInvoiceTransactions example_unicode example_item all_rows))
      (rankInvoiceTransactions example_unicode example_item chosen))"
  by (rule conjI [OF example_shortlist shortlist_preserves [OF example_plain]])

end
