(* ===== verification/Spec2Isabelle.thy ===== *)
theory Spec2Isabelle
  imports Plan_Executor Machine Runner_Invariant Runner_Host Gate Flow Observation_Run Session Canonical Directory_Safety Arrival Shortlist
begin

text \<open>
  AvenOS: the actor runtime, the customer directory and the reconciliation of invoices, verified.

  \<^bold>\<open>The program.\<close>  The library libs/aven-actors of the repository is the runtime on which the applications run.
  Actors declare, in a manifest, methods that require and produce predicates.  A planner proves goals from the
  facts at hand by forward chaining over these declarations; an authorization layer cuts the catalog down to what a
  principal may use and places every step on an instance or a factory offer; an executor runs such a program
  through the host's services; a runner keeps the durable record of every run, with its continuations,
  checkpoints and cancellation; the message bus connects live actors, with a human gate in front of methods that
  ask for one.  services/actor-runner composes these parts into a service.  What runs publish is identified by the
  digest of its canonical JSON, which libs/aven-artifact-store writes and reads.

  Every customer has an environment: a database on one of several runtimes.  The directory of environments is a database
  of its own.  services/aven-api writes purchases and revocations into it and authorizes requests from it;
  services/platform-provisioner claims and settles the work that follows, and moves customers from runtime to runtime: a
  movement pauses its customer, is driven through its phases by a controller that holds a lock, and is activated last.

  \<^bold>\<open>Theories, in the order of the layers.\<close>
  \<^item> Prelude: errors as values (\<open>err + 'a\<close>), the string and array functions of JavaScript, insertion-ordered maps and
    sets, stable sorting (Sort_Multiset: it keeps the elements).  Systems: the locales of invariants, protocols, simulations and refinements.  Effects:
    computations that call the outside, with a trace of their calls and a logic of triples.  JsValue: JSON data.
  \<^item> Terms (term.ts): \<open>parseTerm\<close>, \<open>resolve\<close>, \<open>unify\<close>; unification is decided and its result most general.
    Ids (ids.ts): resource identities and their parser.  Contracts (actor.ts): predicates, manifests, the merge law.
    Machine (machine.ts): the fact reader for state machines and the gate \<open>legal\<close>.
  \<^item> Planner (planner.ts): capabilities, \<open>matchRequirements\<close>, \<open>solve\<close>, \<open>planEnrichment\<close>.  Planner_Match: the matcher
    is the join of the facts, cut at its limits.  Planner_Solve: programs are executable, prove their goals and
    respect their bounds; the step limit loses programs.  Planner_Enrich: enrichment runs each invocation once,
    never on its own consequences, and stops only when saturated.
  \<^item> Registry (registry.ts): definitions, instances and offers under one revision.  Authorization (authorization.ts):
    the view of one principal.  Physical (physical-planner.ts): plans over the view, with authorized placements.
    Affordances (affordances.ts): offered actions are grounded and have a route.
  \<^item> Run (run.ts): states and transitions of a run, portable values.  Executor and Executor_Safety (executor.ts,
    factory.ts): every spawn, delivery and publication of an execution follows its permission, and everything spawned
    is released.  Plan_Executor: the composition of planning and execution.
  \<^item> Runner, Runner_Safety, Runner_Invariant (memory-runner.ts): the methods cut at their awaits, interleaved
    freely; every reachable state is well formed, revisions grow, commands are idempotent, secrets are not kept, no run
    is stuck.  Runner_Host (execution.ts, application-executor.ts, host.ts): the composition of the service.
  \<^item> Actor (actor.ts): construction, derived interface, and the mailbox as a machine that implements a queue with one
    server.  Session (sandbox.ts, and the methods of actor.ts and bus.ts that use it): calls into the sandbox, grants.
    Bus (bus.ts): directory, routing, emissions, human gate, flow graph.  Gate: every interleaving of the gate's calls
    is a run of an automaton.  Flow: the directory invariant, the layering of actors, whom emissions reach.
  \<^item> Observation (observation-solver.ts): the solver that plans only from committed observations.
    Observation_Frontier: the frontier is exactly what the facts justify.  Observation_Run: what results rest on and
    how the host's port is used.
  \<^item> Canonical (libs/aven-artifact-store/src/canonical.ts): the canonical text of Artifact JSON and its strict parser.
    The text is well-formed, is read back, and is one for all orders of the entries; what is read is canonical data.

  \<^item> Tables: queries, updates and transactions on lists of rows.  Directory: the tables of the customer directory
    (services/aven-api/migrations).  Placement: the customer store (services/aven-api/src/customers/store.ts), the policy of
    memberships (libs/aven-customer-contracts) and the work queue (services/platform-provisioner/src/control.ts).  Movement: the
    store of movements (movement.ts of the provisioner).  Directory_Run: all calls as one system, in any order; a moving
    customer is held by one movement.  Directory_Safety: keys and value constraints; who may change a placement; what stands behind
    a grant; events act once.  Resume: the controller of a movement, with interference at every await; it ends, and calls
    its driver in order.  Arrival: left alone, it brings its customer to the destination.

  \<^item> Reconciliation (libs/aven-document-ingest/src/reconciliation.ts, and the shortlist of reconciliation-flow.ts): ranking
    the transactions of a statement against an invoice, which reviewers decide on.  Reconciliation_Safety: each transaction is ranked
    once, and is eligible exactly when the evidence is there.  Reference_Words: references match whole words.  Shortlist:
    bounding what is ranked hides nothing.

  \<^bold>\<open>How code becomes definitions.\<close>  Classes and interfaces are records, unions are datatypes, and definitions keep the
  source's names; the record of a class holds its private members and, as lists, the calls of its listeners.  A
  thrown error is \<open>Inl\<close>.  Code that awaits the host is a computation on the state of the world: authorizer, factories,
  spawned actors, artifact store, QuickJS, SHA-256, the UTF-8 coding and \<open>JSON.parse\<close> of documents are parameters, about which the theorems
  assume nothing but what they say.  A method that another call can overtake at an await is cut there, and the
  pieces are steps of a system whose runs are arbitrary lists of steps.

  \<^bold>\<open>Termination and bounds.\<close>  All loops are total functions: the search of \<open>solve\<close> is bounded by its limits on states,
  enrichment by its step limit, \<open>stages\<close> by the actors left, the JSON parser by the text left, the observed execution by its invocations.  Only
  the controller's loop has fuel: six passes, which are enough for every run (\<open>resume_terminates\<close>), since phases only go forward.  Costs are integers, limits natural numbers, the bytes of an identity 8-bit words.

  \<^bold>\<open>Conventions.\<close>
  \<^item> Strings hold code units below 256, in Canonical 16-bit units; the dash of the gate's message is written \<open>--\<close>.  Collation keys of
    \<open>localeCompare\<close> are a parameter.
  \<^item> Numbers in data are integers, or not finite where the code tests for it.  Objects keep the order of insertion:
    keys that are array indices, which JavaScript moves to the front, do not occur among the names the code stores;
    where an array is spread they are written out.
  \<^item> \<open>in\<close> and \<open>obj[name]\<close> see the names every object inherits (\<open>prototype_names\<close>) where the code uses them on
    foreign names.  Argument names such as \<open>__proto__\<close> are outside the model of bindings.
  \<^item> Of several failures of a \<open>Promise.all\<close> the first of the list is reported.  Deep freezing and cloning are the
    identity on values, and facts are compared as values where the code compares their JSON texts.
  \<^item> SQL: a table is the list of its rows; a statement or a transaction is one step, since the code locks the rows it decides
    on; a constraint that the code relies on (keys, one open movement for an environment) throws, the checks of validated values and
    the widths of integers are left out, and so are \<open>updated_at\<close> and other columns nobody reads.  Times are milliseconds.  An
    advisory lock is an entry of \<open>d_controllers\<close>.  Between two statements of a controller any calls of others
    may come, and its connection may break.
  \<^item> Ranking: amounts are integers of minor units; the two quotients that the score rounds are rounded exactly, where doubles may
    differ by one point; calendar years have four digits.  Unicode's tables are a parameter.
  \<^item> Random identities, times and revisions given by the platform are arguments of the steps that use them.

  \<^bold>\<open>Not modelled.\<close>  The virtual machine behind sandbox.ts with its fuel clock and memory cap; the source text of
  handlers (\<open>handlerSource\<close>); the durable runner of services/actor-runner (sql-runner.ts), whose logic is SQL, and its
  HTTP layer and schemas (handler.ts, command.ts); the rest of the application skills (libs/aven-document-ingest), the
  HTTP client of the store, the other platform services over SQL (checkout, identity, intent-service, the rest of aven-api), what the
  provisioner runs inside the databases of customers (postgres.ts, movement-postgres.ts) and most of its command line (move-cli.ts), the
  Svelte application, voice (Rust), deployment and the archive: input and output, generated code, other languages, or
  glue around databases and third-party packages.
\<close>

end
